(* ===== verification/Rosebud_Prelude.thy ===== *)
theory Rosebud_Prelude
  imports Main "HOL-Library.Word"
begin

text \<open>
  The generic layer of the development. It fixes how Python's exceptions, sequences and
  bounded loops are written in the model and collects the list lemmas that several
  components share.

  \<^item> A raise is a value: \<open>py_error + 'a\<close> with \<^term>\<open>Inl\<close> for the exception, and
    \<open>try_bind\<close> sequences two such computations.
  \<^item> A loop that need not end is a \<^theory_text>\<open>partial_function (option)\<close>; its value
    \<^term>\<open>None\<close> means that the loop does not come to an end with a result.
  \<^item> \<open>tails\<close> lists the non-empty suffixes of a word, longest first;
    \<open>longest_suffix\<close> is the longest one that satisfies a predicate.
\<close>

named_theorems sme_defs \<open>operations of the string matching engine compiler\<close>

section \<open>Exceptions as values\<close>

text \<open>
  \<open>Blocked\<close> is no exception: it stands for a process of the simulation that waits for a signal which does
  not change any more, so that the call it is in never comes back.
\<close>

datatype py_error =
    AlreadyFinalized
  | PartitioningFailed
  | AssertionError
  | IndexError
  | KeyError
  | ValueError
  | OverflowError
  | ZeroDivisionError
  | TypeError
  | UnicodeEncodeError
  | StructError
  | NameError
  | UnboundLocalError
  | AttributeError
  | Blocked
  | OtherException string

fun try_bind :: "py_error + 'a \<Rightarrow> ('a \<Rightarrow> py_error + 'b) \<Rightarrow> py_error + 'b" where
  "try_bind (Inl e) f = Inl e"
| "try_bind (Inr a) f = f a"

lemma try_bind_Inr_iff [simp]:
  "try_bind r f = Inr b \<longleftrightarrow> (\<exists>a. r = Inr a \<and> f a = Inr b)"
  by (cases r) auto

lemma try_bind_Inl_iff:
  "try_bind r f = Inl e \<longleftrightarrow> r = Inl e \<or> (\<exists>a. r = Inr a \<and> f a = Inl e)"
  by (cases r) auto

text \<open>A subscript: negative ones count from the end, the others raise when out of range.\<close>

definition py_index :: "int \<Rightarrow> 'a list \<Rightarrow> py_error + nat" where
  "py_index i xs =
     (if 0 \<le> i \<and> i < int (length xs) then Inr (nat i)
      else if - int (length xs) \<le> i \<and> i < 0 then Inr (nat (i + int (length xs)))
      else Inl IndexError)"

text \<open>Slices clip their bounds, and assigning to one replaces it by a sequence of any length.\<close>

definition slice_pos :: "int \<Rightarrow> 'a list \<Rightarrow> nat" where
  "slice_pos i xs = (if i < 0 then nat (i + int (length xs)) else min (nat i) (length xs))"

definition py_slice :: "int \<Rightarrow> int \<Rightarrow> 'a list \<Rightarrow> 'a list" where
  "py_slice i j xs = drop (slice_pos i xs) (take (slice_pos j xs) xs)"

definition py_slice_set :: "int \<Rightarrow> int \<Rightarrow> 'a list \<Rightarrow> 'a list \<Rightarrow> 'a list" where
  "py_slice_set i j ys xs =
     take (slice_pos i xs) xs @ ys @ drop (max (slice_pos i xs) (slice_pos j xs)) xs"

text \<open>
  A computation that may also fail to end: \<^term>\<open>None\<close> when it does not, otherwise an
  exception or a result.
\<close>

type_synonym 'a run = "(py_error + 'a) option"

definition run_bind :: "'a run \<Rightarrow> ('a \<Rightarrow> 'b run) \<Rightarrow> 'b run" where
  "run_bind r f = (case r of None \<Rightarrow> None | Some (Inl e) \<Rightarrow> Some (Inl e) | Some (Inr a) \<Rightarrow> f a)"

definition run_return :: "'a \<Rightarrow> 'a run" where
  "run_return a = Some (Inr a)"

definition run_raise :: "py_error \<Rightarrow> 'a run" where
  "run_raise e = Some (Inl e)"

definition run_option :: "'a option \<Rightarrow> 'a run" where
  "run_option r = map_option Inr r"

lemma run_bind_simps [simp]:
  "run_bind None f = None"
  "run_bind (Some (Inl e)) f = Some (Inl e)"
  "run_bind (Some (Inr a)) f = f a"
  by (simp_all add: run_bind_def)

lemma run_defs [simp]:
  "run_return a = Some (Inr a)"
  "run_raise e = Some (Inl e)"
  "run_option (Some a) = Some (Inr a)"
  "run_option None = None"
  by (simp_all add: run_return_def run_raise_def run_option_def)

lemma run_bind_return_iff:
  "run_bind r f = Some (Inr b) \<longleftrightarrow> (\<exists>a. r = Some (Inr a) \<and> f a = Some (Inr b))"
  by (auto simp: run_bind_def split: option.splits sum.splits)

lemma run_bind_mono [partial_function_mono]:
  fixes B :: "('a \<Rightarrow> 'b option) \<Rightarrow> 'c run"
  assumes "mono_option B" and "\<And>y. mono_option (\<lambda>f. C y f)"
  shows "mono_option (\<lambda>f. run_bind (B f) (\<lambda>y. C y f))"
proof (rule monotoneI)
  fix f g :: "'a \<Rightarrow> 'b option"
  assume fg: "option.le_fun f g"
  note le = monotoneD [OF assms(1), OF fg] monotoneD [OF assms(2), OF fg]
  show "option_ord (run_bind (B f) (\<lambda>y. C y f)) (run_bind (B g) (\<lambda>y. C y g))"
  proof (cases "B f")
    case None
    then show ?thesis by (simp add: flat_ord_def)
  next
    case (Some r)
    then have "B g = Some r" using le(1) by (simp add: flat_ord_def)
    with Some le(2) show ?thesis by (cases r) (simp_all add: flat_ord_def)
  qed
qed

section \<open>Text\<close>

text \<open>
  Python strings as lists of code points and byte strings as lists of integers;
  \<open>utf8_encode\<close> is \<open>str.encode('utf-8')\<close>, which refuses the surrogates.
\<close>

datatype py_text = Str "nat list" | Bytes "int list"

fun text_len :: "py_text \<Rightarrow> nat" where
  "text_len (Str cs) = length cs"
| "text_len (Bytes bs) = length bs"

definition utf8_char :: "nat \<Rightarrow> py_error + int list" where
  "utf8_char c =
     (if c < 0x80 then Inr [int c]
      else if c < 0x800 then Inr [int (0xC0 + c div 64), int (0x80 + c mod 64)]
      else if 0xD800 \<le> c \<and> c < 0xE000 then Inl UnicodeEncodeError
      else if c < 0x10000
        then Inr [int (0xE0 + c div 4096), int (0x80 + c div 64 mod 64), int (0x80 + c mod 64)]
      else Inr [int (0xF0 + c div 262144), int (0x80 + c div 4096 mod 64),
                int (0x80 + c div 64 mod 64), int (0x80 + c mod 64)])"

fun utf8_encode :: "nat list \<Rightarrow> py_error + int list" where
  "utf8_encode [] = Inr []"
| "utf8_encode (c # cs) =
     try_bind (utf8_char c) (\<lambda>b. try_bind (utf8_encode cs) (\<lambda>bs. Inr (b @ bs)))"

lemma utf8_encode_ascii: "\<forall>c\<in>set cs. c < 0x80 \<Longrightarrow> utf8_encode cs = Inr (map int cs)"
  by (induction cs) (auto simp: utf8_char_def)

text \<open>The bytes of a text, where every character is one byte.\<close>

fun plain_text :: "py_text \<Rightarrow> bool" where
  "plain_text (Str cs) = (\<forall>c\<in>set cs. c < 0x80)"
| "plain_text (Bytes bs) = True"

fun text_bytes :: "py_text \<Rightarrow> int list" where
  "text_bytes (Str cs) = map int cs"
| "text_bytes (Bytes bs) = bs"

lemma length_text_bytes [simp]: "length (text_bytes t) = text_len t"
  by (cases t) auto

section \<open>Lists\<close>

lemma map_of_eq_None_key: "map_of xs k = None \<longleftrightarrow> k \<notin> fst ` set xs"
  by (rule map_of_eq_None_iff)

lemma concat_map_Nil: "(\<And>x. x \<in> set xs \<Longrightarrow> f x = []) \<Longrightarrow> concat (map f xs) = []"
  by (induction xs) auto

lemma card_set_distinct: "distinct xs \<Longrightarrow> card (set xs) = length xs"
  by (rule distinct_card)

lemma sorted_constant: "(\<And>y. y \<in> set ys \<Longrightarrow> y = k) \<Longrightarrow> sorted ys"
  by (induction ys) auto

text \<open>The non-empty suffixes of a word, longest first.\<close>

fun tails :: "'a list \<Rightarrow> 'a list list" where
  "tails [] = []"
| "tails (x # xs) = (x # xs) # tails xs"

lemma length_tails [simp]: "length (tails w) = length w"
  by (induction w) auto

lemma tails_conv_drop: "tails w = map (\<lambda>j. drop j w) [0..<length w]"
proof (induction w)
  case (Cons x w)
  have "map (\<lambda>j. drop j (x # w)) [0..<length (x # w)] =
      (x # w) # map (\<lambda>j. drop j w) [0..<length w]"
    by (simp add: upt_conv_Cons map_Suc_upt [symmetric] comp_def del: upt_Suc)
  with Cons show ?case by simp
qed simp

lemma tails_snoc: "tails (w @ [c]) = map (\<lambda>t. t @ [c]) (tails w) @ [[c]]"
  by (induction w) auto

section \<open>The longest suffix with a property\<close>

fun longest_suffix :: "('a list \<Rightarrow> bool) \<Rightarrow> 'a list \<Rightarrow> 'a list" where
  "longest_suffix P [] = []"
| "longest_suffix P (x # xs) = (if P (x # xs) then x # xs else longest_suffix P xs)"

lemma longest_suffix_id [simp]: "P w \<Longrightarrow> longest_suffix P w = w"
  by (cases w) auto

lemma longest_suffix_length: "length (longest_suffix P w) \<le> length w"
  by (induction w) auto

lemma longest_suffix_holds: "P [] \<Longrightarrow> P (longest_suffix P w)"
  by (induction w) auto

text \<open>Values attached only to words with the property are found on the longest one.\<close>

lemma tails_longest_suffix:
  assumes "\<And>q. own q \<noteq> [] \<Longrightarrow> P q"
  shows "concat (map own (tails (longest_suffix P w))) = concat (map own (tails w))"
  using assms by (induction w) auto

end
