(* ===== verification/SME_AhoCorasick.thy ===== *)
theory SME_AhoCorasick
  imports Rosebud_Prelude "HOL-Library.AList"
begin

text \<open>
  The classes \<open>AhoCorasickState\<close> and \<open>AhoCorasickStateMachine\<close> of
  \<open>accel/archive/sme/python/sme_rulecompiler.py\<close>. Python's state objects live in an
  explicit store: a list of records in which the position of a record is the identity of
  the object, so that the links \<open>lss\<close> and the dictionary \<open>children\<close> alias states as
  they do in the code. The root is the first object allocated.
\<close>

section \<open>States and machines\<close>

type_synonym ('c, 'v) ac_match = "nat \<times> 'c list \<times> 'v"

record ('c, 'v) ac_state =
  char :: "'c option"
  children :: "('c \<times> nat) list"
  match :: "('c, 'v) ac_match list"
  lss :: "nat option"
  index :: "nat option"
  next_index :: "('c \<times> nat option) list option"

type_synonym ('c, 'v) ac_heap = "('c, 'v) ac_state list"

record ('c, 'v) ac_machine =
  heap :: "('c, 'v) ac_heap"
  states :: "nat list"
  matches :: "('c, 'v) ac_match list"
  finalized :: bool

definition root :: nat where
  "root = 0"

text \<open>
  \<open>get_child\<close> calls the constructor with the character in the place of the parameter
  \<open>parent\<close>, so \<open>char\<close> keeps its default value in every state.
\<close>

definition new_state :: "('c, 'v) ac_state" where
  "new_state = \<lparr>char = None, children = [], match = [], lss = None, index = None,
     next_index = None\<rparr>"

definition new_machine :: "('c, 'v) ac_machine" where
  "new_machine = \<lparr>heap = [new_state], states = [], matches = [], finalized = False\<rparr>"

abbreviation child_of :: "('c, 'v) ac_heap \<Rightarrow> nat \<Rightarrow> 'c \<Rightarrow> nat option" where
  "child_of h s ch \<equiv> map_of (children (h ! s)) ch"

definition get_child :: "('c, 'v) ac_heap \<Rightarrow> nat \<Rightarrow> 'c \<Rightarrow> ('c, 'v) ac_heap \<times> nat" where
  "get_child h s ch =
     (case child_of h s ch of
        Some t \<Rightarrow> (h, t)
      | None \<Rightarrow>
          (h[s := (h ! s)\<lparr>children := children (h ! s) @ [(ch, length h)]\<rparr>] @ [new_state],
           length h))"

section \<open>Adding words\<close>

text \<open>
  A word argument is a bare word, which takes the value of the second parameter, or a
  tuple of a word and a value.
\<close>

datatype ('w, 'v) word_arg = Word 'w | WordValue 'w 'v

fun unpack_word :: "('w, 'v) word_arg \<Rightarrow> 'v \<Rightarrow> 'w \<times> 'v" where
  "unpack_word (Word w) value = (w, value)"
| "unpack_word (WordValue w v) value = (w, v)"

fun descend :: "('c, 'v) ac_heap \<Rightarrow> nat \<Rightarrow> 'c list \<Rightarrow> ('c, 'v) ac_heap \<times> nat" where
  "descend h s [] = (h, s)"
| "descend h s (ch # w) = (case get_child h s ch of (h', t) \<Rightarrow> descend h' t w)"

definition add_word ::
  "('c, 'v) ac_machine \<Rightarrow> ('c list, 'v) word_arg \<Rightarrow> 'v \<Rightarrow> py_error + ('c, 'v) ac_machine" where
  "add_word m arg value =
     (if finalized m then Inl AlreadyFinalized
      else
        (case unpack_word arg value of (word, value) \<Rightarrow>
         (case descend (heap m) root word of (h, s) \<Rightarrow>
            let mt = (length (matches m), word, value)
            in Inr (m\<lparr>matches := matches m @ [mt],
                      heap := h[s := (h ! s)\<lparr>match := match (h ! s) @ [mt]\<rparr>]\<rparr>))))"

fun add_words ::
  "('c, 'v) ac_machine \<Rightarrow> ('c list, 'v) word_arg list \<Rightarrow> 'v \<Rightarrow> py_error + ('c, 'v) ac_machine" where
  "add_words m [] none = Inr m"
| "add_words m (word # lst) none =
     try_bind (add_word m word none) (\<lambda>m'. add_words m' lst none)"

section \<open>Failure links\<close>

text \<open>
  The loop \<open>while ch not in state and state != self.root: state = state.lss\<close>, which
  \<open>finalize\<close>, \<open>query_char\<close> and \<open>query\<close> share.
\<close>

partial_function (option) fail_walk :: "('c, 'v) ac_heap \<Rightarrow> nat \<Rightarrow> 'c \<Rightarrow> nat option" where
  "fail_walk h s ch =
     (if child_of h s ch = None \<and> s \<noteq> root
      then (case lss (h ! s) of None \<Rightarrow> None | Some t \<Rightarrow> fail_walk h t ch)
      else Some s)"

record ('c, 'v) bfs =
  bfs_heap :: "('c, 'v) ac_heap"
  bfs_states :: "nat list"
  bfs_q :: "nat list"
  bfs_processed :: "nat set"

text \<open>The root and the nodes directly under it (the code before the first loop).\<close>

definition init_child :: "('c \<times> nat) \<Rightarrow> ('c, 'v) bfs \<Rightarrow> ('c, 'v) bfs" where
  "init_child item b =
     (case item of (ch, node) \<Rightarrow>
        b\<lparr>bfs_processed := insert node (bfs_processed b),
          bfs_q := bfs_q b @ [node],
          bfs_states := bfs_states b @ [node],
          bfs_heap := (bfs_heap b)[node :=
             (bfs_heap b ! node)\<lparr>index := Some (length (bfs_states b)), lss := Some root\<rparr>]\<rparr>)"

definition init_bfs :: "('c, 'v) ac_heap \<Rightarrow> ('c, 'v) bfs" where
  "init_bfs h =
     (let h0 = h[root := (h ! root)\<lparr>index := Some 0, lss := Some root\<rparr>]
      in fold init_child (children (h0 ! root))
           \<lparr>bfs_heap = h0, bfs_states = [root], bfs_q = [], bfs_processed = {root}\<rparr>)"

text \<open>One iteration of the inner loop \<open>for ch, child in node.items()\<close>.\<close>

definition link_child :: "nat \<Rightarrow> 'c \<times> nat \<Rightarrow> ('c, 'v) bfs \<Rightarrow> ('c, 'v) bfs option" where
  "link_child node item b =
     (case item of (ch, child) \<Rightarrow>
        if child \<in> bfs_processed b then Some b
        else
          let h1 = (bfs_heap b)[child :=
                (bfs_heap b ! child)\<lparr>index := Some (length (bfs_states b))\<rparr>]
          in Option.bind (lss (h1 ! node)) (\<lambda>st0.
             Option.bind (fail_walk h1 st0 ch) (\<lambda>st.
               let l = (case child_of h1 st ch of Some t \<Rightarrow> t | None \<Rightarrow> root);
                   h2 = h1[child := (h1 ! child)\<lparr>lss := Some l\<rparr>];
                   h3 = (if match (h2 ! l) \<noteq> []
                         then h2[child := (h2 ! child)\<lparr>match := match (h2 ! child) @ match (h2 ! l)\<rparr>]
                         else h2)
               in Some (b\<lparr>bfs_heap := h3, bfs_states := bfs_states b @ [child],
                          bfs_q := bfs_q b @ [child]\<rparr>))))"

fun link_children :: "nat \<Rightarrow> ('c \<times> nat) list \<Rightarrow> ('c, 'v) bfs \<Rightarrow> ('c, 'v) bfs option" where
  "link_children node [] b = Some b"
| "link_children node (item # items) b =
     Option.bind (link_child node item b) (link_children node items)"

partial_function (option) link_loop :: "('c, 'v) bfs \<Rightarrow> ('c, 'v) bfs option" where
  "link_loop b =
     (case bfs_q b of
        [] \<Rightarrow> Some b
      | node # q \<Rightarrow>
          Option.bind
            (link_children node (children (bfs_heap b ! node))
               (b\<lparr>bfs_q := q, bfs_processed := insert node (bfs_processed b)\<rparr>))
            link_loop)"

section \<open>The next-state table\<close>

text \<open>One iteration of the loop that enters the child nodes into \<open>next_index\<close>.\<close>

definition enter_child :: "nat \<Rightarrow> 'c \<times> nat \<Rightarrow> ('c, 'v) bfs \<Rightarrow> ('c, 'v) bfs" where
  "enter_child node item b =
     (case item of (ch, child) \<Rightarrow>
        if child \<in> bfs_processed b then b
        else
          let h = bfs_heap b;
              tab = AList.update ch (index (h ! child)) (case next_index (h ! node) of None \<Rightarrow> [] | Some t \<Rightarrow> t)
          in b\<lparr>bfs_q := bfs_q b @ [child],
               bfs_heap := h[node := (h ! node)\<lparr>next_index := Some tab\<rparr>]\<rparr>)"

definition add_missing ::
  "('c, 'v) ac_heap \<Rightarrow> ('c \<times> nat) \<Rightarrow> ('c \<times> nat option) list \<Rightarrow> ('c \<times> nat option) list" where
  "add_missing h item tab =
     (case item of (ch, child) \<Rightarrow>
        if map_of tab ch = None then tab @ [(ch, index (h ! child))] else tab)"

text \<open>\<open>while state != self.root: state = state.lss; ...\<close>\<close>

partial_function (option) add_suffixes ::
  "('c, 'v) ac_heap \<Rightarrow> nat \<Rightarrow> ('c \<times> nat option) list \<Rightarrow> ('c \<times> nat option) list option" where
  "add_suffixes h s tab =
     (if s \<noteq> root
      then (case lss (h ! s) of
              None \<Rightarrow> None
            | Some t \<Rightarrow> add_suffixes h t (fold (add_missing h) (children (h ! t)) tab))
      else Some tab)"

partial_function (option) fill_loop :: "('c, 'v) bfs \<Rightarrow> ('c, 'v) bfs option" where
  "fill_loop b =
     (case bfs_q b of
        [] \<Rightarrow> Some b
      | node # q \<Rightarrow>
          let h0 = (bfs_heap b)[node := (bfs_heap b ! node)\<lparr>next_index := Some []\<rparr>];
              b1 = fold (enter_child node) (children (h0 ! node))
                     (b\<lparr>bfs_heap := h0, bfs_q := q,
                        bfs_processed := insert node (bfs_processed b)\<rparr>);
              h1 = bfs_heap b1
          in Option.bind (add_suffixes h1 node (the (next_index (h1 ! node)))) (\<lambda>tab.
               fill_loop (b1\<lparr>bfs_heap := h1[node := (h1 ! node)\<lparr>next_index := Some tab\<rparr>]\<rparr>)))"

definition finalize :: "('c, 'v) ac_machine \<Rightarrow> ('c, 'v) ac_machine option" where
  "finalize m =
     (if finalized m then Some m
      else
        Option.bind (link_loop (init_bfs (heap m))) (\<lambda>b1.
        Option.bind (fill_loop \<lparr>bfs_heap = bfs_heap b1, bfs_states = bfs_states b1,
                                bfs_q = [root], bfs_processed = {}\<rparr>) (\<lambda>b2.
          Some (m\<lparr>heap := bfs_heap b2, states := bfs_states b2, finalized := True\<rparr>))))"

section \<open>Queries\<close>

definition step_state ::
  "('c, 'v) ac_heap \<Rightarrow> nat \<Rightarrow> 'c \<Rightarrow> (nat \<times> ('c, 'v) ac_match list option) option" where
  "step_state h s ch =
     Option.bind (fail_walk h s ch) (\<lambda>st.
       Some (case child_of h st ch of
               Some t \<Rightarrow> (t, Some (match (h ! t)))
             | None \<Rightarrow> (root, None)))"

definition query_char ::
  "('c, 'v) ac_machine \<Rightarrow> nat option \<Rightarrow> 'c \<Rightarrow>
   (('c, 'v) ac_machine \<times> nat \<times> ('c, 'v) ac_match list option) option" where
  "query_char m state ch =
     Option.bind (if finalized m then Some m else finalize m) (\<lambda>m'.
     Option.bind (step_state (heap m') (case state of None \<Rightarrow> root | Some s \<Rightarrow> s) ch) (\<lambda>(s, r).
       Some (m', s, r)))"

text \<open>The yields of \<open>query\<close>: offset of the occurrence and the match tuple.\<close>

fun query_from ::
  "('c, 'v) ac_heap \<Rightarrow> nat \<Rightarrow> nat \<Rightarrow> 'c list \<Rightarrow> (int \<times> ('c, 'v) ac_match) list option" where
  "query_from h s i [] = Some []"
| "query_from h s i (ch # cs) =
     Option.bind (step_state h s ch) (\<lambda>(t, r).
     Option.bind (query_from h t (Suc i) cs) (\<lambda>rest.
       Some (map (\<lambda>m. (int i - int (length (fst (snd m))) + 1, m))
               (case r of None \<Rightarrow> [] | Some ms \<Rightarrow> ms) @ rest)))"

definition query ::
  "('c, 'v) ac_machine \<Rightarrow> 'c list \<Rightarrow>
   (('c, 'v) ac_machine \<times> (int \<times> ('c, 'v) ac_match) list) option" where
  "query m s =
     Option.bind (if finalized m then Some m else finalize m) (\<lambda>m'.
     Option.bind (query_from (heap m') root 0 s) (\<lambda>ys. Some (m', ys)))"

declare fail_walk.simps [code] link_loop.simps [code] add_suffixes.simps [code]
  fill_loop.simps [code]

end
