(* ===== verification/SME_AhoCorasick_Correct.thy ===== *)
theory SME_AhoCorasick_Correct
  imports SME_AhoCorasick "HOL-Library.Sublist"
begin

text \<open>
  Correctness of the Aho-Corasick machine. The abstract view of a state is the word that
  leads to it from the root; \<open>labels\<close> says that a labelling of the store with these
  words is consistent. The link phase of \<open>finalize\<close> is shown to give every state the
  longest strict suffix that is again a path of the trie, and the fill phase to tabulate
  the goto function; a query then reports exactly the occurrences that a naive search
  finds, in the same order.
\<close>

section \<open>Prefix-closed sets of words\<close>

locale prefix_closed =
  fixes P :: "'c list \<Rightarrow> bool"
  assumes P_Nil: "P []"
    and P_snoc: "P (w @ [c]) \<Longrightarrow> P w"
begin

lemma longest_suffix_snoc:
  "longest_suffix P (w @ [c]) = longest_suffix P (longest_suffix P w @ [c])"
proof (induction w)
  case (Cons a w)
  have "\<not> P (a # w) \<Longrightarrow> \<not> P (a # w @ [c])"
    using P_snoc [of "a # w" c] by auto
  with Cons show ?case by auto
qed simp

lemma longest_suffix_fail:
  assumes "p \<noteq> []" and "\<not> P (p @ [c])"
  shows "longest_suffix P (p @ [c]) = longest_suffix P (longest_suffix P (tl p) @ [c])"
  using assms longest_suffix_snoc [of "tl p" c] by (cases p) auto

lemma longest_suffix_single: "\<not> P [c] \<Longrightarrow> longest_suffix P [c] = []"
  by simp

lemma longest_suffix_path: "P (longest_suffix P w)"
  by (rule longest_suffix_holds, rule P_Nil)

end

text \<open>The paths of the trie for a list of matches, and the matches of one word.\<close>

definition is_path :: "('c, 'v) ac_match list \<Rightarrow> 'c list \<Rightarrow> bool" where
  "is_path ms p \<longleftrightarrow> p = [] \<or> list_ex (\<lambda>m. prefix p (fst (snd m))) ms"

definition own :: "('c, 'v) ac_match list \<Rightarrow> 'c list \<Rightarrow> ('c, 'v) ac_match list" where
  "own ms q = filter (\<lambda>m. fst (snd m) = q) ms"

interpretation paths: prefix_closed "is_path ms" for ms
  by unfold_locales (auto simp: is_path_def list_ex_iff dest: append_prefixD)

lemma own_path: "own ms q \<noteq> [] \<Longrightarrow> is_path ms q"
  by (auto simp: own_def is_path_def list_ex_iff filter_empty_conv)

text \<open>
  The matches that the link phase accumulates. Only states below the first level take
  over the matches of their suffix.
\<close>

function out_at :: "('c, 'v) ac_match list \<Rightarrow> 'c list \<Rightarrow> ('c, 'v) ac_match list" where
  "out_at ms p =
     (if length p \<le> 1 then own ms p
      else own ms p @ out_at ms (longest_suffix (is_path ms) (tl p)))"
  by pat_completeness auto
termination
  by (relation "measure (\<lambda>(ms, p). length p)")
    (auto simp: le_less_trans [OF longest_suffix_length])

declare out_at.simps [simp del]

lemma out_at_short: "length p \<le> 1 \<Longrightarrow> out_at ms p = own ms p"
  by (simp add: out_at.simps [of ms p])

lemma out_at_long:
  "1 < length p \<Longrightarrow>
   out_at ms p = own ms p @ out_at ms (longest_suffix (is_path ms) (tl p))"
  by (simp add: out_at.simps [of ms p])

lemma out_at_tails:
  "own ms [] = [] \<Longrightarrow> out_at ms p = concat (map (own ms) (tails p))"
proof (induction ms p rule: out_at.induct)
  case (1 ms p)
  show ?case
  proof (cases "length p \<le> 1")
    case True
    with "1.prems" show ?thesis by (cases p) (auto simp: out_at_short)
  next
    case False
    then have "out_at ms p = own ms p @ concat (map (own ms) (tails (tl p)))"
      using 1 by (simp add: out_at_long tails_longest_suffix own_path)
    with False show ?thesis by (cases p) auto
  qed
qed

section \<open>Consistent labellings of the store\<close>

definition labels :: "('c, 'v) ac_heap \<Rightarrow> (nat \<Rightarrow> 'c list) \<Rightarrow> bool" where
  "labels h lab \<longleftrightarrow>
     root < length h \<and> lab root = [] \<and> inj_on lab {..<length h} \<and>
     (\<forall>s<length h. distinct (map fst (children (h ! s))) \<and>
        (\<forall>(c, t)\<in>set (children (h ! s)). t < length h \<and> lab t = lab s @ [c])) \<and>
     (\<forall>t<length h. t \<noteq> root \<longrightarrow> (\<exists>s<length h. \<exists>c. (c, t) \<in> set (children (h ! s))))"

definition trie_ok ::
  "('c, 'v) ac_heap \<Rightarrow> (nat \<Rightarrow> 'c list) \<Rightarrow> 'c list set \<Rightarrow> ('c list \<Rightarrow> ('c, 'v) ac_match list) \<Rightarrow> bool"
where
  "trie_ok h lab S f \<longleftrightarrow>
     labels h lab \<and> lab ` {..<length h} = S \<and> (\<forall>s<length h. match (h ! s) = f (lab s))"

lemma labels_cong:
  assumes "map children h' = map children h"
  shows "labels h' lab = labels h lab"
proof -
  have len: "length h' = length h"
    using assms by (rule map_eq_imp_length_eq)
  have "\<And>s. s < length h \<Longrightarrow> children (h' ! s) = children (h ! s)"
    using assms len by (metis nth_map)
  then show ?thesis
    by (simp add: labels_def len cong: conj_cong)
qed

lemma labels_childD:
  assumes "labels h lab" and "s < length h" and "(c, t) \<in> set (children (h ! s))"
  shows "t < length h" and "lab t = lab s @ [c]"
  using assms by (auto simp: labels_def)

lemma labels_keys: "labels h lab \<Longrightarrow> s < length h \<Longrightarrow> distinct (map fst (children (h ! s)))"
  by (auto simp: labels_def)

lemma labels_root: "labels h lab \<Longrightarrow> root < length h" "labels h lab \<Longrightarrow> lab root = []"
  by (auto simp: labels_def)

lemma labels_inj:
  "labels h lab \<Longrightarrow> lab s = lab t \<Longrightarrow> s < length h \<Longrightarrow> t < length h \<Longrightarrow> s = t"
  by (auto simp: labels_def inj_on_def)

lemma labels_parentE:
  assumes "labels h lab" and "t < length h" and "t \<noteq> root"
  obtains s c where "s < length h" "(c, t) \<in> set (children (h ! s))" "lab t = lab s @ [c]"
  using assms unfolding labels_def by fast

lemma labels_root_iff:
  assumes "labels h lab" and "t < length h"
  shows "lab t = [] \<longleftrightarrow> t = root"
  using assms labels_inj [of h lab t root] by (auto simp: labels_root)

lemma labels_child_iff:
  assumes "labels h lab" and "s < length h"
  shows "child_of h s c = Some t \<longleftrightarrow> t < length h \<and> lab t = lab s @ [c]"
proof
  assume "child_of h s c = Some t"
  then have "(c, t) \<in> set (children (h ! s))" by (rule map_of_SomeD)
  with assms show "t < length h \<and> lab t = lab s @ [c]"
    by (auto dest: labels_childD)
next
  assume t: "t < length h \<and> lab t = lab s @ [c]"
  then have "t \<noteq> root" using labels_root [OF assms(1)] by auto
  with assms t obtain s' c' where s': "s' < length h" "(c', t) \<in> set (children (h ! s'))"
      "lab t = lab s' @ [c']"
    by (auto elim: labels_parentE)
  with t have "lab s' = lab s" "c' = c" by auto
  then have "s' = s" using assms s' by (auto dest: labels_inj)
  with s' \<open>c' = c\<close> show "child_of h s c = Some t"
    using labels_keys [OF assms] by simp
qed

lemma labels_child_None:
  assumes "labels h lab" and "s < length h"
  shows "child_of h s c = None \<longleftrightarrow> lab s @ [c] \<notin> lab ` {..<length h}"
proof -
  have "child_of h s c \<noteq> None \<longleftrightarrow> (\<exists>t<length h. lab t = lab s @ [c])"
    using labels_child_iff [OF assms] by auto
  then show ?thesis unfolding image_iff by (metis lessThan_iff)
qed

section \<open>Adding words keeps the trie\<close>

lemma get_child_new_labels:
  assumes lab: "labels h lab" and s: "s < length h" and none: "child_of h s c = None"
  shows "labels (h[s := (h ! s)\<lparr>children := children (h ! s) @ [(c, length h)]\<rparr>] @ [new_state])
           (lab(length h := lab s @ [c]))" (is "labels ?h ?lab")
proof -
  have fresh: "lab i \<noteq> lab s @ [c]" if "i < length h" for i
    using labels_child_iff [OF lab s, of c i] none that by auto
  have ch: "children (?h ! i) =
      (if i = s then children (h ! s) @ [(c, length h)] else if i < length h then children (h ! i) else [])"
    if "i < Suc (length h)" for i
    using that s by (auto simp: nth_append nth_list_update new_state_def)
  have key: "c \<notin> fst ` set (children (h ! s))"
    using none by (simp add: map_of_eq_None_iff)
  have "inj_on ?lab {..<length ?h}"
  proof -
    have "inj_on lab {..<length h}" using lab by (simp add: labels_def)
    moreover have "lab s @ [c] \<notin> lab ` {..<length h}" using fresh by fastforce
    ultimately show ?thesis by (auto simp: lessThan_Suc inj_on_fun_updI)
  qed
  moreover have "distinct (map fst (children (?h ! i))) \<and>
      (\<forall>(d, t)\<in>set (children (?h ! i)). t < length ?h \<and> ?lab t = ?lab i @ [d])"
    if "i < length ?h" for i
  proof -
    consider (old) "i < length h" "i \<noteq> s" | (upd) "i = s" | (new) "i = length h" "i \<noteq> s"
      using \<open>i < length ?h\<close> by fastforce
    then show ?thesis
    proof cases
      case old
      with ch [of i] labels_keys [OF lab, of i] labels_childD [OF lab, of i] show ?thesis
        by fastforce
    next
      case upd
      with ch [of i] s key labels_keys [OF lab, of s] labels_childD [OF lab, of s] show ?thesis
        by fastforce
    next
      case new
      with ch [of i] show ?thesis by simp
    qed
  qed
  moreover have "\<exists>i<length ?h. \<exists>d. (d, t) \<in> set (children (?h ! i))"
    if t: "t < length ?h" "t \<noteq> root" for t
  proof (cases "t = length h")
    case True
    with s ch [of s] show ?thesis by (intro exI [of _ s]) auto
  next
    case False
    with t have "t < length h" by simp
    then obtain i d where "i < length h" "(d, t) \<in> set (children (h ! i))"
      using lab t by (auto elim: labels_parentE)
    with ch [of i] show ?thesis by (intro exI [of _ i]) auto
  qed
  ultimately show ?thesis
    using labels_root [OF lab] unfolding labels_def by simp
qed

lemma get_child_ok:
  assumes ok: "trie_ok h lab S f" and s: "s < length h"
    and f: "\<And>q. q \<notin> S \<Longrightarrow> f q = []" and eq: "get_child h s c = (h', t)"
  shows "\<exists>lab'. trie_ok h' lab' (insert (lab s @ [c]) S) f \<and> t < length h' \<and> lab' t = lab s @ [c]"
proof (cases "child_of h s c")
  case (Some u)
  with ok s have "u < length h" "lab u = lab s @ [c]"
    by (auto simp: trie_ok_def labels_child_iff)
  moreover from this ok have "insert (lab s @ [c]) S = S"
    by (auto simp: trie_ok_def image_iff insert_absorb intro: sym)
  ultimately show ?thesis
    using Some eq ok by (auto simp: get_child_def)
next
  case None
  from ok have lab: "labels h lab" and S: "lab ` {..<length h} = S"
    and m: "\<And>i. i < length h \<Longrightarrow> match (h ! i) = f (lab i)"
    by (auto simp: trie_ok_def)
  let ?h = "h[s := (h ! s)\<lparr>children := children (h ! s) @ [(c, length h)]\<rparr>] @ [new_state]"
  let ?lab = "lab(length h := lab s @ [c])"
  from None eq have h': "h' = ?h" and t: "t = length h"
    by (auto simp: get_child_def)
  have "lab s @ [c] \<notin> S"
    using None labels_child_None [OF lab s] S by simp
  then have new: "f (lab s @ [c]) = []" by (rule f)
  have "match (?h ! i) = f (?lab i)" if "i < length ?h" for i
    using that m new s by (cases "i = s") (auto simp: nth_append nth_list_update new_state_def)
  moreover have "?lab ` {..<length ?h} = insert (lab s @ [c]) S"
    using S by (auto simp: lessThan_Suc)
  ultimately have "trie_ok ?h ?lab (insert (lab s @ [c]) S) f"
    using get_child_new_labels [OF lab s None] by (auto simp: trie_ok_def)
  then show ?thesis using h' t by auto
qed

lemma descend_ok:
  assumes "trie_ok h lab S f" and "s < length h"
    and "\<And>q. q \<notin> S \<Longrightarrow> f q = []" and "descend h s w = (h', t)"
  shows "\<exists>lab'. trie_ok h' lab' (S \<union> {lab s @ p |p. prefix p w}) f \<and>
           t < length h' \<and> lab' t = lab s @ w"
  using assms
proof (induction w arbitrary: h lab S s)
  case Nil
  then have "lab s \<in> S" by (auto simp: trie_ok_def)
  then have "S \<union> {lab s @ p |p. prefix p []} = S" by auto
  with Nil show ?case by auto
next
  case (Cons c w)
  obtain h1 u where gc: "get_child h s c = (h1, u)" by fastforce
  from get_child_ok [OF Cons.prems(1-3) gc] obtain lab1 where
    ok1: "trie_ok h1 lab1 (insert (lab s @ [c]) S) f" "u < length h1" "lab1 u = lab s @ [c]"
    by auto
  moreover have "\<And>q. q \<notin> insert (lab s @ [c]) S \<Longrightarrow> f q = []"
    using Cons.prems(3) by auto
  moreover have "descend h1 u w = (h', t)"
    using Cons.prems(4) gc by simp
  ultimately obtain lab' where
    "trie_ok h' lab' (insert (lab s @ [c]) S \<union> {lab1 u @ p |p. prefix p w}) f"
    "t < length h'" "lab' t = lab1 u @ w"
    using Cons.IH by blast
  moreover have "insert (lab s @ [c]) S \<union> {lab1 u @ p |p. prefix p w} =
      S \<union> {lab s @ p |p. prefix p (c # w)}"
  proof -
    have "lab s \<in> S" using Cons.prems by (auto simp: trie_ok_def)
    then show ?thesis using ok1(3) by (auto simp: prefix_Cons)
  qed
  ultimately show ?case using ok1(3) by auto
qed

definition machine_ok :: "('c, 'v) ac_machine \<Rightarrow> bool" where
  "machine_ok m \<longleftrightarrow>
     \<not> finalized m \<and> map fst (matches m) = [0..<length (matches m)] \<and>
     (\<exists>lab. trie_ok (heap m) lab (Collect (is_path (matches m))) (own (matches m)))"

lemma new_machine_ok: "machine_ok new_machine"
proof -
  have "labels [new_state] (\<lambda>_. [])"
    by (auto simp: labels_def root_def new_state_def inj_on_def)
  then have "trie_ok [new_state] (\<lambda>_. []) (Collect (is_path [])) (own [])"
    by (auto simp: trie_ok_def new_state_def is_path_def own_def)
  then show ?thesis
    by (auto simp: machine_ok_def new_machine_def)
qed

lemma is_path_snoc:
  "Collect (is_path (ms @ [mt])) = Collect (is_path ms) \<union> {p. prefix p (fst (snd mt))}"
  by (auto simp: is_path_def)

lemma add_word_ok:
  assumes "machine_ok m"
  shows "\<exists>m'. add_word m arg v = Inr m' \<and> machine_ok m' \<and>
           matches m' = matches m @ [(length (matches m), unpack_word arg v)]"
proof -
  from assms obtain lab where
    ok: "trie_ok (heap m) lab (Collect (is_path (matches m))) (own (matches m))"
    by (auto simp: machine_ok_def)
  obtain w v' where uw: "unpack_word arg v = (w, v')" by fastforce
  obtain h s where d: "descend (heap m) root w = (h, s)" by fastforce
  from ok have lab: "labels (heap m) lab" by (simp add: trie_ok_def)
  define mt where "mt = (length (matches m), w, v')"
  have "\<And>q. q \<notin> Collect (is_path (matches m)) \<Longrightarrow> own (matches m) q = []"
    using own_path by auto
  from descend_ok [OF ok labels_root(1) [OF lab] this d] obtain lab' where
    ok': "trie_ok h lab' (Collect (is_path (matches m)) \<union> {lab root @ p |p. prefix p w}) (own (matches m))"
    and s: "s < length h" and lab's: "lab' s = lab root @ w"
    by auto
  let ?h = "h[s := (h ! s)\<lparr>match := match (h ! s) @ [mt]\<rparr>]"
  have "map children ?h = map children h"
    using s by (auto simp: map_update list_update_same_conv)
  then have "labels ?h lab'"
    using ok' labels_cong by (auto simp: trie_ok_def)
  moreover have "match (?h ! i) = own (matches m @ [mt]) (lab' i)" if "i < length h" for i
    using that s ok' lab's labels_root(2) [OF lab] labels_inj [of h lab' i s]
    by (auto simp: trie_ok_def nth_list_update own_def mt_def)
  ultimately have "trie_ok ?h lab' (Collect (is_path (matches m @ [mt]))) (own (matches m @ [mt]))"
    using ok' labels_root(2) [OF lab] by (auto simp: trie_ok_def is_path_snoc mt_def)
  moreover have "add_word m arg v = Inr (m\<lparr>matches := matches m @ [mt], heap := ?h\<rparr>)"
    using assms d uw by (simp add: add_word_def machine_ok_def mt_def Let_def)
  ultimately show ?thesis
    using assms uw by (auto simp: machine_ok_def mt_def)
qed

lemma add_words_ok:
  assumes "machine_ok m"
  shows "\<exists>m'. add_words m lst v = Inr m' \<and> machine_ok m' \<and>
           matches m' = matches m @ enumerate (length (matches m)) (map (\<lambda>a. unpack_word a v) lst)"
  using assms
proof (induction lst arbitrary: m)
  case (Cons a lst)
  from add_word_ok [OF Cons.prems, of a v] obtain m1 where
    m1: "add_word m a v = Inr m1" "machine_ok m1"
      "matches m1 = matches m @ [(length (matches m), unpack_word a v)]"
    by blast
  from Cons.IH [OF m1(2)] m1 show ?case by auto
qed simp

section \<open>The link phase\<close>

abbreviation goto :: "('c, 'v) ac_match list \<Rightarrow> 'c list \<Rightarrow> 'c list" where
  "goto ms \<equiv> longest_suffix (is_path ms)"

definition lss_ok ::
  "('c, 'v) ac_match list \<Rightarrow> (nat \<Rightarrow> 'c list) \<Rightarrow> ('c, 'v) ac_heap \<Rightarrow> nat \<Rightarrow> bool" where
  "lss_ok ms lab h s \<longleftrightarrow>
     (\<exists>l<length h. lss (h ! s) = Some l \<and> lab l = goto ms (tl (lab s)))"

definition shape_ok ::
  "('c, 'v) ac_match list \<Rightarrow> (nat \<Rightarrow> 'c list) \<Rightarrow> ('c, 'v) ac_heap \<Rightarrow> bool" where
  "shape_ok ms lab h \<longleftrightarrow> labels h lab \<and> lab ` {..<length h} = Collect (is_path ms)"

lemma shape_child_None:
  assumes "shape_ok ms lab h" and "s < length h"
  shows "child_of h s c = None \<longleftrightarrow> \<not> is_path ms (lab s @ [c])"
  using assms labels_child_None [of h lab s c] by (simp add: shape_ok_def)

lemma shape_node:
  assumes "shape_ok ms lab h" and "is_path ms p"
  obtains s where "s < length h" "lab s = p"
  using assms unfolding shape_ok_def by (metis imageE lessThan_iff mem_Collect_eq)

lemma fail_walk_stop: "child_of h s c \<noteq> None \<or> s = root \<Longrightarrow> fail_walk h s c = Some s"
  by (subst fail_walk.simps) auto

lemma fail_walk_next:
  "child_of h s c = None \<Longrightarrow> s \<noteq> root \<Longrightarrow> lss (h ! s) = Some l \<Longrightarrow>
   fail_walk h s c = fail_walk h l c"
  by (subst fail_walk.simps) auto

text \<open>
  Following the failure links from a state and then one child gives the goto function,
  provided the links of all states that are not deeper are in place.
\<close>

lemma fail_walk_goto:
  assumes shape: "shape_ok ms lab h" and "s < length h"
    and "\<And>t. t < length h \<Longrightarrow> length (lab t) \<le> length (lab s) \<Longrightarrow> lss_ok ms lab h t"
  shows "\<exists>st<length h. fail_walk h s c = Some st \<and>
           (case child_of h st c of
              Some t \<Rightarrow> t < length h \<and> lab t = goto ms (lab s @ [c]) \<and> t \<noteq> root
            | None \<Rightarrow> goto ms (lab s @ [c]) = [])"
  using assms(2,3)
proof (induction "length (lab s)" arbitrary: s rule: less_induct)
  case less
  from shape have lab: "labels h lab" by (simp add: shape_ok_def)
  show ?case
  proof (cases "child_of h s c")
    case (Some t)
    then have t: "t < length h" "lab t = lab s @ [c]"
      using lab less.prems by (auto simp: labels_child_iff)
    then have "is_path ms (lab s @ [c])"
      using shape_child_None [OF shape less.prems(1), of c] Some by simp
    moreover have "t \<noteq> root" using t labels_root(2) [OF lab] by auto
    moreover have "fail_walk h s c = Some s"
      using Some by (simp add: fail_walk_stop)
    ultimately show ?thesis
      using t Some less.prems(1) by (intro exI [of _ s]) auto
  next
    case None
    then have np: "\<not> is_path ms (lab s @ [c])"
      using shape_child_None [OF shape less.prems(1), of c] by simp
    show ?thesis
    proof (cases "s = root")
      case True
      with np labels_root(2) [OF lab] have "goto ms (lab s @ [c]) = []" by simp
      moreover have "fail_walk h s c = Some s"
        using True by (simp add: fail_walk_stop)
      ultimately show ?thesis
        using None less.prems(1) by (intro exI [of _ s]) auto
    next
      case False
      with lab less.prems(1) have ne: "lab s \<noteq> []" by (simp add: labels_root_iff)
      from less.prems(2) [OF less.prems(1)] obtain l where
        l: "l < length h" "lss (h ! s) = Some l" "lab l = goto ms (tl (lab s))"
        by (auto simp: lss_ok_def)
      have "length (lab l) < length (lab s)"
        using ne l(3) longest_suffix_length [of "is_path ms" "tl (lab s)"]
        by (cases "lab s") auto
      moreover have "goto ms (lab s @ [c]) = goto ms (lab l @ [c])"
        using paths.longest_suffix_fail [OF ne np] l(3) by simp
      moreover have "fail_walk h s c = fail_walk h l c"
        using None False l by (simp add: fail_walk_next)
      ultimately show ?thesis
        using less.hyps [of l] l(1) less.prems(2) by (auto split: option.splits)
    qed
  qed
qed

text \<open>What holds of the store while the states are linked one after the other.\<close>

definition link_inv ::
  "('c, 'v) ac_match list \<Rightarrow> (nat \<Rightarrow> 'c list) \<Rightarrow> ('c, 'v) ac_heap \<Rightarrow> nat list \<Rightarrow> bool" where
  "link_inv ms lab h sts \<longleftrightarrow>
     shape_ok ms lab h \<and> distinct sts \<and> set sts \<subseteq> {..<length h} \<and>
     (\<forall>i<length sts. index (h ! (sts ! i)) = Some i) \<and>
     (\<forall>s\<in>set sts. lss_ok ms lab h s \<and> match (h ! s) = out_at ms (lab s)) \<and>
     (\<forall>s<length h. s \<notin> set sts \<longrightarrow> match (h ! s) = own ms (lab s))"

lemma shape_ok_cong:
  assumes "map children h' = map children h"
  shows "shape_ok ms lab h' = shape_ok ms lab h"
  using labels_cong [OF assms] map_eq_imp_length_eq [OF assms] by (simp add: shape_ok_def)

lemma map_children_update:
  "children x = children (h ! s) \<Longrightarrow> map children (h[s := x]) = map children h"
  by (simp add: map_update) (metis list_update_id map_update)

text \<open>Writing the record of a state that is not yet linked extends the invariant.\<close>

lemma link_inv_snoc:
  assumes inv: "link_inv ms lab h sts" and t: "t < length h" "t \<notin> set sts"
    and x: "children x = children (h ! t)" "index x = Some (length sts)"
      "lss x = Some l" "match x = out_at ms (lab t)"
    and l: "l < length h" "lab l = goto ms (tl (lab t))"
  shows "link_inv ms lab (h[t := x]) (sts @ [t])"
proof -
  let ?h = "h[t := x]"
  have same: "?h ! s = h ! s" if "s \<in> set sts" for s
    using that t by (auto simp: nth_list_update)
  have "shape_ok ms lab ?h"
    using inv by (subst shape_ok_cong [OF map_children_update [OF x(1)]]) (simp add: link_inv_def)
  moreover have "\<forall>i<length (sts @ [t]). index (?h ! ((sts @ [t]) ! i)) = Some i"
    using inv x t same by (auto simp: link_inv_def nth_append less_Suc_eq)
  moreover have "\<forall>s\<in>set (sts @ [t]). lss_ok ms lab ?h s \<and> match (?h ! s) = out_at ms (lab s)"
  proof
    fix s assume "s \<in> set (sts @ [t])"
    with inv x l t same show "lss_ok ms lab ?h s \<and> match (?h ! s) = out_at ms (lab s)"
      by (cases "s = t") (auto simp: link_inv_def lss_ok_def)
  qed
  moreover have "\<forall>s<length ?h. s \<notin> set (sts @ [t]) \<longrightarrow> match (?h ! s) = own ms (lab s)"
    using inv by (auto simp: link_inv_def)
  moreover have "distinct (sts @ [t])" and "set (sts @ [t]) \<subseteq> {..<length ?h}"
    using inv t by (auto simp: link_inv_def)
  ultimately show ?thesis
    unfolding link_inv_def by (intro conjI)
qed

lemma link_child_ok:
  assumes inv: "link_inv ms lab (bfs_heap b) (bfs_states b)"
    and node: "node \<in> set (bfs_states b)" "node \<noteq> root"
    and deep: "\<And>t. t < length (bfs_heap b) \<Longrightarrow> length (lab t) \<le> length (lab node) \<Longrightarrow>
        t \<in> set (bfs_states b)"
    and item: "(c, t) \<in> set (children (bfs_heap b ! node))"
    and t: "t \<notin> set (bfs_states b)" "t \<notin> bfs_processed b"
  shows "\<exists>b'. link_child node (c, t) b = Some b' \<and>
           link_inv ms lab (bfs_heap b') (bfs_states b') \<and>
           bfs_states b' = bfs_states b @ [t] \<and> bfs_q b' = bfs_q b @ [t] \<and>
           bfs_processed b' = bfs_processed b \<and>
           map children (bfs_heap b') = map children (bfs_heap b)"
proof -
  let ?h = "bfs_heap b" let ?sts = "bfs_states b"
  from inv have shape: "shape_ok ms lab ?h" and lab: "labels ?h lab"
    and sub: "set ?sts \<subseteq> {..<length ?h}"
    by (auto simp: link_inv_def shape_ok_def)
  have n: "node < length ?h" using node(1) sub by auto
  have tl: "t < length ?h" and labt: "lab t = lab node @ [c]"
    using labels_childD [OF lab n item] by auto
  have ne: "lab node \<noteq> []" using labels_root_iff [OF lab n] node(2) by simp
  let ?h1 = "?h[t := (?h ! t)\<lparr>index := Some (length ?sts)\<rparr>]"
  have len1: "length ?h1 = length ?h" by simp
  have shape1: "shape_ok ms lab ?h1"
    using shape by (subst shape_ok_cong [OF map_children_update]) auto
  have tn: "t \<noteq> node" using node(1) t(1) by auto
  from inv node(1) obtain st0 where
    st0: "st0 < length ?h" "lss (?h ! node) = Some st0" "lab st0 = goto ms (tl (lab node))"
    by (auto simp: link_inv_def lss_ok_def)
  have "length (lab st0) \<le> length (lab node)"
    using st0(3) longest_suffix_length [of "is_path ms" "tl (lab node)"] by simp
  then have "lss_ok ms lab ?h1 u" if u: "u < length ?h1" "length (lab u) \<le> length (lab st0)" for u
  proof -
    have "lss (?h1 ! u) = lss (?h ! u)" using tl by (cases "u = t") auto
    moreover have "lss_ok ms lab ?h u"
      using u deep [of u] inv \<open>length (lab st0) \<le> length (lab node)\<close> by (simp add: link_inv_def)
    ultimately show ?thesis by (simp add: lss_ok_def)
  qed
  from fail_walk_goto [OF shape1 _ this] st0(1) obtain st where
    st: "st < length ?h" "fail_walk ?h1 st0 c = Some st"
      "case child_of ?h1 st c of
         Some t \<Rightarrow> t < length ?h1 \<and> lab t = goto ms (lab st0 @ [c]) \<and> t \<noteq> root
       | None \<Rightarrow> goto ms (lab st0 @ [c]) = []"
    by (auto simp: len1)
  define l where "l = (case child_of ?h1 st c of Some t \<Rightarrow> t | None \<Rightarrow> root)"
  have "goto ms (lab st0 @ [c]) = goto ms (tl (lab t))"
    using paths.longest_suffix_snoc [of ms "tl (lab node)" c] st0(3) labt ne by simp
  then have l: "l < length ?h" "lab l = goto ms (tl (lab t))"
    using st(3) labels_root [OF lab] by (auto simp: l_def split: option.splits)
  have "length (lab l) \<le> length (lab node)"
    using l(2) labt longest_suffix_length [of "is_path ms" "tl (lab t)"] by simp
  then have lin: "l \<in> set ?sts" using deep l(1) by blast
  then have lt: "l \<noteq> t" using t(1) by auto
  have "match (?h ! t) = own ms (lab t)" and "match (?h ! l) = out_at ms (lab l)"
    using inv tl t(1) lin by (auto simp: link_inv_def)
  then have m: "match (?h ! t) @ match (?h ! l) = out_at ms (lab t)"
    using l(2) labt ne by (simp add: out_at_long)
  let ?x = "(?h ! t)\<lparr>index := Some (length ?sts), lss := Some l,
      match := match (?h ! t) @ match (?h ! l)\<rparr>"
  have "link_inv ms lab (?h[t := ?x]) (?sts @ [t])"
    by (rule link_inv_snoc [OF inv tl t(1) _ _ _ _ l]) (use m in auto)
  moreover have "link_child node (c, t) b =
      Some (b\<lparr>bfs_heap := ?h[t := ?x], bfs_states := ?sts @ [t], bfs_q := bfs_q b @ [t]\<rparr>)"
    using t(2) st0(2) st(2) tn lt tl l(1)
    by (simp add: link_child_def Let_def l_def [symmetric])
  moreover have "map children (?h[t := ?x]) = map children ?h"
    by (rule map_children_update) simp
  ultimately show ?thesis by auto
qed

end
