(* ===== verification/SME_AC_Finalize.thy ===== *)
theory SME_AC_Finalize
  imports SME_AhoCorasick_Correct
begin

text \<open>
  The two breadth-first loops of \<open>AhoCorasickStateMachine.finalize\<close>: both come to an end,
  the first leaves correct failure links and accumulated matches in every state, the
  second the table of the goto function.
\<close>

section \<open>Breadth-first order\<close>

text \<open>
  \<open>D\<close> holds the states that have been enqueued so far and \<open>q\<close> those that still wait:
  everything else in \<open>D\<close> has its children in \<open>D\<close>, and the queue is ordered by depth.
\<close>

definition bfs_order ::
  "(nat \<Rightarrow> 'c list) \<Rightarrow> ('c, 'v) ac_heap \<Rightarrow> nat list \<Rightarrow> nat set \<Rightarrow> bool" where
  "bfs_order lab h q D \<longleftrightarrow>
     labels h lab \<and> distinct q \<and> set q \<subseteq> D \<and> D \<subseteq> {..<length h} \<and> root \<in> D \<and>
     (\<forall>s\<in>D - set q. snd ` set (children (h ! s)) \<subseteq> D) \<and>
     (\<forall>s\<in>set q. snd ` set (children (h ! s)) \<inter> D = {}) \<and>
     (\<forall>s<length h. snd ` set (children (h ! s)) \<inter> D \<noteq> {} \<longrightarrow> s \<in> D) \<and>
     sorted (map (length \<circ> lab) q) \<and>
     (\<forall>x\<in>set q. length (lab x) \<le> Suc (length (lab (hd q))))"

lemma children_unique_parent:
  assumes "labels h lab" "s < length h" "s' < length h"
    and "t \<in> snd ` set (children (h ! s))" "t \<in> snd ` set (children (h ! s'))"
  shows "s = s'"
proof -
  from assms(4,5) obtain c c' where "(c, t) \<in> set (children (h ! s))" "(c', t) \<in> set (children (h ! s'))"
    by auto
  then have "lab t = lab s @ [c]" "lab t = lab s' @ [c']"
    using assms(1-3) by (auto dest: labels_childD)
  with assms(1-3) show ?thesis by (auto dest: labels_inj)
qed

lemma children_depth:
  assumes "labels h lab" "s < length h" "t \<in> snd ` set (children (h ! s))"
  shows "t < length h" and "length (lab t) = Suc (length (lab s))"
  using assms by (auto dest: labels_childD)

lemma children_distinct:
  assumes "labels h lab" "s < length h"
  shows "distinct (map snd (children (h ! s)))"
proof -
  have "inj_on snd (set (children (h ! s)))"
  proof (rule inj_onI)
    fix x y assume x: "x \<in> set (children (h ! s))" and y: "y \<in> set (children (h ! s))"
      and eq: "snd x = snd y"
    then have "lab s @ [fst x] = lab s @ [fst y]"
      using labels_childD(2) [OF assms] by (metis prod.collapse)
    with eq show "x = y" by (simp add: prod_eq_iff)
  qed
  moreover have "distinct (children (h ! s))"
    using labels_keys [OF assms] by (simp add: distinct_map)
  ultimately show ?thesis by (simp add: distinct_map)
qed

text \<open>All states that are not deeper than the head of the queue have been enqueued.\<close>

lemma bfs_order_complete:
  assumes ord: "bfs_order lab h q D" and "t < length h"
    and "q = [] \<or> length (lab t) \<le> length (lab (hd q))"
  shows "t \<in> D"
  using assms(2,3)
proof (induction "length (lab t)" arbitrary: t rule: less_induct)
  case less
  from ord have lab: "labels h lab" by (simp add: bfs_order_def)
  show ?case
  proof (cases "t = root")
    case True
    with ord show ?thesis by (simp add: bfs_order_def)
  next
    case False
    with lab less.prems obtain s c where
      s: "s < length h" "(c, t) \<in> set (children (h ! s))" "lab t = lab s @ [c]"
      by (auto elim: labels_parentE)
    then have "s \<in> D" using less by auto
    moreover have "s \<notin> set q"
    proof
      assume "s \<in> set q"
      moreover have "sorted (map (length \<circ> lab) q)" using ord by (simp add: bfs_order_def)
      ultimately have "length (lab (hd q)) \<le> length (lab s)" by (cases q) auto
      moreover have "length (lab s) < length (lab t)" using s(3) by simp
      ultimately show False using less.prems(2) \<open>s \<in> set q\<close> by (cases q) auto
    qed
    ultimately have "snd ` set (children (h ! s)) \<subseteq> D" using ord by (simp add: bfs_order_def)
    with s(2) show ?thesis by force
  qed
qed

lemma bfs_order_pop:
  assumes ord: "bfs_order lab h (n # q) D"
  shows "bfs_order lab h (q @ map snd (children (h ! n))) (D \<union> snd ` set (children (h ! n)))"
proof -
  let ?C = "snd ` set (children (h ! n))"
  note o = ord [unfolded bfs_order_def]
  have lab: "labels h lab" and D: "D \<subseteq> {..<length h}" and rt: "root \<in> D"
    and dq: "distinct (n # q)" and nqD: "set (n # q) \<subseteq> D"
    and srt: "sorted (map (length \<circ> lab) (n # q))"
    using o by simp_all
  have n: "n < length h" "n \<in> D" and sub: "set q \<subseteq> D" using nqD D by auto
  have out: "snd ` set (children (h ! s)) \<subseteq> D" if "s \<in> D" "s \<notin> set (n # q)" for s
    using o that by blast
  have wait: "snd ` set (children (h ! s)) \<inter> D = {}" if "s \<in> set (n # q)" for s
    using o that by blast
  have par: "s \<in> D" if "s < length h" "snd ` set (children (h ! s)) \<inter> D \<noteq> {}" for s
    using o that by blast
  have dep: "length (lab x) \<le> Suc (length (lab n))" if "x \<in> set q" for x
    using o that by simp
  have C: "\<And>t. t \<in> ?C \<Longrightarrow> t < length h \<and> length (lab t) = Suc (length (lab n))"
    using children_depth [OF lab n(1)] by blast
  have CD: "?C \<inter> D = {}" using wait by auto
  have a1: "distinct (q @ map snd (children (h ! n)))"
    using dq children_distinct [OF lab n(1)] CD sub by auto
  have a2: "snd ` set (children (h ! s)) \<subseteq> D \<union> ?C"
    if "s \<in> D \<union> ?C" "s \<notin> set (q @ map snd (children (h ! n)))" for s
    using that out by (cases "s = n") auto
  have a3: "snd ` set (children (h ! s)) \<inter> (D \<union> ?C) = {}"
    if s: "s \<in> set (q @ map snd (children (h ! n)))" for s
  proof (rule ccontr)
    assume "snd ` set (children (h ! s)) \<inter> (D \<union> ?C) \<noteq> {}"
    then obtain u where u: "u \<in> snd ` set (children (h ! s))" "u \<in> D \<or> u \<in> ?C" by auto
    have sl: "s < length h" using s sub D C by auto
    show False
    proof (cases "u \<in> ?C")
      case True
      with u sl lab n have "s = n" by (auto intro: children_unique_parent)
      with s dq CD n show False by auto
    next
      case False
      with u have "s \<in> D" using par sl by blast
      with s CD have "s \<in> set q" by auto
      with wait u False show False by auto
    qed
  qed
  have a4: "s \<in> D \<union> ?C"
    if s: "s < length h" "snd ` set (children (h ! s)) \<inter> (D \<union> ?C) \<noteq> {}" for s
  proof (cases "snd ` set (children (h ! s)) \<inter> D = {}")
    case True
    with s(2) obtain u where "u \<in> snd ` set (children (h ! s))" "u \<in> ?C" by blast
    then have "s = n" using children_unique_parent [OF lab s(1) n(1)] by blast
    with n show ?thesis by simp
  next
    case False
    with par s(1) show ?thesis by blast
  qed
  have a5: "sorted (map (length \<circ> lab) (q @ map snd (children (h ! n))))"
    using srt C dep sorted_constant [of "map (length \<circ> lab \<circ> snd) (children (h ! n))" "Suc (length (lab n))"]
    by (auto simp: sorted_append)
  have a6: "length (lab x) \<le> Suc (length (lab (hd (q @ map snd (children (h ! n))))))"
    if "x \<in> set (q @ map snd (children (h ! n)))" for x
  proof -
    have "length (lab n) \<le> length (lab (hd (q @ map snd (children (h ! n)))))"
    proof (cases q)
      case Nil
      with that have "hd (map snd (children (h ! n))) \<in> ?C" by (cases "children (h ! n)") auto
      with Nil C show ?thesis by simp
    next
      case (Cons x xs)
      with srt show ?thesis by simp
    qed
    moreover have "x \<in> set q \<or> x \<in> ?C" using that by simp
    then have "length (lab x) \<le> Suc (length (lab n))"
      using dep C by force
    ultimately show ?thesis by simp
  qed
  have a7: "set (q @ map snd (children (h ! n))) \<subseteq> D \<union> ?C" and a8: "D \<union> ?C \<subseteq> {..<length h}"
    using sub D C by auto
  show ?thesis
    unfolding bfs_order_def
  proof (intro conjI ballI allI impI)
    fix s assume "s \<in> D \<union> ?C - set (q @ map snd (children (h ! n)))"
    then show "snd ` set (children (h ! s)) \<subseteq> D \<union> ?C" using a2 by blast
  qed (rule lab a1 a7 a8 a5 UnI1 [OF rt] | erule a3 a6 | erule (1) a4)+
qed

lemma bfs_order_start:
  assumes "labels h lab"
  shows "bfs_order lab h [root] {root}"
proof -
  have "root \<notin> snd ` set (children (h ! s))" if "s < length h" for s
    using children_depth(2) [OF assms that] labels_root(2) [OF assms] by fastforce
  then show ?thesis
    using labels_root [OF assms] assms by (auto simp: bfs_order_def)
qed

lemma bfs_order_cong:
  assumes "map children h' = map children h" and "bfs_order lab h q D"
  shows "bfs_order lab h' q D"
proof -
  have len: "length h' = length h"
    using assms(1) by (rule map_eq_imp_length_eq)
  have ch: "children (h' ! s) = children (h ! s)" if "s < length h" for s
    using that assms(1) len by (metis nth_map)
  note o = assms(2) [unfolded bfs_order_def]
  have D: "D \<subseteq> {..<length h}" and q: "set q \<subseteq> D" using o by simp_all
  show ?thesis
    unfolding bfs_order_def len labels_cong [OF assms(1)]
  proof (intro conjI ballI allI impI)
    fix s assume s: "s \<in> D - set q"
    then have "snd ` set (children (h ! s)) \<subseteq> D" using o by blast
    moreover have "s < length h" using D s by blast
    ultimately show "snd ` set (children (h' ! s)) \<subseteq> D" using ch [of s] by simp
  next
    fix s assume s: "s \<in> set q"
    then have "snd ` set (children (h ! s)) \<inter> D = {}" using o by blast
    moreover have "s < length h" using D q s by blast
    ultimately show "snd ` set (children (h' ! s)) \<inter> D = {}" using ch [of s] by simp
  next
    fix s assume s: "s < length h" "snd ` set (children (h' ! s)) \<inter> D \<noteq> {}"
    then have "snd ` set (children (h ! s)) \<inter> D \<noteq> {}" using ch [of s] by simp
    then show "s \<in> D" using o s(1) by blast
  qed (use o in simp_all)
qed

section \<open>The link loop\<close>

lemma nth_children:
  assumes "map children h' = map children h" and "s < length h"
  shows "children (h' ! s) = children (h ! s)"
  using assms map_eq_imp_length_eq [OF assms(1)] by (metis nth_map)

lemma link_inv_shape: "link_inv ms lab h sts \<Longrightarrow> shape_ok ms lab h"
  by (simp add: link_inv_def)

lemma link_inv_sub: "link_inv ms lab h sts \<Longrightarrow> set sts \<subseteq> {..<length h}"
  by (simp add: link_inv_def)

lemma link_inv_length:
  assumes "link_inv ms lab h sts"
  shows "length sts \<le> length h"
proof -
  have "distinct sts" using assms by (simp add: link_inv_def)
  then have "length sts = card (set sts)" by (simp add: distinct_card)
  also have "\<dots> \<le> card {..<length h}"
    using link_inv_sub [OF assms] by (intro card_mono) auto
  finally show ?thesis by simp
qed

lemma link_children_ok:
  assumes "link_inv ms lab (bfs_heap b) (bfs_states b)"
    and "node \<in> set (bfs_states b)" "node \<noteq> root"
    and "\<And>t. t < length (bfs_heap b) \<Longrightarrow> length (lab t) \<le> length (lab node) \<Longrightarrow>
        t \<in> set (bfs_states b)"
    and "set items \<subseteq> set (children (bfs_heap b ! node))" "distinct (map snd items)"
    and "snd ` set items \<inter> set (bfs_states b) = {}" "bfs_processed b \<subseteq> set (bfs_states b)"
  shows "\<exists>b'. link_children node items b = Some b' \<and>
           link_inv ms lab (bfs_heap b') (bfs_states b') \<and>
           bfs_states b' = bfs_states b @ map snd items \<and> bfs_q b' = bfs_q b @ map snd items \<and>
           bfs_processed b' = bfs_processed b \<and>
           map children (bfs_heap b') = map children (bfs_heap b)"
  using assms
proof (induction items arbitrary: b)
  case (Cons item items)
  obtain c t where item: "item = (c, t)" by fastforce
  have mem: "(c, t) \<in> set (children (bfs_heap b ! node))"
    and t: "t \<notin> set (bfs_states b)" "t \<notin> bfs_processed b"
    using Cons.prems(5,7,8) item by auto
  from link_child_ok [OF Cons.prems(1-4) mem t] obtain b1 where
    b1: "link_child node item b = Some b1" "link_inv ms lab (bfs_heap b1) (bfs_states b1)"
      "bfs_states b1 = bfs_states b @ [t]" "bfs_q b1 = bfs_q b @ [t]"
      "bfs_processed b1 = bfs_processed b"
      "map children (bfs_heap b1) = map children (bfs_heap b)"
    using item by blast
  have len: "length (bfs_heap b1) = length (bfs_heap b)"
    using b1(6) by (rule map_eq_imp_length_eq)
  have "node < length (bfs_heap b)"
    using link_inv_sub [OF Cons.prems(1)] Cons.prems(2) by blast
  then have ch: "children (bfs_heap b1 ! node) = children (bfs_heap b ! node)"
    by (rule nth_children [OF b1(6)])
  have "\<exists>b'. link_children node items b1 = Some b' \<and>
           link_inv ms lab (bfs_heap b') (bfs_states b') \<and>
           bfs_states b' = bfs_states b1 @ map snd items \<and> bfs_q b' = bfs_q b1 @ map snd items \<and>
           bfs_processed b' = bfs_processed b1 \<and>
           map children (bfs_heap b') = map children (bfs_heap b1)"
  proof (rule Cons.IH [OF b1(2) _ Cons.prems(3)])
    show "node \<in> set (bfs_states b1)" using Cons.prems(2) b1(3) by simp
    show "u \<in> set (bfs_states b1)"
      if "u < length (bfs_heap b1)" "length (lab u) \<le> length (lab node)" for u
      using Cons.prems(4) [of u] that len b1(3) by simp
    show "set items \<subseteq> set (children (bfs_heap b1 ! node))" using Cons.prems(5) ch by simp
    show "distinct (map snd items)" using Cons.prems(6) by simp
    show "snd ` set items \<inter> set (bfs_states b1) = {}"
      using Cons.prems(6,7) b1(3) item by auto
    show "bfs_processed b1 \<subseteq> set (bfs_states b1)" using Cons.prems(8) b1(3,5) by auto
  qed
  with b1 item show ?case by auto
qed simp

lemma link_loop_ok:
  assumes "link_inv ms lab (bfs_heap b) (bfs_states b)"
    and "bfs_order lab (bfs_heap b) (bfs_q b) (set (bfs_states b))"
    and "bfs_processed b \<subseteq> set (bfs_states b)" "root \<notin> set (bfs_q b)"
  shows "\<exists>b'. link_loop b = Some b' \<and> link_inv ms lab (bfs_heap b') (bfs_states b') \<and>
           set (bfs_states b') = {..<length (bfs_heap b')} \<and>
           map children (bfs_heap b') = map children (bfs_heap b) \<and>
           (\<exists>xs. bfs_states b' = bfs_states b @ xs)"
  using assms
proof (induction "length (bfs_heap b) + length (bfs_q b) - length (bfs_states b)"
    arbitrary: b rule: less_induct)
  case less
  show ?case
  proof (cases "bfs_q b")
    case Nil
    then have "link_loop b = Some b" by (subst link_loop.simps) simp
    moreover have "set (bfs_states b) = {..<length (bfs_heap b)}"
      using link_inv_sub [OF less.prems(1)] bfs_order_complete [OF less.prems(2)] Nil by blast
    ultimately show ?thesis using less.prems(1) by auto
  next
    case (Cons node q)
    let ?h = "bfs_heap b"
    let ?b0 = "b\<lparr>bfs_q := q, bfs_processed := insert node (bfs_processed b)\<rparr>"
    let ?items = "children (?h ! node)"
    note ord = less.prems(2) [unfolded Cons]
    have lab: "labels ?h lab" and node: "node \<in> set (bfs_states b)"
      using ord by (simp_all add: bfs_order_def)
    have nl: "node < length ?h" using link_inv_sub [OF less.prems(1)] node by blast
    have new: "snd ` set ?items \<inter> set (bfs_states b) = {}"
      using ord by (simp add: bfs_order_def)
    have deep: "t \<in> set (bfs_states b)"
      if "t < length ?h" "length (lab t) \<le> length (lab node)" for t
      using bfs_order_complete [OF ord, of t] that by simp
    have "\<exists>b'. link_children node ?items ?b0 = Some b' \<and>
           link_inv ms lab (bfs_heap b') (bfs_states b') \<and>
           bfs_states b' = bfs_states ?b0 @ map snd ?items \<and>
           bfs_q b' = bfs_q ?b0 @ map snd ?items \<and>
           bfs_processed b' = bfs_processed ?b0 \<and>
           map children (bfs_heap b') = map children (bfs_heap ?b0)"
    proof (rule link_children_ok)
      show "node \<noteq> root" using less.prems(4) Cons by auto
    qed (use less.prems(1,3) node deep new children_distinct [OF lab nl] in simp_all)
    then obtain b1 where
      b1: "link_children node ?items ?b0 = Some b1"
        "link_inv ms lab (bfs_heap b1) (bfs_states b1)"
        "bfs_states b1 = bfs_states b @ map snd ?items" "bfs_q b1 = q @ map snd ?items"
        "bfs_processed b1 = insert node (bfs_processed b)"
        "map children (bfs_heap b1) = map children ?h"
      by auto
    have len: "length (bfs_heap b1) = length ?h"
      using b1(6) by (rule map_eq_imp_length_eq)
    have ord1: "bfs_order lab (bfs_heap b1) (bfs_q b1) (set (bfs_states b1))"
      using bfs_order_cong [OF b1(6) bfs_order_pop [OF ord]] b1(3,4) by simp
    have proc1: "bfs_processed b1 \<subseteq> set (bfs_states b1)"
      using less.prems(3) node b1(3,5) by auto
    have "root \<in> set (bfs_states b)" using ord by (simp add: bfs_order_def)
    then have root1: "root \<notin> set (bfs_q b1)"
      using new less.prems(4) Cons b1(4) by auto
    have "length (bfs_heap b1) + length (bfs_q b1) - length (bfs_states b1) <
        length ?h + length (bfs_q b) - length (bfs_states b)"
      using link_inv_length [OF less.prems(1)] b1(3,4) Cons len by simp
    from less.hyps [OF this b1(2) ord1 proc1 root1]
    have "\<exists>b'. link_loop b1 = Some b' \<and> link_inv ms lab (bfs_heap b') (bfs_states b') \<and>
           set (bfs_states b') = {..<length (bfs_heap b')} \<and>
           map children (bfs_heap b') = map children (bfs_heap b1) \<and>
           (\<exists>xs. bfs_states b' = bfs_states b1 @ xs)" .
    moreover have "link_loop b = link_loop b1"
      using Cons b1(1) by (subst link_loop.simps) simp
    ultimately show ?thesis using b1(3,6) by auto
  qed
qed

text \<open>The state of the search before the first loop.\<close>

lemma init_children_ok:
  assumes "link_inv ms lab (bfs_heap b) (bfs_states b)"
    and "set items \<subseteq> set (children (bfs_heap b ! root))" "distinct (map snd items)"
    and "snd ` set items \<inter> set (bfs_states b) = {}"
  shows "link_inv ms lab (bfs_heap (fold init_child items b)) (bfs_states (fold init_child items b)) \<and>
     bfs_states (fold init_child items b) = bfs_states b @ map snd items \<and>
     bfs_q (fold init_child items b) = bfs_q b @ map snd items \<and>
     bfs_processed (fold init_child items b) = bfs_processed b \<union> snd ` set items \<and>
     map children (bfs_heap (fold init_child items b)) = map children (bfs_heap b)"
  using assms
proof (induction items arbitrary: b)
  case (Cons item items)
  let ?h = "bfs_heap b"
  obtain c t where item: "item = (c, t)" by fastforce
  have lab: "labels ?h lab" using Cons.prems(1) by (simp add: link_inv_def shape_ok_def)
  have mem: "(c, t) \<in> set (children (?h ! root))" using Cons.prems(2) item by simp
  have t: "t < length ?h" "lab t = [c]" "t \<notin> set (bfs_states b)"
    using labels_childD [OF lab labels_root(1) [OF lab] mem] labels_root(2) [OF lab]
      Cons.prems(4) item by auto
  let ?x = "(?h ! t)\<lparr>index := Some (length (bfs_states b)), lss := Some root\<rparr>"
  have own: "match (?h ! t) = own ms (lab t)"
    using Cons.prems(1) t by (simp add: link_inv_def)
  have inv: "link_inv ms lab (?h[t := ?x]) (bfs_states b @ [t])"
    by (rule link_inv_snoc [OF Cons.prems(1) t(1,3) _ _ _ _ labels_root(1) [OF lab]])
      (use own t labels_root(2) [OF lab] in \<open>simp_all add: out_at_short\<close>)
  have ch: "map children (?h[t := ?x]) = map children ?h"
    by (rule map_children_update) simp
  define b1 where "b1 = init_child (c, t) b"
  have b1: "bfs_heap b1 = ?h[t := ?x]" "bfs_states b1 = bfs_states b @ [t]"
      "bfs_q b1 = bfs_q b @ [t]" "bfs_processed b1 = insert t (bfs_processed b)"
    by (simp_all add: b1_def init_child_def)
  have "children (bfs_heap b1 ! root) = children (?h ! root)"
    using nth_children [OF ch labels_root(1) [OF lab]] b1(1) by simp
  then have "set items \<subseteq> set (children (bfs_heap b1 ! root))" using Cons.prems(2) by simp
  moreover have "snd ` set items \<inter> set (bfs_states b1) = {}"
    using Cons.prems(3,4) b1(2) item by auto
  ultimately show ?case
    using Cons.IH [of b1] inv b1 Cons.prems(3) ch item by (auto simp: b1_def [symmetric])
qed simp

lemma init_bfs_ok:
  assumes ok: "trie_ok h lab (Collect (is_path ms)) (own ms)"
  shows "link_inv ms lab (bfs_heap (init_bfs h)) (bfs_states (init_bfs h)) \<and>
     bfs_order lab (bfs_heap (init_bfs h)) (bfs_q (init_bfs h)) (set (bfs_states (init_bfs h))) \<and>
     bfs_processed (init_bfs h) \<subseteq> set (bfs_states (init_bfs h)) \<and>
     root \<notin> set (bfs_q (init_bfs h)) \<and>
     map children (bfs_heap (init_bfs h)) = map children h \<and>
     (\<exists>xs. bfs_states (init_bfs h) = root # xs)"
proof -
  define h0 where "h0 = h[root := (h ! root)\<lparr>index := Some 0, lss := Some root\<rparr>]"
  define items where "items = children (h0 ! root)"
  define b0 where "b0 = \<lparr>bfs_heap = h0, bfs_states = [root], bfs_q = [], bfs_processed = {root}\<rparr>"
  have b0: "bfs_heap b0 = h0" "bfs_states b0 = [root]" "bfs_q b0 = []" "bfs_processed b0 = {root}"
    by (simp_all add: b0_def)
  have shape: "shape_ok ms lab h" using ok by (simp add: trie_ok_def shape_ok_def)
  then have lab: "labels h lab" by (simp add: shape_ok_def)
  have ch: "map children h0 = map children h"
    unfolding h0_def by (rule map_children_update) simp
  have lab0: "labels h0 lab" using lab by (subst labels_cong [OF ch])
  have shape0: "shape_ok ms lab h0" using shape by (subst shape_ok_cong [OF ch])
  have "lss_ok ms lab h0 root"
    using labels_root [OF lab] by (simp add: lss_ok_def h0_def)
  moreover have "match (h ! s) = own ms (lab s)" if "s < length h" for s
    using ok that by (simp add: trie_ok_def)
  ultimately have inv0: "link_inv ms lab (bfs_heap b0) (bfs_states b0)"
    using shape0 labels_root [OF lab] labels_root(2) [OF lab, symmetric]
    by (simp add: link_inv_def out_at_short b0 h0_def)
  have fresh: "snd ` set items \<inter> {root} = {}"
    using bfs_order_start [OF lab0] unfolding bfs_order_def items_def by (metis list.set_intros(1))
  have ord: "bfs_order lab h0 (map snd items) ({root} \<union> snd ` set items)"
    using bfs_order_pop [OF bfs_order_start [OF lab0]] by (simp add: items_def)
  have init: "init_bfs h = fold init_child items b0"
    by (simp add: init_bfs_def Let_def items_def h0_def b0_def)
  have sub: "set items \<subseteq> set (children (bfs_heap b0 ! root))" by (simp add: items_def b0)
  have dist: "distinct (map snd items)"
    using children_distinct [OF lab0 labels_root(1) [OF lab0]] by (simp add: items_def)
  have fresh': "snd ` set items \<inter> set (bfs_states b0) = {}" using fresh by (simp add: b0)
  note res = init_children_ok [OF inv0 sub dist fresh', folded init, unfolded b0]
  have "bfs_order lab (bfs_heap (init_bfs h)) (bfs_q (init_bfs h)) (set (bfs_states (init_bfs h)))"
    using bfs_order_cong [OF _ ord, of "bfs_heap (init_bfs h)"] res by simp
  with res ch fresh show ?thesis by auto
qed

end
