(* ===== verification/SME_AC_Table.thy ===== *)
theory SME_AC_Table
  imports SME_AC_Finalize
begin

text \<open>
  The second loop of \<open>finalize\<close>, which tabulates the goto function in \<open>next_index\<close>, and
  the specification of a finalized machine.
\<close>

section \<open>Writing the table leaves the links alone\<close>

definition core :: "('c, 'v) ac_state \<Rightarrow> ('c, 'v) ac_state" where
  "core x = x\<lparr>next_index := None\<rparr>"

lemma core_fields:
  assumes "core x = core y"
  shows "children x = children y" "match x = match y" "lss x = lss y" "index x = index y"
  using assms by (cases x; cases y; simp add: core_def)+

lemma core_update [simp]: "core (x\<lparr>next_index := t\<rparr>) = core x"
  by (simp add: core_def)

lemma map_core_update: "core x = core (h ! s) \<Longrightarrow> map core (h[s := x]) = map core h"
  by (simp add: map_update) (metis list_update_id map_update)

lemma map_core_nth:
  assumes "map core h' = map core h" "s < length h"
  shows "core (h' ! s) = core (h ! s)"
  using assms map_eq_imp_length_eq [OF assms(1)] by (metis nth_map)

lemma map_core_children:
  assumes "map core h' = map core h"
  shows "map children h' = map children h"
proof (rule nth_equalityI)
  show len: "length (map children h') = length (map children h)"
    using map_eq_imp_length_eq [OF assms] by simp
  show "map children h' ! i = map children h ! i" if "i < length (map children h')" for i
    using core_fields(1) [OF map_core_nth [OF assms, of i]] that len by simp
qed

section \<open>The table of one state\<close>

definition tab_ok ::
  "('c, 'v) ac_match list \<Rightarrow> (nat \<Rightarrow> 'c list) \<Rightarrow> ('c, 'v) ac_heap \<Rightarrow> nat \<Rightarrow>
   ('c \<times> nat option) list \<Rightarrow> bool" where
  "tab_ok ms lab h s tab \<longleftrightarrow>
     (\<forall>c. case map_of tab c of
            None \<Rightarrow> goto ms (lab s @ [c]) = []
          | Some io \<Rightarrow> \<exists>t<length h. t \<noteq> root \<and> lab t = goto ms (lab s @ [c]) \<and> io = index (h ! t))"

text \<open>The entries are complete for the states of the failure chain down to \<open>s\<close>.\<close>

definition tab_upto ::
  "('c, 'v) ac_match list \<Rightarrow> (nat \<Rightarrow> 'c list) \<Rightarrow> ('c, 'v) ac_heap \<Rightarrow> nat \<Rightarrow> nat \<Rightarrow>
   ('c \<times> nat option) list \<Rightarrow> bool" where
  "tab_upto ms lab h node s tab \<longleftrightarrow>
     (\<forall>c. case map_of tab c of
            None \<Rightarrow> goto ms (lab node @ [c]) = goto ms (lab s @ [c]) \<and> \<not> is_path ms (lab s @ [c])
          | Some io \<Rightarrow> \<exists>t<length h. t \<noteq> root \<and> lab t = goto ms (lab node @ [c]) \<and> io = index (h ! t))"

lemma map_of_add_missing_item:
  "map_of (add_missing h (a, b) tab) c =
     (case map_of tab c of Some x \<Rightarrow> Some x | None \<Rightarrow> if c = a then Some (index (h ! b)) else None)"
  by (cases "map_of tab a") (auto simp: add_missing_def map_add_def split: option.splits)

lemma map_of_add_missing:
  "map_of (fold (add_missing h) cs tab) c =
     (case map_of tab c of
        Some x \<Rightarrow> Some x
      | None \<Rightarrow> map_option (\<lambda>t. index (h ! t)) (map_of cs c))"
  by (induction cs arbitrary: tab)
    (auto simp: map_of_add_missing_item split: option.splits)

lemma add_missing_upto:
  assumes shape: "shape_ok ms lab h" and s: "s < length h" "s \<noteq> root"
    and l: "l < length h" "lab l = goto ms (tl (lab s))"
    and upto: "tab_upto ms lab h node s tab"
  shows "tab_upto ms lab h node l (fold (add_missing h) (children (h ! l)) tab)"
  unfolding tab_upto_def
proof
  fix c
  from shape have lab: "labels h lab" by (simp add: shape_ok_def)
  have ne: "lab s \<noteq> []" using labels_root_iff [OF lab s(1)] s(2) by simp
  let ?tab = "fold (add_missing h) (children (h ! l)) tab"
  show "case map_of ?tab c of
      None \<Rightarrow> goto ms (lab node @ [c]) = goto ms (lab l @ [c]) \<and> \<not> is_path ms (lab l @ [c])
    | Some io \<Rightarrow> \<exists>t<length h. t \<noteq> root \<and> lab t = goto ms (lab node @ [c]) \<and> io = index (h ! t)"
  proof (cases "map_of tab c")
    case (Some x)
    then show ?thesis
      using upto [unfolded tab_upto_def, rule_format, of c] by (simp add: map_of_add_missing)
  next
    case None
    then have gs: "goto ms (lab node @ [c]) = goto ms (lab s @ [c])" "\<not> is_path ms (lab s @ [c])"
      using upto [unfolded tab_upto_def, rule_format, of c] by simp_all
    have g: "goto ms (lab node @ [c]) = goto ms (lab l @ [c])"
      using gs paths.longest_suffix_fail [OF ne gs(2)] l(2) by simp
    show ?thesis
    proof (cases "child_of h l c")
      case None
      then show ?thesis
        using g shape_child_None [OF shape l(1), of c] \<open>map_of tab c = None\<close>
        by (simp add: map_of_add_missing)
    next
      case (Some t)
      have t: "t < length h" "lab t = lab l @ [c]"
        using labels_child_iff [OF lab l(1), of c t] Some by auto
      have "is_path ms (lab l @ [c])"
        using shape_child_None [OF shape l(1), of c] Some by simp
      then have "goto ms (lab node @ [c]) = lab t" using g t(2) by simp
      moreover have "t \<noteq> root" using labels_root(2) [OF lab] t(2) by auto
      ultimately show ?thesis
        using Some \<open>map_of tab c = None\<close> t(1) by (auto simp: map_of_add_missing)
    qed
  qed
qed

lemma add_suffixes_ok:
  assumes shape: "shape_ok ms lab h" and s: "s < length h"
    and links: "\<And>t. t < length h \<Longrightarrow> lss_ok ms lab h t"
    and upto: "tab_upto ms lab h node s tab"
  shows "\<exists>tab'. add_suffixes h s tab = Some tab' \<and> tab_ok ms lab h node tab'"
  using s upto
proof (induction "length (lab s)" arbitrary: s tab rule: less_induct)
  case less
  from shape have lab: "labels h lab" by (simp add: shape_ok_def)
  show ?case
  proof (cases "s = root")
    case True
    have "add_suffixes h s tab = Some tab" using True by (subst add_suffixes.simps) simp
    moreover have "tab_ok ms lab h node tab"
      unfolding tab_ok_def
    proof
      fix c
      show "case map_of tab c of
          None \<Rightarrow> goto ms (lab node @ [c]) = []
        | Some io \<Rightarrow> \<exists>t<length h. t \<noteq> root \<and> lab t = goto ms (lab node @ [c]) \<and> io = index (h ! t)"
        using less.prems(2) [unfolded tab_upto_def, rule_format, of c] True labels_root(2) [OF lab]
        by (cases "map_of tab c") simp_all
    qed
    ultimately show ?thesis by blast
  next
    case False
    from links [OF less.prems(1)] obtain l where
      l: "l < length h" "lss (h ! s) = Some l" "lab l = goto ms (tl (lab s))"
      by (auto simp: lss_ok_def)
    have "lab s \<noteq> []" using labels_root_iff [OF lab less.prems(1)] False by simp
    then have "length (lab l) < length (lab s)"
      using l(3) longest_suffix_length [of "is_path ms" "tl (lab s)"] by (cases "lab s") auto
    from less.hyps [OF this l(1) add_missing_upto [OF shape less.prems(1) False l(1,3) less.prems(2)]]
    show ?thesis
      using l(2) False by (subst add_suffixes.simps) simp
  qed
qed

section \<open>The fill loop\<close>

lemma AList_update_fresh: "k \<notin> fst ` set ps \<Longrightarrow> AList.update k v ps = ps @ [(k, v)]"
  by (induction ps) auto

abbreviation child_entries :: "('c, 'v) ac_heap \<Rightarrow> ('c \<times> nat) list \<Rightarrow> ('c \<times> nat option) list" where
  "child_entries h items \<equiv> map (\<lambda>(c, t). (c, index (h ! t))) items"

lemma enter_children:
  assumes "node < length (bfs_heap b)" "next_index (bfs_heap b ! node) = Some tab"
    and "distinct (map fst items)" "fst ` set items \<inter> fst ` set tab = {}"
    and "snd ` set items \<inter> bfs_processed b = {}"
  shows "fold (enter_child node) items b =
     b\<lparr>bfs_q := bfs_q b @ map snd items,
       bfs_heap := (bfs_heap b)[node :=
         (bfs_heap b ! node)\<lparr>next_index := Some (tab @ child_entries (bfs_heap b) items)\<rparr>]\<rparr>"
  using assms
proof (induction items arbitrary: b tab)
  case Nil
  then have "(bfs_heap b ! node)\<lparr>next_index := Some tab\<rparr> = bfs_heap b ! node" by simp
  then show ?case by simp
next
  case (Cons item items)
  let ?h = "bfs_heap b"
  obtain c t where item: "item = (c, t)" by fastforce
  define b1 where "b1 = enter_child node (c, t) b"
  have fresh: "c \<notin> fst ` set tab" using Cons.prems(4) item by auto
  have b1: "b1 = b\<lparr>bfs_q := bfs_q b @ [t], bfs_heap := ?h[node :=
      (?h ! node)\<lparr>next_index := Some (tab @ [(c, index (?h ! t))])\<rparr>]\<rparr>"
    using Cons.prems(2,5) item fresh
    by (simp add: b1_def enter_child_def Let_def AList_update_fresh)
  have idx: "index (bfs_heap b1 ! u) = index (?h ! u)" for u
    using Cons.prems(1) by (cases "u = node") (simp_all add: b1)
  have "fold (enter_child node) items b1 =
     b1\<lparr>bfs_q := bfs_q b1 @ map snd items,
       bfs_heap := (bfs_heap b1)[node :=
         (bfs_heap b1 ! node)\<lparr>next_index :=
            Some ((tab @ [(c, index (?h ! t))]) @ child_entries (bfs_heap b1) items)\<rparr>]\<rparr>"
    by (rule Cons.IH) (use Cons.prems item fresh in \<open>auto simp: b1\<close>)
  then show ?case
    using Cons.prems(1) by (simp add: item b1_def [symmetric] idx) (simp add: b1)
qed

text \<open>The table of a state before the suffixes are added holds exactly its children.\<close>

lemma map_of_child_entries:
  "map_of (child_entries h items) c = map_option (\<lambda>t. index (h ! t)) (map_of items c)"
  by (induction items) auto

lemma tab_upto_start:
  assumes shape: "shape_ok ms lab h" and n: "n < length h"
  shows "tab_upto ms lab h n n (child_entries h (children (h ! n)))"
  unfolding tab_upto_def
proof
  fix c
  from shape have lab: "labels h lab" by (simp add: shape_ok_def)
  show "case map_of (child_entries h (children (h ! n))) c of
      None \<Rightarrow> goto ms (lab n @ [c]) = goto ms (lab n @ [c]) \<and> \<not> is_path ms (lab n @ [c])
    | Some io \<Rightarrow> \<exists>t<length h. t \<noteq> root \<and> lab t = goto ms (lab n @ [c]) \<and> io = index (h ! t)"
  proof (cases "child_of h n c")
    case None
    then show ?thesis
      using shape_child_None [OF shape n, of c] by (simp add: map_of_child_entries)
  next
    case (Some t)
    have t: "t < length h" "lab t = lab n @ [c]"
      using labels_child_iff [OF lab n, of c t] Some by auto
    have "is_path ms (lab n @ [c])"
      using shape_child_None [OF shape n, of c] Some by simp
    then have "goto ms (lab n @ [c]) = lab t" using t(2) by simp
    moreover have "t \<noteq> root" using labels_root(2) [OF lab] t(2) by auto
    ultimately show ?thesis
      using Some t(1) by (auto simp: map_of_child_entries)
  qed
qed

definition links_done ::
  "('c, 'v) ac_match list \<Rightarrow> (nat \<Rightarrow> 'c list) \<Rightarrow> ('c, 'v) ac_heap \<Rightarrow> bool" where
  "links_done ms lab h \<longleftrightarrow> shape_ok ms lab h \<and> (\<forall>s<length h. lss_ok ms lab h s)"

lemma links_done_cong:
  assumes "map core h' = map core h" "links_done ms lab h"
  shows "links_done ms lab h'"
proof -
  have len: "length h' = length h"
    using assms(1) by (rule map_eq_imp_length_eq)
  have "lss_ok ms lab h' s" if "s < length h'" for s
    using assms(2) core_fields(3) [OF map_core_nth [OF assms(1), of s]] that len
    by (simp add: links_done_def lss_ok_def)
  moreover have "shape_ok ms lab h'"
    using assms(2) by (subst shape_ok_cong [OF map_core_children [OF assms(1)]])
      (simp add: links_done_def)
  ultimately show ?thesis by (simp add: links_done_def)
qed

lemma tab_ok_cong:
  assumes "map core h' = map core h" "tab_ok ms lab h s tab"
  shows "tab_ok ms lab h' s tab"
proof -
  have len: "length h' = length h"
    using assms(1) by (rule map_eq_imp_length_eq)
  have idx: "index (h' ! t) = index (h ! t)" if "t < length h" for t
    using core_fields(4) [OF map_core_nth [OF assms(1) that]] .
  show ?thesis
    unfolding tab_ok_def len
  proof
    fix c
    show "case map_of tab c of
        None \<Rightarrow> goto ms (lab s @ [c]) = []
      | Some io \<Rightarrow> \<exists>t<length h. t \<noteq> root \<and> lab t = goto ms (lab s @ [c]) \<and> io = index (h' ! t)"
      using assms(2) [unfolded tab_ok_def, rule_format, of c] idx
      by (cases "map_of tab c") auto
  qed
qed

definition tables_done ::
  "('c, 'v) ac_match list \<Rightarrow> (nat \<Rightarrow> 'c list) \<Rightarrow> ('c, 'v) ac_heap \<Rightarrow> nat set \<Rightarrow> bool" where
  "tables_done ms lab h A \<longleftrightarrow>
     (\<forall>s\<in>A. \<exists>tab. next_index (h ! s) = Some tab \<and> tab_ok ms lab h s tab)"

lemma fill_step:
  assumes links: "links_done ms lab (bfs_heap b)" and q: "bfs_q b = node # q"
    and node: "node < length (bfs_heap b)"
    and new: "snd ` set (children (bfs_heap b ! node)) \<inter> insert node (bfs_processed b) = {}"
    and tabs: "tables_done ms lab (bfs_heap b) A" and A: "A \<subseteq> {..<length (bfs_heap b)}"
  shows "\<exists>b'. fill_loop b = fill_loop b' \<and> map core (bfs_heap b') = map core (bfs_heap b) \<and>
     bfs_states b' = bfs_states b \<and> bfs_q b' = q @ map snd (children (bfs_heap b ! node)) \<and>
     bfs_processed b' = insert node (bfs_processed b) \<and>
     tables_done ms lab (bfs_heap b') (insert node A)"
proof -
  define h where "h = bfs_heap b"
  define items where "items = children (h ! node)"
  define h0 where "h0 = h[node := (h ! node)\<lparr>next_index := Some []\<rparr>]"
  define b0 where "b0 = b\<lparr>bfs_heap := h0, bfs_q := q, bfs_processed := insert node (bfs_processed b)\<rparr>"
  have n0: "node < length h0" and n: "node < length h" using node by (simp_all add: h0_def h_def)
  have core0: "map core h0 = map core h" unfolding h0_def by (rule map_core_update) simp
  have links0: "links_done ms lab h0" using links_done_cong [OF core0] links by (simp add: h_def)
  then have shape0: "shape_ok ms lab h0" by (simp add: links_done_def)
  have items: "children (h0 ! node) = items" using n by (simp add: h0_def items_def)
  define tab0 where "tab0 = child_entries h0 items"
  define h1 where "h1 = h0[node := (h0 ! node)\<lparr>next_index := Some tab0\<rparr>]"
  define b1 where "b1 = b0\<lparr>bfs_q := q @ map snd items, bfs_heap := h1\<rparr>"
  have "distinct (map fst items)"
    using labels_keys [of h0 lab node] shape0 n0 items by (simp add: shape_ok_def)
  then have b1: "fold (enter_child node) items b0 = b1"
    using enter_children [of node b0 "[]" items] n0 new
    by (simp add: b1_def b0_def h1_def tab0_def h0_def items_def h_def n Int_commute)
  have core1: "map core h1 = map core h0" unfolding h1_def by (rule map_core_update) simp
  have links1: "links_done ms lab h1" by (rule links_done_cong [OF core1 links0])
  then have shape1: "shape_ok ms lab h1" by (simp add: links_done_def)
  have n1: "node < length h1" using n0 by (simp add: h1_def)
  have ch1: "children (h1 ! node) = items" and ni1: "next_index (h1 ! node) = Some tab0"
    using n0 items by (simp_all add: h1_def)
  have "tab0 = child_entries h1 items"
  proof -
    have "index (h0 ! t) = index (h1 ! t)" for t
      using n0 by (cases "t = node") (simp_all add: h1_def)
    then show ?thesis by (simp add: tab0_def)
  qed
  then have "tab_upto ms lab h1 node node tab0"
    using tab_upto_start [OF shape1 n1] ch1 by simp
  from add_suffixes_ok [OF shape1 n1 _ this] links1 obtain tab where
    tab: "add_suffixes h1 node tab0 = Some tab" "tab_ok ms lab h1 node tab"
    by (auto simp: links_done_def)
  define h2 where "h2 = h1[node := (h1 ! node)\<lparr>next_index := Some tab\<rparr>]"
  have core2: "map core h2 = map core h1" unfolding h2_def by (rule map_core_update) simp
  then have core: "map core h2 = map core h" using core0 core1 by simp
  have unfold: "fill_loop b = fill_loop (b1\<lparr>bfs_heap := h2\<rparr>)"
    using q b1 tab(1) items ni1
    by (subst fill_loop.simps) (simp add: Let_def h_def [symmetric] h0_def [symmetric]
        b0_def [symmetric] b1_def [symmetric] h2_def [symmetric], simp add: b1_def h2_def)
  have "tables_done ms lab h2 (insert node A)"
    unfolding tables_done_def
  proof
    fix s assume s: "s \<in> insert node A"
    show "\<exists>tab. next_index (h2 ! s) = Some tab \<and> tab_ok ms lab h2 s tab"
    proof (cases "s = node")
      case True
      then show ?thesis using tab_ok_cong [OF core2 tab(2)] n1 by (simp add: h2_def)
    next
      case False
      then have "s \<in> A" and "h2 ! s = h ! s" using s by (simp_all add: h2_def h1_def h0_def)
      then show ?thesis using tabs tab_ok_cong [OF core] by (auto simp: tables_done_def h_def)
    qed
  qed
  with unfold core show ?thesis
    by (intro exI [of _ "b1\<lparr>bfs_heap := h2\<rparr>"]) (simp add: b1_def b0_def h_def items_def)
qed

lemma bfs_order_sub: "bfs_order lab h q D \<Longrightarrow> D \<subseteq> {..<length h}"
  by (simp add: bfs_order_def)

lemma bfs_order_wait: "bfs_order lab h (n # q) D \<Longrightarrow> snd ` set (children (h ! n)) \<inter> D = {}"
  by (simp add: bfs_order_def)

lemma fill_loop_ok:
  assumes "links_done ms lab (bfs_heap b)"
    and "bfs_order lab (bfs_heap b) (bfs_q b) (bfs_processed b \<union> set (bfs_q b))"
    and "bfs_processed b \<inter> set (bfs_q b) = {}"
    and "tables_done ms lab (bfs_heap b) (bfs_processed b)"
  shows "\<exists>b'. fill_loop b = Some b' \<and> map core (bfs_heap b') = map core (bfs_heap b) \<and>
           bfs_states b' = bfs_states b \<and>
           tables_done ms lab (bfs_heap b') {..<length (bfs_heap b')}"
  using assms
proof (induction "length (bfs_heap b) + length (bfs_q b) - card (bfs_processed b \<union> set (bfs_q b))"
    arbitrary: b rule: less_induct)
  case less
  let ?h = "bfs_heap b" let ?D = "bfs_processed b \<union> set (bfs_q b)"
  have D: "?D \<subseteq> {..<length ?h}" by (rule bfs_order_sub [OF less.prems(2)])
  show ?case
  proof (cases "bfs_q b")
    case Nil
    then have "fill_loop b = Some b" by (subst fill_loop.simps) simp
    moreover have "bfs_processed b = {..<length ?h}"
      using D bfs_order_complete [OF less.prems(2)] Nil by auto
    ultimately show ?thesis using less.prems(4) by auto
  next
    case (Cons node q)
    let ?items = "children (?h ! node)"
    note ord = less.prems(2) [unfolded Cons]
    have fresh: "snd ` set ?items \<inter> ?D = {}"
      using bfs_order_wait [OF ord] Cons by simp
    have nodeD: "node \<in> ?D" and node: "node < length ?h" using Cons D by auto
    have proc: "bfs_processed b \<subseteq> {..<length ?h}" using D by blast
    have "snd ` set ?items \<inter> insert node (bfs_processed b) = {}" using fresh nodeD by auto
    from fill_step [OF less.prems(1) Cons node this less.prems(4) proc] obtain b1 where
      b1: "fill_loop b = fill_loop b1" "map core (bfs_heap b1) = map core ?h"
        "bfs_states b1 = bfs_states b" "bfs_q b1 = q @ map snd ?items"
        "bfs_processed b1 = insert node (bfs_processed b)"
        "tables_done ms lab (bfs_heap b1) (insert node (bfs_processed b))"
      by blast
    have len: "length (bfs_heap b1) = length ?h"
      using b1(2) by (rule map_eq_imp_length_eq)
    have D1: "bfs_processed b1 \<union> set (bfs_q b1) = ?D \<union> snd ` set ?items"
      using b1(4,5) Cons by auto
    have ord1: "bfs_order lab (bfs_heap b1) (bfs_q b1) (bfs_processed b1 \<union> set (bfs_q b1))"
      using bfs_order_cong [OF map_core_children [OF b1(2)] bfs_order_pop [OF ord]]
      by (simp only: D1) (simp only: b1(4) Cons)
    have lab: "labels ?h lab" using ord by (simp add: bfs_order_def)
    have "distinct (node # q)" using ord by (simp add: bfs_order_def)
    then have disj: "bfs_processed b1 \<inter> set (bfs_q b1) = {}"
      using less.prems(3) fresh nodeD b1(4,5) Cons by auto
    have "card (?D \<union> snd ` set ?items) = card ?D + length ?items"
      using fresh children_distinct [OF lab node]
        finite_subset [OF proc] distinct_card [of "map snd ?items"]
      by (subst card_Un_disjoint) auto
    moreover have "card ?D \<le> length ?h"
      using card_mono [OF _ D] by simp
    ultimately have "length (bfs_heap b1) + length (bfs_q b1) - card (bfs_processed b1 \<union> set (bfs_q b1)) <
        length ?h + length (bfs_q b) - card ?D"
      unfolding D1 using b1(4) Cons len by simp
    from less.hyps [OF this links_done_cong [OF b1(2) less.prems(1)] ord1 disj] b1
    show ?thesis by auto
  qed
qed

section \<open>Finalized machines\<close>

definition final_ok :: "(nat \<Rightarrow> 'c list) \<Rightarrow> ('c, 'v) ac_machine \<Rightarrow> bool" where
  "final_ok lab m \<longleftrightarrow>
     finalized m \<and> map fst (matches m) = [0..<length (matches m)] \<and>
     links_done (matches m) lab (heap m) \<and>
     (\<forall>s<length (heap m). match (heap m ! s) = out_at (matches m) (lab s)) \<and>
     distinct (states m) \<and> set (states m) = {..<length (heap m)} \<and>
     (\<forall>i<length (states m). index (heap m ! (states m ! i)) = Some i) \<and>
     tables_done (matches m) lab (heap m) {..<length (heap m)}"

lemma finalize_ok:
  assumes "machine_ok m"
  shows "\<exists>m' lab. finalize m = Some m' \<and> final_ok lab m' \<and> matches m' = matches m \<and>
           states m' ! 0 = root \<and> length (heap m') = length (heap m)"
proof -
  let ?ms = "matches m"
  from assms obtain lab where
    ok: "trie_ok (heap m) lab (Collect (is_path ?ms)) (own ?ms)" and nf: "\<not> finalized m"
    and num: "map fst ?ms = [0..<length ?ms]"
    by (auto simp: machine_ok_def)
  note init = init_bfs_ok [OF ok]
  from link_loop_ok [of ?ms lab "init_bfs (heap m)"] init obtain b1 where
    b1: "link_loop (init_bfs (heap m)) = Some b1" "link_inv ?ms lab (bfs_heap b1) (bfs_states b1)"
      "set (bfs_states b1) = {..<length (bfs_heap b1)}"
      "map children (bfs_heap b1) = map children (bfs_heap (init_bfs (heap m)))"
      "\<exists>xs. bfs_states b1 = bfs_states (init_bfs (heap m)) @ xs"
    by blast
  define b2 where "b2 = \<lparr>bfs_heap = bfs_heap b1, bfs_states = bfs_states b1, bfs_q = [root],
      bfs_processed = {}\<rparr>"
  have links: "links_done ?ms lab (bfs_heap b2)"
    using b1(2,3) by (simp add: b2_def links_done_def link_inv_def)
  then have lab: "labels (bfs_heap b1) lab" by (simp add: b2_def links_done_def shape_ok_def)
  from fill_loop_ok [OF links] bfs_order_start [OF lab] obtain b3 where
    b3: "fill_loop b2 = Some b3" "map core (bfs_heap b3) = map core (bfs_heap b2)"
      "bfs_states b3 = bfs_states b2" "tables_done ?ms lab (bfs_heap b3) {..<length (bfs_heap b3)}"
    by (auto simp: b2_def tables_done_def)
  have len: "length (bfs_heap b3) = length (bfs_heap b1)"
    using map_eq_imp_length_eq [OF b3(2)] by (simp add: b2_def)
  have same: "core (bfs_heap b3 ! s) = core (bfs_heap b1 ! s)" if "s < length (bfs_heap b1)" for s
    using map_core_nth [OF b3(2), of s] that by (simp add: b2_def)
  let ?m = "m\<lparr>heap := bfs_heap b3, states := bfs_states b3, finalized := True\<rparr>"
  have fin: "finalize m = Some ?m"
    using nf b1(1) b3(1) by (simp add: finalize_def b2_def)
  have "final_ok lab ?m"
  proof -
    have "links_done ?ms lab (bfs_heap b3)" by (rule links_done_cong [OF b3(2) links])
    moreover have "match (bfs_heap b3 ! s) = out_at ?ms (lab s)" if "s < length (bfs_heap b3)" for s
    proof -
      have "s \<in> set (bfs_states b1)" using that len b1(3) by simp
      then have "match (bfs_heap b1 ! s) = out_at ?ms (lab s)"
        using b1(2) by (simp add: link_inv_def)
      then show ?thesis using core_fields(2) [OF same [of s]] that len by simp
    qed
    moreover have "index (bfs_heap b3 ! (bfs_states b3 ! i)) = Some i"
      if i: "i < length (bfs_states b3)" for i
    proof -
      have "bfs_states b1 ! i \<in> set (bfs_states b1)" using i b3(3) by (simp add: b2_def)
      then have "bfs_states b1 ! i < length (bfs_heap b1)" using b1(3) by simp
      then have "index (bfs_heap b3 ! (bfs_states b1 ! i)) = index (bfs_heap b1 ! (bfs_states b1 ! i))"
        using core_fields(4) [OF same] by simp
      then show ?thesis using i b1(2) b3(3) by (simp add: b2_def link_inv_def)
    qed
    moreover have "distinct (bfs_states b1)" using b1(2) by (simp add: link_inv_def)
    ultimately show ?thesis
      using num b1(3) b3(3,4) len by (simp add: final_ok_def b2_def)
  qed
  moreover have "states ?m ! 0 = root"
    using b1(5) init b3(3) by (auto simp: b2_def)
  moreover have "length (heap ?m) = length (heap m)"
    using len map_eq_imp_length_eq [OF b1(4)] init by (auto dest: map_eq_imp_length_eq)
  ultimately show ?thesis using fin by auto
qed

end
