(* ===== verification/SME_AC_Query.thy ===== *)
theory SME_AC_Query
  imports SME_AC_Table
begin

text \<open>
  Queries on a finalized Aho-Corasick machine: stepping over the characters of a text
  reports the occurrences a naive search finds, and the table \<open>next_index\<close>, from which
  the Verilog state machine is generated, runs through the same states.
\<close>

section \<open>The reference search\<close>

text \<open>All matches whose word is the slice of the text from \<open>j\<close> to \<open>i\<close>, end position first.\<close>

definition occurrences ::
  "('c, 'v) ac_match list \<Rightarrow> 'c list \<Rightarrow> (int \<times> ('c, 'v) ac_match) list" where
  "occurrences ms s =
     concat (map (\<lambda>i. concat (map (\<lambda>j. map (\<lambda>m. (int j, m))
       (filter (\<lambda>m. fst (snd m) = drop j (take (Suc i) s)) ms)) [0..<Suc i])) [0..<length s])"

text \<open>The matches that end with the last character read.\<close>

definition ending ::
  "('c, 'v) ac_match list \<Rightarrow> 'c list \<Rightarrow> ('c, 'v) ac_match list" where
  "ending ms u = concat (map (own ms) (tails u))"

lemma set_ending:
  "set (ending ms u) = {m \<in> set ms. fst (snd m) \<noteq> [] \<and> suffix (fst (snd m)) u}"
proof -
  have "set (tails u) = {w. w \<noteq> [] \<and> suffix w u}"
    by (induction u) (auto simp: suffix_Cons)
  then show ?thesis by (auto simp: ending_def own_def)
qed

lemma ending_goto:
  "ending ms (goto ms u) = ending ms u"
  unfolding ending_def by (rule tails_longest_suffix) (rule own_path)

section \<open>One step\<close>

lemma final_okD:
  assumes "final_ok lab m"
  shows "finalized m" "shape_ok (matches m) lab (heap m)" "labels (heap m) lab"
    "\<And>s. s < length (heap m) \<Longrightarrow> lss_ok (matches m) lab (heap m) s"
    "\<And>s. s < length (heap m) \<Longrightarrow> match (heap m ! s) = out_at (matches m) (lab s)"
    "\<And>s. s < length (heap m) \<Longrightarrow>
       \<exists>tab. next_index (heap m ! s) = Some tab \<and> tab_ok (matches m) lab (heap m) s tab"
  using assms by (simp_all add: final_ok_def links_done_def shape_ok_def tables_done_def)

lemma step_state_ok:
  assumes fin: "final_ok lab m" and s: "s < length (heap m)" "lab s = goto (matches m) u"
  shows "\<exists>t r. step_state (heap m) s c = Some (t, r) \<and> t < length (heap m) \<and>
           lab t = goto (matches m) (u @ [c]) \<and>
           r = (if t = root then None else Some (match (heap m ! t)))"
proof -
  note d = final_okD [OF fin]
  from fail_walk_goto [OF d(2) s(1) d(4), of c] obtain st where
    st: "st < length (heap m)" "fail_walk (heap m) s c = Some st"
      "case child_of (heap m) st c of
         Some t \<Rightarrow> t < length (heap m) \<and> lab t = goto (matches m) (lab s @ [c]) \<and> t \<noteq> root
       | None \<Rightarrow> goto (matches m) (lab s @ [c]) = []"
    by blast
  have g: "goto (matches m) (lab s @ [c]) = goto (matches m) (u @ [c])"
    using paths.longest_suffix_snoc [of "matches m" u c] s(2) by simp
  show ?thesis
  proof (cases "child_of (heap m) st c")
    case None
    then have "goto (matches m) (u @ [c]) = []" using st(3) g by simp
    then show ?thesis
      using None st(2) labels_root [OF d(3)] by (simp add: step_state_def)
  next
    case (Some t)
    then show ?thesis using st g by (simp add: step_state_def)
  qed
qed

lemma step_match:
  assumes fin: "final_ok lab m" and ne: "own (matches m) [] = []"
    and t: "t < length (heap m)" "lab t = goto (matches m) u"
  shows "match (heap m ! t) = ending (matches m) u"
  using final_okD(5) [OF fin t(1)] t(2) out_at_tails [OF ne, of "lab t"] ending_goto [of "matches m" u]
  by (simp add: ending_def)

lemma step_yield:
  assumes fin: "final_ok lab m" and ne: "own (matches m) [] = []"
    and t: "t < length (heap m)" "lab t = goto (matches m) u"
  shows "(case if t = root then None else Some (match (heap m ! t)) of None \<Rightarrow> [] | Some ms \<Rightarrow> ms) =
     ending (matches m) u"
proof (cases "t = root")
  case True
  then have "goto (matches m) u = []"
    using t labels_root(2) [OF final_okD(3) [OF fin]] by simp
  then show ?thesis using True ending_goto [of "matches m" u] by (simp add: ending_def)
next
  case False
  then show ?thesis using step_match [OF assms] by simp
qed

section \<open>Whole texts\<close>

lemma query_from_ok:
  assumes fin: "final_ok lab m" and ne: "own (matches m) [] = []"
  shows "s < length (heap m) \<Longrightarrow> lab s = goto (matches m) u \<Longrightarrow>
     query_from (heap m) s (length u) cs =
       Some (concat (map (\<lambda>k. map (\<lambda>x. (int (Suc (length u + k)) - int (length (fst (snd x))), x))
               (ending (matches m) (u @ take (Suc k) cs))) [0..<length cs]))"
proof (induction cs arbitrary: s u)
  case (Cons c cs)
  from step_state_ok [OF fin Cons.prems, of c] obtain t r where
    t: "step_state (heap m) s c = Some (t, r)" "t < length (heap m)"
      "lab t = goto (matches m) (u @ [c])"
      "r = (if t = root then None else Some (match (heap m ! t)))"
    by blast
  have r: "(case r of None \<Rightarrow> [] | Some ms \<Rightarrow> ms) = ending (matches m) (u @ [c])"
    unfolding t(4) by (rule step_yield [OF fin ne t(2,3)])
  have "query_from (heap m) t (Suc (length u)) cs =
      Some (concat (map (\<lambda>k. map (\<lambda>x. (int (Suc (Suc (length u) + k)) - int (length (fst (snd x))), x))
               (ending (matches m) (u @ take (Suc (Suc k)) (c # cs)))) [0..<length cs]))"
    using Cons.IH [OF t(2,3)] by simp
  then show ?case
    using t(1) r
    by (simp add: upt_conv_Cons map_Suc_upt [symmetric] comp_def del: upt_Suc take_Suc_Cons)
      (simp add: algebra_simps)
qed simp

lemma occurrences_ending:
  "occurrences ms s =
     concat (map (\<lambda>k. map (\<lambda>x. (int (Suc k) - int (length (fst (snd x))), x))
       (ending ms (take (Suc k) s))) [0..<length s])"
proof -
  let ?at = "\<lambda>i j. map (\<lambda>m. (int j, m)) (filter (\<lambda>m. fst (snd m) = drop j (take (Suc i) s)) ms)"
  let ?off = "\<lambda>i. map (\<lambda>x. (int (Suc i) - int (length (fst (snd x))), x))"
  have "concat (map (?at i) [0..<Suc i]) = ?off i (ending ms (take (Suc i) s))"
    if i: "i < length s" for i
  proof -
    have len: "length (take (Suc i) s) = Suc i" using i by simp
    have "ending ms (take (Suc i) s) =
        concat (map (\<lambda>j. own ms (drop j (take (Suc i) s))) [0..<Suc i])"
      by (simp only: ending_def tails_conv_drop len) (simp only: map_map comp_def)
    then have "?off i (ending ms (take (Suc i) s)) =
        concat (map (\<lambda>j. ?off i (own ms (drop j (take (Suc i) s)))) [0..<Suc i])"
      by (simp only: map_concat map_map comp_def)
    moreover have "map (\<lambda>j. ?off i (own ms (drop j (take (Suc i) s)))) [0..<Suc i] =
        map (?at i) [0..<Suc i]"
      by (rule map_cong [OF refl]) (use len in \<open>auto simp: own_def\<close>)
    ultimately show ?thesis by (simp only:)
  qed
  then show ?thesis
    unfolding occurrences_def
    by (intro arg_cong [where f = concat] map_cong [OF refl]) (simp only: set_upt atLeastLessThan_iff)
qed

lemma query_finalized:
  assumes fin: "final_ok lab m" and ne: "own (matches m) [] = []"
  shows "query m s = Some (m, occurrences (matches m) s)"
proof -
  have "query_from (heap m) root 0 s = Some (occurrences (matches m) s)"
    using query_from_ok [OF fin ne, of root "[]" s] labels_root [OF final_okD(3) [OF fin]]
    by (simp add: occurrences_ending)
  then show ?thesis
    using final_okD(1) [OF fin] by (simp add: query_def)
qed

section \<open>The generated state machine\<close>

text \<open>
  \<open>BitSplitStateMachine.to_verilog\<close> and the states file read the transition of state
  number \<open>i\<close> from \<open>next_index\<close> and fall back to state 0.
\<close>

definition fsm_next :: "('c, 'v) ac_machine \<Rightarrow> nat \<Rightarrow> 'c \<Rightarrow> nat" where
  "fsm_next m i val =
     (case next_index (heap m ! (states m ! i)) of
        None \<Rightarrow> 0
      | Some tab \<Rightarrow> (case map_of tab val of Some (Some j) \<Rightarrow> j | _ \<Rightarrow> 0))"

fun fsm_run :: "('c, 'v) ac_machine \<Rightarrow> nat \<Rightarrow> 'c list \<Rightarrow> nat" where
  "fsm_run m i [] = i"
| "fsm_run m i (c # cs) = fsm_run m (fsm_next m i c) cs"

lemma final_ok_index:
  assumes fin: "final_ok lab m" and t: "t < length (heap m)"
  shows "\<exists>k<length (states m). states m ! k = t \<and> index (heap m ! t) = Some k"
proof -
  have "t \<in> set (states m)" using fin t by (simp add: final_ok_def)
  then obtain k where "k < length (states m)" "states m ! k = t"
    by (auto simp: in_set_conv_nth)
  with fin show ?thesis by (auto simp: final_ok_def)
qed

lemma fsm_next_ok:
  assumes fin: "final_ok lab m" and root0: "states m ! 0 = root"
    and i: "i < length (states m)" "lab (states m ! i) = goto (matches m) u"
  shows "fsm_next m i c < length (states m) \<and>
     lab (states m ! fsm_next m i c) = goto (matches m) (u @ [c])"
proof -
  let ?s = "states m ! i"
  have "?s \<in> set (states m)" using i(1) by (rule nth_mem)
  then have s: "?s < length (heap m)" using fin by (simp add: final_ok_def)
  then obtain tab where tab: "next_index (heap m ! ?s) = Some tab"
    "tab_ok (matches m) lab (heap m) ?s tab"
    using final_okD(6) [OF fin s] by blast
  have g: "goto (matches m) (lab ?s @ [c]) = goto (matches m) (u @ [c])"
    using paths.longest_suffix_snoc [of "matches m" u c] i(2) by simp
  note entry = tab(2) [unfolded tab_ok_def, rule_format, of c]
  show ?thesis
  proof (cases "map_of tab c")
    case None
    moreover have "0 < length (states m)" using i(1) by (cases "states m") auto
    ultimately show ?thesis
      using entry g tab(1) root0 labels_root(2) [OF final_okD(3) [OF fin]]
      by (simp add: fsm_next_def)
  next
    case (Some io)
    then obtain t where t: "t < length (heap m)" "lab t = goto (matches m) (u @ [c])"
      "io = index (heap m ! t)"
      using entry g by auto
    with final_ok_index [OF fin t(1)] Some tab(1) show ?thesis
      by (auto simp: fsm_next_def)
  qed
qed

lemma fsm_run_ok:
  assumes fin: "final_ok lab m" and root0: "states m ! 0 = root"
  shows "i < length (states m) \<Longrightarrow> lab (states m ! i) = goto (matches m) u \<Longrightarrow>
     fsm_run m i cs < length (states m) \<and>
     lab (states m ! fsm_run m i cs) = goto (matches m) (u @ cs)"
proof (induction cs arbitrary: i u)
  case (Cons c cs)
  from fsm_next_ok [OF fin root0 Cons.prems, of c] Cons.IH [of "fsm_next m i c" "u @ [c]"]
  show ?case by simp
qed simp

lemma fsm_run_start:
  assumes fin: "final_ok lab m" and root0: "states m ! 0 = root"
  shows "fsm_run m 0 cs < length (states m)"
    and "lab (states m ! fsm_run m 0 cs) = goto (matches m) cs"
proof -
  have "0 < length (heap m)" using labels_root(1) [OF final_okD(3) [OF fin]] by linarith
  then have "0 < length (states m)"
    using fin by (cases "states m") (auto simp: final_ok_def)
  then show "fsm_run m 0 cs < length (states m)"
    and "lab (states m ! fsm_run m 0 cs) = goto (matches m) cs"
    using fsm_run_ok [OF fin root0, of 0 "[]" cs] root0 labels_root(2) [OF final_okD(3) [OF fin]]
    by auto
qed

section \<open>Machines built from words\<close>

abbreviation word_values :: "('w, 'v) word_arg list \<Rightarrow> 'v \<Rightarrow> ('w \<times> 'v) list" where
  "word_values lst none \<equiv> map (\<lambda>a. unpack_word a none) lst"

lemma add_words_new:
  assumes "add_words new_machine lst none = Inr m"
  shows "machine_ok m" "matches m = enumerate 0 (word_values lst none)"
  using add_words_ok [OF new_machine_ok, of lst none] assms
  by (auto simp: new_machine_def)

lemma own_Nil_words:
  assumes "[] \<notin> fst ` set wvs"
  shows "own (enumerate k wvs) [] = []"
proof -
  have "snd m \<in> set wvs" if "m \<in> set (enumerate k wvs)" for m
    using that by (metis in_set_zip enumerate_eq_zip snd_conv nth_mem prod.collapse)
  with assms show ?thesis by (force simp: own_def filter_empty_conv)
qed

text \<open>C1. Searching a text with a machine built from non-empty words always returns, and it
  yields exactly the occurrences of the words that a naive search over all slices of the
  text finds: same offsets, same match tuples, same order.\<close>

theorem ac_query_correct:
  assumes "add_words new_machine lst none = Inr m"
    and "[] \<notin> fst ` set (word_values lst none)"
  shows "\<exists>m'. query m s = Some (m', occurrences (enumerate 0 (word_values lst none)) s) \<and>
           finalized m' \<and> matches m' = matches m"
proof -
  note m = add_words_new [OF assms(1)]
  from finalize_ok [OF m(1)] obtain m' lab where
    m': "finalize m = Some m'" "final_ok lab m'" "matches m' = matches m"
    by blast
  have "own (matches m') [] = []" using own_Nil_words [OF assms(2)] m(2) m'(3) by simp
  from query_finalized [OF m'(2) this, of s] have
    "query m s = Some (m', occurrences (matches m) s)"
    using m' m(1) final_okD(1) [OF m'(2)] by (simp add: query_def machine_ok_def)
  then show ?thesis using m(2) m'(3) final_okD(1) [OF m'(2)] by auto
qed

theorem ac_query_correct_witness:
  "\<exists>m m'. add_words new_machine [WordValue [1::nat, 2, 3] ''a'', WordValue [2, 3] ''b'', Word [3]] ''''
       = Inr m \<and>
     query m [1, 2, 3] = Some (m', [(0, 0, [1, 2, 3], ''a''), (1, 1, [2, 3], ''b''), (2, 2, [3], '''')])"
proof -
  let ?l = "[WordValue [1::nat, 2, 3] ''a'', WordValue [2, 3] ''b'', Word [3]]"
  obtain m where m: "add_words new_machine ?l '''' = Inr m"
    using add_words_ok [OF new_machine_ok, of ?l "''''"] by blast
  have occ: "occurrences (enumerate 0 (word_values ?l '''')) [1, 2, 3] =
      [(0, 0, [1, 2, 3], ''a''), (1, 1, [2, 3], ''b''), (2, 2, [3], '''')]"
    by code_simp
  obtain m' where "query m [1, 2, 3] = Some (m', occurrences (enumerate 0 (word_values ?l '''')) [1, 2, 3])"
    using ac_query_correct [OF m, of "[1, 2, 3]"] by auto
  then show ?thesis using m unfolding occ by blast
qed

text \<open>C2. After the generated state machine has read a text from state 0, the match list of
  the state it is in holds exactly the words that end at the last character.\<close>

theorem ac_fsm_correct:
  assumes "add_words new_machine lst none = Inr m"
    and "[] \<notin> fst ` set (word_values lst none)" and "finalize m = Some m'"
  shows "fsm_run m' 0 s < length (states m') \<and>
     set (match (heap m' ! (states m' ! fsm_run m' 0 s))) =
       {x \<in> set (enumerate 0 (word_values lst none)). suffix (fst (snd x)) s}"
proof -
  note m = add_words_new [OF assms(1)]
  from finalize_ok [OF m(1)] assms(3) obtain lab where
    m': "final_ok lab m'" "matches m' = matches m" "states m' ! 0 = root"
    by auto
  let ?i = "fsm_run m' 0 s"
  note i = fsm_run_start [OF m'(1,3), of s]
  have "states m' ! ?i \<in> set (states m')" using i(1) by (rule nth_mem)
  then have t: "states m' ! ?i < length (heap m')" using m'(1) by (simp add: final_ok_def)
  have ne: "own (matches m') [] = []" using own_Nil_words [OF assms(2)] m(2) m'(2) by simp
  have "match (heap m' ! (states m' ! ?i)) = ending (matches m') s"
    by (rule step_match [OF m'(1) ne t i(2)])
  moreover have "fst (snd x) \<noteq> []" if "x \<in> set (matches m')" for x
    using ne that by (auto simp: own_def filter_empty_conv)
  ultimately show ?thesis using i(1) m(2) m'(2) by (auto simp: set_ending)
qed

theorem ac_fsm_correct_witness:
  "\<exists>m m'. add_words new_machine [Word [1::nat, 2], Word [2]] ''x'' = Inr m \<and>
     finalize m = Some m' \<and> fsm_run m' 0 [2, 1, 1, 2] < length (states m') \<and>
     set (match (heap m' ! (states m' ! fsm_run m' 0 [2, 1, 1, 2]))) =
       {(0, [1, 2], ''x''), (1, [2], ''x'')}"
proof -
  let ?l = "[Word [1::nat, 2], Word [2]]"
  obtain m where m: "add_words new_machine ?l ''x'' = Inr m" "machine_ok m"
    using add_words_ok [OF new_machine_ok, of ?l "''x''"] by blast
  obtain m' where m': "finalize m = Some m'"
    using finalize_ok [OF m(2)] by blast
  have ms: "{x \<in> set (enumerate 0 (word_values ?l ''x'')). suffix (fst (snd x)) [2, 1, 1, 2]} =
      {(0, [1, 2], ''x''), (1, [2], ''x'')}"
    by (auto simp: suffix_def)
  have "[] \<notin> fst ` set (word_values ?l ''x'')" by simp
  from ac_fsm_correct [OF m(1) this m', of "[2, 1, 1, 2]"] m(1) m' show ?thesis
    unfolding ms by blast
qed

text \<open>C3. Finalizing a machine built from any words always returns. The states are then
  numbered without gaps or repetitions, with the root first, there is exactly one for every
  prefix of the words, and each state carries a link to the state of its longest strict
  suffix that is a prefix of some word.\<close>

theorem ac_finalize_states:
  assumes "add_words new_machine lst none = Inr m"
  shows "\<exists>m' lab. finalize m = Some m' \<and> labels (heap m') lab \<and>
     states m' ! 0 = root \<and> distinct (states m') \<and>
     bij_betw lab (set (states m')) {p. is_path (enumerate 0 (word_values lst none)) p} \<and>
     (\<forall>i<length (states m'). index (heap m' ! (states m' ! i)) = Some i) \<and>
     (\<forall>s\<in>set (states m'). \<exists>t\<in>set (states m'). lss (heap m' ! s) = Some t \<and>
        lab t = longest_suffix (is_path (enumerate 0 (word_values lst none))) (tl (lab s)))"
proof -
  note m = add_words_new [OF assms]
  from finalize_ok [OF m(1)] obtain m' lab where
    m': "finalize m = Some m'" "final_ok lab m'" "matches m' = matches m" "states m' ! 0 = root"
    by auto
  note d = final_okD [OF m'(2)]
  have st: "set (states m') = {..<length (heap m')}" "distinct (states m')"
    "\<forall>i<length (states m'). index (heap m' ! (states m' ! i)) = Some i"
    using m'(2) by (simp_all add: final_ok_def)
  have "bij_betw lab {..<length (heap m')} (Collect (is_path (matches m')))"
    using d(2) by (simp add: shape_ok_def labels_def bij_betw_def)
  moreover have "\<exists>t\<in>set (states m'). lss (heap m' ! s) = Some t \<and>
      lab t = longest_suffix (is_path (matches m')) (tl (lab s))" if "s \<in> set (states m')" for s
    using d(4) [of s] that st(1) by (auto simp: lss_ok_def)
  ultimately have "labels (heap m') lab \<and> states m' ! 0 = root \<and> distinct (states m') \<and>
     bij_betw lab (set (states m')) {p. is_path (matches m') p} \<and>
     (\<forall>i<length (states m'). index (heap m' ! (states m' ! i)) = Some i) \<and>
     (\<forall>s\<in>set (states m'). \<exists>t\<in>set (states m'). lss (heap m' ! s) = Some t \<and>
        lab t = longest_suffix (is_path (matches m')) (tl (lab s)))"
    using d(3) m'(4) st by simp
  with m'(1,3) m(2) show ?thesis by auto
qed

theorem ac_finalize_states_witness:
  "\<exists>m m'. add_words new_machine [Word [1::nat, 2], Word [1, 3]] ''x'' = Inr m \<and>
     finalize m = Some m' \<and> length (states m') = 4"
proof -
  let ?l = "[Word [1::nat, 2], Word [1, 3]]"
  obtain m where m: "add_words new_machine ?l ''x'' = Inr m"
    using add_words_ok [OF new_machine_ok, of ?l "''x''"] by blast
  from ac_finalize_states [OF m] obtain m' lab where m': "finalize m = Some m'"
    "distinct (states m')"
    "bij_betw lab (set (states m')) {p. is_path (enumerate 0 (word_values ?l ''x'')) p}"
    by blast
  have "{p. is_path (enumerate 0 (word_values ?l ''x'')) p} = {[], [1], [1, 2], [1, 3]}"
    by (auto simp: is_path_def prefix_Cons)
  then have "card (set (states m')) = 4"
    using bij_betw_same_card [OF m'(3)] by simp
  then show ?thesis using m m'(1,2) distinct_card [of "states m'"] by auto
qed

end
