(* ===== verification/SME_BitSplit.thy ===== *)
theory SME_BitSplit
  imports SME_AC_Query
begin

text \<open>
  The class \<open>BitSplitStateMachine\<close> of \<open>sme_rulecompiler.py\<close>: the bits of a character are
  split over several Aho-Corasick machines, and a word is reported where all of them report
  it. A search yields the elements of a Python set for every character, in an order the
  language leaves open; the model therefore returns one set per character.
\<close>

section \<open>Splitting characters and words\<close>

type_synonym 'v bs_match = "nat \<times> py_text \<times> 'v"

record 'v bs_machine =
  bit_width :: nat
  split_width :: nat
  split_count :: nat
  bs_matches :: "'v bs_match list"
  bs_finalized :: bool
  acsm :: "(int, 'v bs_match) ac_machine list"

definition new_bs :: "nat \<Rightarrow> nat \<Rightarrow> py_error + 'v bs_machine" where
  "new_bs bw sw =
     (if sw = 0 then Inl ZeroDivisionError
      else let sc = bw div sw
        in if sc * sw \<noteq> bw then Inl AssertionError
           else Inr \<lparr>bit_width = bw, split_width = sw, split_count = sc, bs_matches = [],
                     bs_finalized = False, acsm = replicate sc new_machine\<rparr>)"

definition split_bits :: "nat \<Rightarrow> nat \<Rightarrow> int \<Rightarrow> int" where
  "split_bits w k ch = and (drop_bit (w * k) ch) (2 ^ w - 1)"

fun text_encode :: "py_text \<Rightarrow> py_error + int list" where
  "text_encode (Str cs) = utf8_encode cs"
| "text_encode (Bytes bs) = Inr bs"

datatype char_arg = IntChar int | TextChar py_text

fun char_code :: "char_arg \<Rightarrow> py_error + int" where
  "char_code (IntChar c) = Inr c"
| "char_code (TextChar t) =
     try_bind (text_encode t) (\<lambda>bs. if length bs = 1 then Inr (bs ! 0) else Inl AssertionError)"

definition split_char :: "'v bs_machine \<Rightarrow> char_arg \<Rightarrow> py_error + int list" where
  "split_char b ch =
     try_bind (char_code ch) (\<lambda>c. Inr (map (\<lambda>k. split_bits (split_width b) k c) [0..<split_count b]))"

definition split_string :: "'v bs_machine \<Rightarrow> py_text \<Rightarrow> py_error + int list list" where
  "split_string b word =
     try_bind (text_encode word) (\<lambda>bs.
       Inr (map (\<lambda>k. map (split_bits (split_width b) k) bs) [0..<split_count b]))"

section \<open>Adding words\<close>

fun add_splits ::
  "(int, 'v bs_match) ac_machine list \<Rightarrow> int list list \<Rightarrow> 'v bs_match \<Rightarrow>
   py_error + (int, 'v bs_match) ac_machine list" where
  "add_splits [] ws mt = Inr []"
| "add_splits (m # ms) [] mt = Inl IndexError"
| "add_splits (m # ms) (w # ws) mt =
     try_bind (add_word m (Word w) mt) (\<lambda>m'.
     try_bind (add_splits ms ws mt) (\<lambda>ms'. Inr (m' # ms')))"

definition bs_add_word ::
  "'v bs_machine \<Rightarrow> (py_text, 'v) word_arg \<Rightarrow> 'v \<Rightarrow> py_error + 'v bs_machine" where
  "bs_add_word b arg value =
     (if bs_finalized b then Inl AlreadyFinalized
      else
        (case unpack_word arg value of (word, value) \<Rightarrow>
           let mt = (length (bs_matches b), word, value)
           in try_bind (split_string b word) (\<lambda>sw.
              try_bind (add_splits (acsm b) sw mt) (\<lambda>ms.
                Inr (b\<lparr>bs_matches := bs_matches b @ [mt], acsm := ms\<rparr>)))))"

fun bs_add_words ::
  "'v bs_machine \<Rightarrow> (py_text, 'v) word_arg list \<Rightarrow> 'v \<Rightarrow> py_error + 'v bs_machine" where
  "bs_add_words b [] none = Inr b"
| "bs_add_words b (word # lst) none =
     try_bind (bs_add_word b word none) (\<lambda>b'. bs_add_words b' lst none)"

section \<open>Finalizing and searching\<close>

fun finalize_all :: "('c, 'v) ac_machine list \<Rightarrow> ('c, 'v) ac_machine list option" where
  "finalize_all [] = Some []"
| "finalize_all (m # ms) =
     Option.bind (finalize m) (\<lambda>m'. Option.bind (finalize_all ms) (\<lambda>ms'. Some (m' # ms')))"

definition bs_finalize :: "'v bs_machine \<Rightarrow> 'v bs_machine option" where
  "bs_finalize b =
     (if bs_finalized b then Some b
      else Option.bind (finalize_all (acsm b)) (\<lambda>ms.
             Some (b\<lparr>acsm := ms, bs_finalized := True\<rparr>)))"

text \<open>The loop \<open>for k in range(self.split_count)\<close> over the machines, states and characters.\<close>

fun query_split ::
  "('c, 'v) ac_machine list \<Rightarrow> nat option list \<Rightarrow> 'c list \<Rightarrow>
   (('c, 'v) ac_machine list \<times> nat option list \<times> ('c, 'v) ac_match list option list) run" where
  "query_split [] ss cs = run_return ([], ss, [])"
| "query_split (m # ms) (s # ss) (c # cs) =
     run_bind (run_option (query_char m s c)) (\<lambda>(m', s', r).
     run_bind (query_split ms ss cs) (\<lambda>(ms', ss', rs).
       run_return (m' # ms', Some s' # ss', r # rs)))"
| "query_split (m # ms) _ _ = run_raise IndexError"

text \<open>\<open>set(match[0]).intersection(*match)\<close> over the values of the reported tuples.\<close>

definition common :: "('c, 'v) ac_match list option list \<Rightarrow> py_error + 'v set" where
  "common rs =
     (case map (\<lambda>r. case r of None \<Rightarrow> [] | Some ms \<Rightarrow> map (\<lambda>m. snd (snd m)) ms) rs of
        [] \<Rightarrow> Inl IndexError
      | m0 # ms \<Rightarrow> Inr (fold (\<lambda>s acc. acc \<inter> set s) (m0 # ms) (set m0)))"

definition bs_step ::
  "'v bs_machine \<Rightarrow> nat option list \<Rightarrow> char_arg \<Rightarrow>
   ('v bs_machine \<times> nat option list \<times> 'v bs_match set) run" where
  "bs_step b state ch =
     run_bind (Some (split_char b ch)) (\<lambda>cs.
     run_bind (query_split (acsm b) state cs) (\<lambda>(ms, st, rs).
     run_bind (Some (common rs)) (\<lambda>match.
       run_return (b\<lparr>acsm := ms\<rparr>, st, match))))"

definition bs_query_char ::
  "'v bs_machine \<Rightarrow> nat option list option \<Rightarrow> char_arg \<Rightarrow>
   ('v bs_machine \<times> nat option list \<times> 'v bs_match set) run" where
  "bs_query_char b state ch =
     run_bind (run_option (if bs_finalized b then Some b else bs_finalize b)) (\<lambda>b'.
       bs_step b' (case state of None \<Rightarrow> replicate (split_count b') None | Some st \<Rightarrow> st) ch)"

fun text_chars :: "py_text \<Rightarrow> char_arg list" where
  "text_chars (Str cs) = map (\<lambda>c. TextChar (Str [c])) cs"
| "text_chars (Bytes bs) = map IntChar bs"

fun bs_query_from ::
  "'v bs_machine \<Rightarrow> nat option list \<Rightarrow> nat \<Rightarrow> char_arg list \<Rightarrow>
   ('v bs_machine \<times> (int \<times> 'v bs_match) set list) run" where
  "bs_query_from b st i [] = run_return (b, [])"
| "bs_query_from b st i (ch # chs) =
     run_bind (bs_step b st ch) (\<lambda>(b', st', match).
     run_bind (bs_query_from b' st' (Suc i) chs) (\<lambda>(b'', ys).
       run_return (b'', (\<lambda>m. (int i - int (text_len (fst (snd m))) + 1, m)) ` match # ys)))"

definition bs_query ::
  "'v bs_machine \<Rightarrow> py_text \<Rightarrow> ('v bs_machine \<times> (int \<times> 'v bs_match) set list) run" where
  "bs_query b s =
     run_bind (run_option (if bs_finalized b then Some b else bs_finalize b)) (\<lambda>b'.
       bs_query_from b' (replicate (split_count b') None) 0 (text_chars s))"

end
