(* ===== verification/SME_BitSplit_Correct.thy ===== *)
theory SME_BitSplit_Correct
  imports SME_BitSplit
begin

text \<open>
  Correctness of the bit-split machine: the splits of a word determine the word, so the
  intersection of what the split machines report at a position is the set of words that end
  there.
\<close>

section \<open>Bits\<close>

lemma bit_split_bits: "bit (split_bits w k c) j \<longleftrightarrow> j < w \<and> bit c (w * k + j)"
  by (simp add: split_bits_def flip: mask_eq_exp_minus_1 take_bit_eq_mask)
    (simp add: bit_take_bit_iff bit_drop_bit_eq)

lemma split_bits_inj:
  assumes range: "0 \<le> a" "a < 2 ^ (n * w)" "0 \<le> b" "b < 2 ^ (n * w)"
    and eq: "\<And>k. k < n \<Longrightarrow> split_bits w k a = split_bits w k b"
  shows "a = (b :: int)"
proof (rule bit_eqI)
  fix i
  have high: "\<not> bit x i" if "\<not> i < n * w" "0 \<le> x" "x < 2 ^ (n * w)" for x :: int
  proof -
    have "take_bit (n * w) x = x" using that(2,3) by (simp add: take_bit_int_eq_self)
    then show ?thesis using that(1) bit_take_bit_iff [of "n * w" x i] by simp
  qed
  show "bit a i = bit b i"
  proof (cases "i < n * w")
    case True
    then have w: "0 < w" by (cases w) auto
    have "i div w < n" using True by (simp add: less_mult_imp_div_less)
    from eq [OF this] have "bit (split_bits w (i div w) a) (i mod w) = bit (split_bits w (i div w) b) (i mod w)"
      by simp
    then show ?thesis using w by (simp add: bit_split_bits)
  qed (use high range in simp)
qed

lemma suffix_map_joint:
  assumes "K \<noteq> {}"
    and "\<And>x y. x \<in> set w \<Longrightarrow> y \<in> set u \<Longrightarrow> (\<And>k. k \<in> K \<Longrightarrow> f k x = f k y) \<Longrightarrow> x = y"
  shows "(\<forall>k\<in>K. suffix (map (f k) w) (map (f k) u)) \<longleftrightarrow> suffix w u"
proof
  assume s: "\<forall>k\<in>K. suffix (map (f k) w) (map (f k) u)"
  let ?d = "drop (length u - length w) u"
  obtain k0 where "k0 \<in> K" using assms(1) by blast
  with s have len: "length w \<le> length u" using suffix_length_le by force
  have eq: "map (f k) w = map (f k) ?d" if k: "k \<in> K" for k
  proof -
    obtain zs where zs: "map (f k) u = zs @ map (f k) w" using bspec [OF s k] unfolding suffix_def by blast
    then have "length u = length zs + length w" by (metis length_append length_map)
    then show ?thesis using zs by (simp flip: drop_map)
  qed
  have "w = ?d"
  proof (rule nth_equalityI)
    fix i assume i: "i < length w"
    then have "w ! i \<in> set w" "?d ! i \<in> set u" using len by auto
    moreover have "f k (w ! i) = f k (?d ! i)" if "k \<in> K" for k
      using arg_cong [OF eq [OF that], of "\<lambda>xs. xs ! i"] i len by simp
    ultimately show "w ! i = ?d ! i" by (rule assms(2))
  qed (use len in simp)
  then show "suffix w u" by (metis suffix_drop)
next
  assume "suffix w u"
  then show "\<forall>k\<in>K. suffix (map (f k) w) (map (f k) u)" by (auto simp: suffix_def)
qed

section \<open>Building\<close>

definition split_of :: "nat \<Rightarrow> nat \<Rightarrow> 'v bs_match \<Rightarrow> (int, 'v bs_match) ac_match" where
  "split_of w k m = (fst m, map (split_bits w k) (text_bytes (fst (snd m))), m)"

definition bs_base :: "'v bs_machine \<Rightarrow> bool" where
  "bs_base b \<longleftrightarrow>
     split_count b * split_width b = bit_width b \<and> length (acsm b) = split_count b \<and>
     map fst (bs_matches b) = [0..<length (bs_matches b)] \<and>
     (\<forall>k < split_count b. matches (acsm b ! k) = map (split_of (split_width b) k) (bs_matches b))"

definition bs_ok :: "'v bs_machine \<Rightarrow> bool" where
  "bs_ok b \<longleftrightarrow> bs_base b \<and> \<not> bs_finalized b \<and> (\<forall>k < split_count b. machine_ok (acsm b ! k))"

lemma text_encode_plain: "plain_text t \<Longrightarrow> text_encode t = Inr (text_bytes t)"
  by (cases t) (simp_all add: utf8_encode_ascii)

lemma new_bs_ok:
  assumes "new_bs bw sw = Inr b"
  shows "bs_ok b" "bit_width b = bw" "split_width b = sw" "bs_matches b = []"
  using assms new_machine_ok
  by (auto simp: new_bs_def bs_ok_def bs_base_def Let_def new_machine_def split: if_splits)

lemma add_splits_ok:
  assumes "length ws = length ms" and "\<forall>k<length ms. machine_ok (ms ! k)"
  shows "\<exists>ms'. add_splits ms ws mt = Inr ms' \<and> length ms' = length ms \<and>
     (\<forall>k<length ms. machine_ok (ms' ! k) \<and>
        matches (ms' ! k) = matches (ms ! k) @ [(length (matches (ms ! k)), ws ! k, mt)])"
  using assms
proof (induction ms arbitrary: ws)
  case (Cons m ms)
  then obtain w ws' where ws: "ws = w # ws'" "length ws' = length ms"
    by (cases ws) auto
  have "machine_ok m" using Cons.prems(2) by force
  from add_word_ok [OF this, of "Word w" mt] obtain m' where
    m': "add_word m (Word w) mt = Inr m'" "machine_ok m'"
      "matches m' = matches m @ [(length (matches m), w, mt)]"
    by auto
  have "\<forall>k<length ms. machine_ok (ms ! k)" using Cons.prems(2) by force
  from Cons.IH [OF ws(2) this] obtain ms' where
    ms': "add_splits ms ws' mt = Inr ms'" "length ms' = length ms"
      "\<forall>k<length ms. machine_ok (ms' ! k) \<and>
        matches (ms' ! k) = matches (ms ! k) @ [(length (matches (ms ! k)), ws' ! k, mt)]"
    by blast
  then show ?case
    using m' ws(1) by (auto simp: nth_Cons split: nat.splits)
qed simp

lemma bs_add_word_ok:
  assumes b: "bs_ok b" and plain: "plain_text (fst (unpack_word arg v))"
  shows "\<exists>b'. bs_add_word b arg v = Inr b' \<and> bs_ok b' \<and> bit_width b' = bit_width b \<and>
     split_width b' = split_width b \<and>
     bs_matches b' = bs_matches b @ [(length (bs_matches b), unpack_word arg v)]"
proof -
  obtain word val where wv: "unpack_word arg v = (word, val)" by fastforce
  let ?mt = "(length (bs_matches b), word, val)"
  let ?ws = "map (\<lambda>k. map (split_bits (split_width b) k) (text_bytes word)) [0..<split_count b]"
  have base: "length (acsm b) = split_count b"
    "map fst (bs_matches b) = [0..<length (bs_matches b)]"
    "\<And>k. k < split_count b \<Longrightarrow> matches (acsm b ! k) = map (split_of (split_width b) k) (bs_matches b)"
    "split_count b * split_width b = bit_width b"
    using b by (simp_all add: bs_ok_def bs_base_def)
  have "length ?ws = length (acsm b)" "\<forall>k<length (acsm b). machine_ok (acsm b ! k)"
    using b base(1) by (simp_all add: bs_ok_def)
  from add_splits_ok [OF this, of ?mt] obtain ms where ms: "add_splits (acsm b) ?ws ?mt = Inr ms"
    "length ms = length (acsm b)" "\<And>k. k < length (acsm b) \<Longrightarrow> machine_ok (ms ! k)"
    "\<And>k. k < length (acsm b) \<Longrightarrow>
       matches (ms ! k) = matches (acsm b ! k) @ [(length (matches (acsm b ! k)), ?ws ! k, ?mt)]"
    by blast
  let ?b = "b\<lparr>bs_matches := bs_matches b @ [?mt], acsm := ms\<rparr>"
  have "bs_add_word b arg v = Inr ?b"
    using b plain wv ms(1) by (simp add: bs_add_word_def bs_ok_def split_string_def text_encode_plain)
  moreover have "bs_ok ?b"
    using b base ms(2-4) by (auto simp: bs_ok_def bs_base_def split_of_def)
  ultimately show ?thesis using wv by simp
qed

lemma bs_add_words_ok:
  assumes "bs_ok b" and "\<forall>(w, _)\<in>set (word_values lst v). plain_text w"
  shows "\<exists>b'. bs_add_words b lst v = Inr b' \<and> bs_ok b' \<and> bit_width b' = bit_width b \<and>
     split_width b' = split_width b \<and>
     bs_matches b' = bs_matches b @ enumerate (length (bs_matches b)) (word_values lst v)"
  using assms
proof (induction lst arbitrary: b)
  case (Cons a lst)
  have "plain_text (fst (unpack_word a v))" using Cons.prems(2) by (auto simp: case_prod_unfold)
  from bs_add_word_ok [OF Cons.prems(1) this] obtain b1 where
    b1: "bs_add_word b a v = Inr b1" "bs_ok b1" "bit_width b1 = bit_width b"
      "split_width b1 = split_width b"
      "bs_matches b1 = bs_matches b @ [(length (bs_matches b), unpack_word a v)]"
    by blast
  from Cons.IH [OF b1(2)] Cons.prems(2) b1 show ?case by auto
qed simp

section \<open>Finalizing\<close>

definition bs_final :: "'v bs_machine \<Rightarrow> bool" where
  "bs_final b \<longleftrightarrow> bs_base b \<and> bs_finalized b \<and> (\<forall>k < split_count b. \<exists>lab. final_ok lab (acsm b ! k))"

lemma finalize_all_ok:
  assumes "\<forall>k<length ms. machine_ok (ms ! k)"
  shows "\<exists>ms'. finalize_all ms = Some ms' \<and> length ms' = length ms \<and>
     (\<forall>k<length ms. (\<exists>lab. final_ok lab (ms' ! k)) \<and> matches (ms' ! k) = matches (ms ! k))"
  using assms
proof (induction ms)
  case (Cons m ms)
  have "machine_ok m" using Cons.prems by force
  from finalize_ok [OF this] obtain m' lab where
    m': "finalize m = Some m'" "final_ok lab m'" "matches m' = matches m" by blast
  have "\<forall>k<length ms. machine_ok (ms ! k)" using Cons.prems by force
  from Cons.IH [OF this] obtain ms' where
    ms': "finalize_all ms = Some ms'" "length ms' = length ms"
      "\<forall>k<length ms. (\<exists>lab. final_ok lab (ms' ! k)) \<and> matches (ms' ! k) = matches (ms ! k)"
    by blast
  have "(\<exists>lab. final_ok lab ((m' # ms') ! k)) \<and> matches ((m' # ms') ! k) = matches ((m # ms) ! k)"
    if "k < length (m # ms)" for k
    using that m'(2,3) ms'(3) by (cases k) auto
  then show ?case using m'(1) ms'(1,2) by simp
qed simp

lemma bs_finalize_ok:
  assumes b: "bs_ok b"
  shows "\<exists>b'. bs_finalize b = Some b' \<and> bs_final b' \<and> bit_width b' = bit_width b \<and>
     split_width b' = split_width b \<and> bs_matches b' = bs_matches b"
proof -
  have "\<forall>k<length (acsm b). machine_ok (acsm b ! k)"
    using b by (simp add: bs_ok_def bs_base_def)
  from finalize_all_ok [OF this] obtain ms where ms: "finalize_all (acsm b) = Some ms"
    "length ms = length (acsm b)"
    "\<forall>k<length (acsm b). (\<exists>lab. final_ok lab (ms ! k)) \<and> matches (ms ! k) = matches (acsm b ! k)"
    by blast
  let ?b = "b\<lparr>acsm := ms, bs_finalized := True\<rparr>"
  have "bs_finalize b = Some ?b" using b ms(1) by (simp add: bs_finalize_def bs_ok_def)
  moreover have "bs_final ?b" using b ms(2,3) by (simp add: bs_final_def bs_ok_def bs_base_def)
  ultimately show ?thesis by simp
qed

section \<open>Stepping the split machines\<close>

text \<open>A finalized machine is in the state it reaches on the text read so far.\<close>

definition located :: "('c, 'v) ac_machine \<Rightarrow> nat option \<Rightarrow> 'c list \<Rightarrow> bool" where
  "located m so u \<longleftrightarrow>
     (\<exists>lab. final_ok lab m \<and> (case so of None \<Rightarrow> root | Some s \<Rightarrow> s) < length (heap m) \<and>
        lab (case so of None \<Rightarrow> root | Some s \<Rightarrow> s) = goto (matches m) u)"

definition yielded :: "('c, 'v) ac_match list option \<Rightarrow> ('c, 'v) ac_match list" where
  "yielded r = (case r of None \<Rightarrow> [] | Some ms \<Rightarrow> ms)"

lemma located_start: "final_ok lab m \<Longrightarrow> located m None []"
  using labels_root [OF final_okD(3), of lab m] by (auto simp: located_def intro: exI [of _ lab])

lemma query_char_ok:
  assumes "located m so u" and ne: "own (matches m) [] = []"
  shows "\<exists>t r. query_char m so c = Some (m, t, r) \<and> located m (Some t) (u @ [c]) \<and>
     yielded r = ending (matches m) (u @ [c])"
proof -
  let ?s = "case so of None \<Rightarrow> root | Some s \<Rightarrow> s"
  from assms(1) obtain lab where s: "final_ok lab m" "?s < length (heap m)" "lab ?s = goto (matches m) u"
    unfolding located_def by blast
  from step_state_ok [OF s, of c] obtain t r where t: "step_state (heap m) ?s c = Some (t, r)"
    "t < length (heap m)" "lab t = goto (matches m) (u @ [c])"
    "r = (if t = root then None else Some (match (heap m ! t)))"
    by blast
  have "yielded r = ending (matches m) (u @ [c])"
    unfolding yielded_def t(4) by (rule step_yield [OF s(1) ne t(2,3)])
  moreover have "query_char m so c = Some (m, t, r)"
    using t(1) final_okD(1) [OF s(1)] by (simp add: query_char_def)
  moreover have "located m (Some t) (u @ [c])" using s(1) t(2,3) by (auto simp: located_def)
  ultimately show ?thesis by blast
qed

lemma query_split_ok:
  assumes "length ss = length ms" "length us = length ms" "length cs = length ms"
    and "\<forall>k<length ms. located (ms ! k) (ss ! k) (us ! k) \<and> own (matches (ms ! k)) [] = []"
  shows "\<exists>ss' rs. query_split ms ss cs = Some (Inr (ms, ss', rs)) \<and>
     length ss' = length ms \<and> length rs = length ms \<and>
     (\<forall>k<length ms. located (ms ! k) (ss' ! k) (us ! k @ [cs ! k]) \<and>
        yielded (rs ! k) = ending (matches (ms ! k)) (us ! k @ [cs ! k]))"
  using assms
proof (induction ms arbitrary: ss us cs)
  case (Cons m ms)
  then obtain s ss0 u us0 c cs0 where l: "ss = s # ss0" "us = u # us0" "cs = c # cs0"
    by (metis length_Suc_conv)
  have "located m s u" "own (matches m) [] = []" using Cons.prems(4) l by force+
  from query_char_ok [OF this, of c] obtain t r where
    t: "query_char m s c = Some (m, t, r)" "located m (Some t) (u @ [c])"
      "yielded r = ending (matches m) (u @ [c])" by blast
  have "\<forall>k<length ms. located (ms ! k) (ss0 ! k) (us0 ! k) \<and> own (matches (ms ! k)) [] = []"
    using Cons.prems(4) l by force
  with Cons.IH [of ss0 us0 cs0] Cons.prems(1-3) l obtain ss' rs where
    r: "query_split ms ss0 cs0 = Some (Inr (ms, ss', rs))" "length ss' = length ms" "length rs = length ms"
      "\<forall>k<length ms. located (ms ! k) (ss' ! k) (us0 ! k @ [cs0 ! k]) \<and>
        yielded (rs ! k) = ending (matches (ms ! k)) (us0 ! k @ [cs0 ! k])"
    by auto
  have "located ((m # ms) ! k) ((Some t # ss') ! k) (us ! k @ [cs ! k]) \<and>
      yielded ((r # rs) ! k) = ending (matches ((m # ms) ! k)) (us ! k @ [cs ! k])"
    if "k < length (m # ms)" for k
    using that t(2,3) r(4) l by (cases k) auto
  then show ?case using t(1) r(1-3) l by simp
qed simp

lemma common_eq:
  assumes "rs \<noteq> []"
  shows "common rs = Inr (\<Inter>k<length rs. (\<lambda>m. snd (snd m)) ` set (yielded (rs ! k)))"
proof -
  let ?f = "\<lambda>r. case r of None \<Rightarrow> [] | Some ms \<Rightarrow> map (\<lambda>m. snd (snd m)) ms"
  have fold_Int: "fold (\<lambda>s acc. acc \<inter> set s) xs A = A \<inter> (\<Inter>x\<in>set xs. set x)" for xs :: "'b list list" and A
    by (induction xs arbitrary: A) auto
  have f: "set (?f r) = (\<lambda>m. snd (snd m)) ` set (yielded r)" for r
    by (cases r) (auto simp: yielded_def)
  obtain r0 rs0 where rs: "rs = r0 # rs0" using assms by (cases rs) auto
  have "common rs = Inr (\<Inter>r\<in>set rs. set (?f r))"
    unfolding common_def rs by (simp add: fold_Int)
  also have "(\<Inter>r\<in>set rs. set (?f r)) = (\<Inter>k<length rs. (\<lambda>m. snd (snd m)) ` set (yielded (rs ! k)))"
  proof -
    have "set rs = (!) rs ` {..<length rs}" by (auto simp: in_set_conv_nth)
    then show ?thesis by (simp only: f image_image)
  qed
  finally show ?thesis .
qed

section \<open>Searching\<close>

text \<open>Words and texts the machine can tell apart: one byte a character, within the bit width.\<close>

definition fits :: "nat \<Rightarrow> py_text \<Rightarrow> bool" where
  "fits w t \<longleftrightarrow> plain_text t \<and> (\<forall>c\<in>set (text_bytes t). 0 \<le> c \<and> c < 2 ^ w)"

definition words_ok :: "'v bs_machine \<Rightarrow> bool" where
  "words_ok b \<longleftrightarrow> 0 < split_count b \<and>
     (\<forall>m\<in>set (bs_matches b). fits (bit_width b) (fst (snd m)) \<and> text_bytes (fst (snd m)) \<noteq> [])"

definition bs_at :: "'v bs_machine \<Rightarrow> nat option list \<Rightarrow> int list \<Rightarrow> bool" where
  "bs_at b st u \<longleftrightarrow> length st = split_count b \<and>
     (\<forall>k < split_count b. located (acsm b ! k) (st ! k) (map (split_bits (split_width b) k) u))"

definition words_ending :: "'v bs_match list \<Rightarrow> int list \<Rightarrow> 'v bs_match set" where
  "words_ending ms u = {m \<in> set ms. suffix (text_bytes (fst (snd m))) u}"

lemma bs_at_start:
  assumes "bs_final b"
  shows "bs_at b (replicate (split_count b) None) []"
  using assms by (auto simp: bs_final_def bs_at_def intro: located_start)

lemma words_ending_split:
  assumes base: "bs_base b" and words: "words_ok b"
    and u: "\<forall>c\<in>set u. 0 \<le> c \<and> c < 2 ^ bit_width b"
  shows "(\<Inter>k < split_count b. (\<lambda>m. snd (snd m)) `
           set (ending (matches (acsm b ! k)) (map (split_bits (split_width b) k) u))) =
         words_ending (bs_matches b) u"
proof -
  let ?w = "split_width b"
  have one: "(\<lambda>m. snd (snd m)) ` set (ending (matches (acsm b ! k)) (map (split_bits ?w k) u)) =
      {m \<in> set (bs_matches b).
         suffix (map (split_bits ?w k) (text_bytes (fst (snd m)))) (map (split_bits ?w k) u)}"
    if "k < split_count b" for k
    using base words that by (force simp: bs_base_def words_ok_def set_ending split_of_def)
  have joint: "(\<forall>k\<in>{..<split_count b}. suffix (map (split_bits ?w k) (text_bytes (fst (snd m))))
      (map (split_bits ?w k) u)) \<longleftrightarrow> suffix (text_bytes (fst (snd m))) u"
    if m: "m \<in> set (bs_matches b)" for m
  proof (rule suffix_map_joint)
    show "{..<split_count b} \<noteq> {}" using words by (auto simp: words_ok_def)
    fix x y
    assume xy: "x \<in> set (text_bytes (fst (snd m)))" "y \<in> set u"
      and eq: "\<And>k. k \<in> {..<split_count b} \<Longrightarrow> split_bits ?w k x = split_bits ?w k y"
    show "x = y"
    proof (rule split_bits_inj [where n = "split_count b" and w = ?w])
      have "0 \<le> x \<and> x < 2 ^ bit_width b" using words m xy(1) by (auto simp: words_ok_def fits_def)
      then show "0 \<le> x" "x < 2 ^ (split_count b * ?w)" using base by (simp_all add: bs_base_def)
      show "0 \<le> y" "y < 2 ^ (split_count b * ?w)" using u xy(2) base by (simp_all add: bs_base_def)
    qed (use eq in simp)
  qed
  have "(\<Inter>k < split_count b. (\<lambda>m. snd (snd m)) `
           set (ending (matches (acsm b ! k)) (map (split_bits ?w k) u))) =
      (\<Inter>k < split_count b. {m \<in> set (bs_matches b).
         suffix (map (split_bits ?w k) (text_bytes (fst (snd m)))) (map (split_bits ?w k) u)})"
    by (rule INF_cong [OF refl]) (rule one, simp)
  also have "\<dots> = {m \<in> set (bs_matches b). \<forall>k\<in>{..<split_count b}.
      suffix (map (split_bits ?w k) (text_bytes (fst (snd m)))) (map (split_bits ?w k) u)}"
    using words by (auto simp: words_ok_def)
  also have "\<dots> = words_ending (bs_matches b) u"
    using joint unfolding words_ending_def by blast
  finally show ?thesis .
qed

lemma bs_step_ok:
  assumes fin: "bs_final b" and words: "words_ok b" and at: "bs_at b st u"
    and u: "\<forall>c\<in>set (u @ [c]). 0 \<le> c \<and> c < 2 ^ bit_width b" and ch: "char_code ch = Inr c"
  shows "\<exists>st'. bs_step b st ch = Some (Inr (b, st', words_ending (bs_matches b) (u @ [c]))) \<and>
     bs_at b st' (u @ [c])"
proof -
  let ?sp = "\<lambda>k. split_bits (split_width b) k"
  let ?us = "map (\<lambda>k. map (?sp k) u) [0..<split_count b]"
  let ?cs = "map (\<lambda>k. ?sp k c) [0..<split_count b]"
  have base: "bs_base b" and len: "length (acsm b) = split_count b"
    using fin by (simp_all add: bs_final_def bs_base_def)
  have ne: "own (matches (acsm b ! k)) [] = []" if "k < split_count b" for k
    using base words that
    by (auto simp: bs_base_def words_ok_def own_def split_of_def filter_empty_conv)
  have loc: "\<forall>k<length (acsm b). located (acsm b ! k) (st ! k) (?us ! k) \<and> own (matches (acsm b ! k)) [] = []"
    using at ne len by (simp add: bs_at_def)
  have lens: "length st = length (acsm b)" "length ?us = length (acsm b)" "length ?cs = length (acsm b)"
    using at len by (simp_all add: bs_at_def)
  from query_split_ok [OF lens loc] obtain st' rs where
    q: "query_split (acsm b) st ?cs = Some (Inr (acsm b, st', rs))" "length st' = length (acsm b)"
      "length rs = length (acsm b)"
      "\<And>k. k < length (acsm b) \<Longrightarrow> located (acsm b ! k) (st' ! k) (?us ! k @ [?cs ! k])"
      "\<And>k. k < length (acsm b) \<Longrightarrow> yielded (rs ! k) = ending (matches (acsm b ! k)) (?us ! k @ [?cs ! k])"
    by blast
  have "rs \<noteq> []" using q(3) len words by (auto simp: words_ok_def)
  then have "common rs = Inr (\<Inter>k < split_count b. (\<lambda>m. snd (snd m)) `
      set (ending (matches (acsm b ! k)) (map (?sp k) (u @ [c]))))"
    using q(3,5) len by (simp add: common_eq)
  also have "\<dots> = Inr (words_ending (bs_matches b) (u @ [c]))"
    using words_ending_split [OF base words u] by simp
  finally have "bs_step b st ch = Some (Inr (b, st', words_ending (bs_matches b) (u @ [c])))"
    using q(1) ch by (simp add: bs_step_def split_char_def)
  moreover have "bs_at b st' (u @ [c])" using q(2,4) len by (simp add: bs_at_def)
  ultimately show ?thesis by blast
qed

lemma bs_query_from_ok:
  assumes fin: "bs_final b" and words: "words_ok b"
  shows "bs_at b st u \<Longrightarrow> \<forall>c\<in>set (u @ cs). 0 \<le> c \<and> c < 2 ^ bit_width b \<Longrightarrow>
     map char_code chs = map Inr cs \<Longrightarrow>
     bs_query_from b st (length u) chs =
       Some (Inr (b, map (\<lambda>k. (\<lambda>m. (int (Suc (length u + k)) - int (text_len (fst (snd m))), m)) `
          words_ending (bs_matches b) (u @ take (Suc k) cs)) [0..<length cs]))"
proof (induction chs arbitrary: st u cs)
  case Nil
  then show ?case by simp
next
  case (Cons ch chs)
  then obtain c cs' where cs: "cs = c # cs'" "char_code ch = Inr c" "map char_code chs = map Inr cs'"
    by (cases cs) auto
  have "\<forall>c\<in>set (u @ [c]). 0 \<le> c \<and> c < 2 ^ bit_width b" using Cons.prems(2) cs(1) by simp
  from bs_step_ok [OF fin words Cons.prems(1) this cs(2)] obtain st' where
    st': "bs_step b st ch = Some (Inr (b, st', words_ending (bs_matches b) (u @ [c])))"
      "bs_at b st' (u @ [c])" by blast
  have "bs_query_from b st' (Suc (length u)) chs =
      Some (Inr (b, map (\<lambda>k. (\<lambda>m. (int (Suc (Suc (length u) + k)) - int (text_len (fst (snd m))), m)) `
          words_ending (bs_matches b) (u @ take (Suc (Suc k)) cs)) [0..<length cs']))"
    using Cons.IH [OF st'(2) _ cs(3)] Cons.prems(2) cs(1) by simp
  then show ?case
    using st'(1) cs(1)
    by (simp add: upt_conv_Cons map_Suc_upt [symmetric] comp_def del: upt_Suc take_Suc_Cons)
      (simp add: algebra_simps)
qed

lemma char_codes_plain: "plain_text t \<Longrightarrow> map char_code (text_chars t) = map Inr (text_bytes t)"
  by (cases t) (simp_all add: utf8_char_def)

text \<open>What a search must report for every character: the words that end with it.\<close>

definition words_found :: "'v bs_match list \<Rightarrow> py_text \<Rightarrow> (int \<times> 'v bs_match) set list" where
  "words_found ms s = map (\<lambda>i. {(int j, m) | j m. m \<in> set ms \<and> j \<le> i \<and>
       text_bytes (fst (snd m)) = drop j (take (Suc i) (text_bytes s))}) [0..<text_len s]"

lemma words_found_ending:
  assumes "\<forall>m\<in>set ms. text_bytes (fst (snd m)) \<noteq> []"
  shows "words_found ms s =
     map (\<lambda>i. (\<lambda>m. (int (Suc i) - int (text_len (fst (snd m))), m)) `
       words_ending ms (take (Suc i) (text_bytes s))) [0..<text_len s]"
proof -
  let ?t = "\<lambda>i. take (Suc i) (text_bytes s)"
  have eq: "(\<exists>j. a = int j \<and> j \<le> i \<and> text_bytes (fst (snd m)) = drop j (?t i)) \<longleftrightarrow>
      suffix (text_bytes (fst (snd m))) (?t i) \<and> a = int (Suc i) - int (text_len (fst (snd m)))"
    if m: "m \<in> set ms" and i: "i < text_len s" for a m i
  proof
    assume "\<exists>j. a = int j \<and> j \<le> i \<and> text_bytes (fst (snd m)) = drop j (?t i)"
    then obtain j where j: "a = int j" "j \<le> i" "text_bytes (fst (snd m)) = drop j (?t i)" by blast
    have "text_len (fst (snd m)) = Suc i - j" using arg_cong [OF j(3), of length] i by simp
    then show "suffix (text_bytes (fst (snd m))) (?t i) \<and> a = int (Suc i) - int (text_len (fst (snd m)))"
      using j by (simp add: suffix_drop)
  next
    assume s: "suffix (text_bytes (fst (snd m))) (?t i) \<and> a = int (Suc i) - int (text_len (fst (snd m)))"
    then obtain zs where zs: "?t i = zs @ text_bytes (fst (snd m))" by (auto simp: suffix_def)
    have "length zs + text_len (fst (snd m)) = Suc i" using arg_cong [OF zs, of length] i by simp
    moreover have "0 < text_len (fst (snd m))"
      using assms m by (metis length_greater_0_conv length_text_bytes)
    ultimately show "\<exists>j. a = int j \<and> j \<le> i \<and> text_bytes (fst (snd m)) = drop j (?t i)"
      using s zs by (intro exI [of _ "length zs"]) auto
  qed
  show ?thesis
    unfolding words_found_def words_ending_def
  proof (rule map_cong [OF refl])
    fix i
    assume "i \<in> set [0..<text_len s]"
    then have i: "i < text_len s" by simp
    show "{(int j, m) | j m. m \<in> set ms \<and> j \<le> i \<and> text_bytes (fst (snd m)) = drop j (?t i)} =
        (\<lambda>m. (int (Suc i) - int (text_len (fst (snd m))), m)) `
          {m \<in> set ms. suffix (text_bytes (fst (snd m))) (?t i)}"
      using eq [OF _ i] by (fastforce simp: image_iff)
  qed
qed

lemma bs_query_ok:
  assumes fin: "bs_final b" and words: "words_ok b" and s: "fits (bit_width b) s"
  shows "bs_query b s = Some (Inr (b, words_found (bs_matches b) s))"
proof -
  have "\<forall>m\<in>set (bs_matches b). text_bytes (fst (snd m)) \<noteq> []"
    using words by (simp add: words_ok_def)
  note found = words_found_ending [OF this, of s]
  have "\<forall>c\<in>set ([] @ text_bytes s). 0 \<le> c \<and> c < 2 ^ bit_width b" "plain_text s"
    using s by (simp_all add: fits_def)
  from bs_query_from_ok [OF fin words bs_at_start [OF fin] this(1) char_codes_plain [OF this(2)]]
  show ?thesis using fin by (simp add: bs_query_def bs_final_def found)
qed

lemma enumerate_snd: "m \<in> set (enumerate k xs) \<Longrightarrow> snd m \<in> set xs"
  by (metis in_set_zip enumerate_eq_zip snd_conv nth_mem prod.collapse)

lemma words_okI:
  assumes "bs_final b" and "bs_matches b = enumerate k ws" and "0 < bit_width b"
    and "\<forall>(w, _)\<in>set ws. fits (bit_width b) w \<and> 0 < text_len w"
  shows "words_ok b"
  unfolding words_ok_def
proof (intro conjI ballI)
  show "0 < split_count b" using assms(1,3) by (cases "split_count b") (auto simp: bs_final_def bs_base_def)
  fix m
  assume "m \<in> set (bs_matches b)"
  then have "snd m \<in> set ws" using enumerate_snd assms(2) by metis
  then show "fits (bit_width b) (fst (snd m))" "text_bytes (fst (snd m)) \<noteq> []"
    using assms(4) by (auto simp flip: length_greater_0_conv simp: case_prod_beta)
qed

text \<open>C4. A bit-split machine of any width that is built from non-empty words of one-byte
  characters finds, at every character of a text, exactly the words that end there, whatever
  the split width is.\<close>

theorem bitsplit_query_correct:
  assumes "new_bs bw sw = Inr b0" and "0 < bw"
    and "bs_add_words b0 lst none = Inr b"
    and "\<forall>(w, _)\<in>set (word_values lst none). fits bw w \<and> 0 < text_len w" and "fits bw s"
  shows "\<exists>b'. bs_query b s = Some (Inr (b', words_found (enumerate 0 (word_values lst none)) s))"
proof -
  note b0 = new_bs_ok [OF assms(1)]
  have "\<forall>(w, _)\<in>set (word_values lst none). plain_text w"
    using assms(4) by (auto simp: fits_def)
  from bs_add_words_ok [OF b0(1) this] assms(3) b0(2-4) have
    b: "bs_ok b" "bit_width b = bw" "bs_matches b = enumerate 0 (word_values lst none)"
    by auto
  from bs_finalize_ok [OF b(1)] b obtain b' where b': "bs_finalize b = Some b'" "bs_final b'"
    "bit_width b' = bw" "bs_matches b' = enumerate 0 (word_values lst none)"
    by auto
  have "words_ok b'"
    using words_okI [OF b'(2)] b'(3,4) assms(2,4) by simp
  from bs_query_ok [OF b'(2) this] assms(5) b'(3,4) have
    "bs_query b' s = Some (Inr (b', words_found (enumerate 0 (word_values lst none)) s))"
    by simp
  then show ?thesis
    using b(1) b'(1,2) by (auto simp: bs_query_def bs_ok_def bs_final_def)
qed

theorem bitsplit_query_correct_witness:
  "\<exists>b0 b b'. new_bs 8 2 = Inr b0 \<and> bs_add_words b0 [Word (Bytes [7, 200]), Word (Bytes [200])] ''x'' = Inr b \<and>
     bs_query b (Bytes [200, 7, 200]) =
       Some (Inr (b', words_found [(0, Bytes [7, 200], ''x''), (1, Bytes [200], ''x'')] (Bytes [200, 7, 200])))"
proof -
  let ?l = "[Word (Bytes [7, 200]), Word (Bytes [200])]"
  obtain b0 :: "string bs_machine" where b0: "new_bs 8 2 = Inr b0" by (simp add: new_bs_def Let_def)
  have "\<forall>(w, _)\<in>set (word_values ?l ''x''). plain_text w" by simp
  from bs_add_words_ok [OF new_bs_ok(1) [OF b0] this] obtain b where
    b: "bs_add_words b0 ?l ''x'' = Inr b" by blast
  have fit: "\<forall>(w, _)\<in>set (word_values ?l ''x''). fits 8 w \<and> 0 < text_len w"
    "fits 8 (Bytes [200, 7, 200])" by (simp_all add: fits_def)
  have e: "enumerate 0 (word_values ?l ''x'') = [(0, Bytes [7, 200], ''x''), (1, Bytes [200], ''x'')]"
    by simp
  from bitsplit_query_correct [OF b0 _ b fit] obtain b' where
    "bs_query b (Bytes [200, 7, 200]) =
       Some (Inr (b', words_found [(0, Bytes [7, 200], ''x''), (1, Bytes [200], ''x'')] (Bytes [200, 7, 200])))"
    unfolding e by auto
  with b0 b show ?thesis by blast
qed

end
