(* ===== verification/SME_Group.thy ===== *)
theory SME_Group
  imports SME_BitSplit_Correct
begin

text \<open>
  The class \<open>BitSplitStateMachineGroup\<close> of \<open>sme_rulecompiler.py\<close>: the words are distributed
  over several bit-split machines by a search for the largest slice whose machines stay
  within the limits on matches and states. Limits are non-negative; as in the code, a limit
  of 0 counts as no limit.
\<close>

section \<open>The group and its words\<close>

record 'v bs_group =
  g_bit_width :: nat
  g_split_width :: nat
  g_split_count :: nat
  max_matches :: "nat option"
  max_states :: "nat option"
  g_matches :: "'v bs_match list"
  g_finalized :: bool
  bssm :: "'v bs_match bs_machine list"

definition new_group :: "nat \<Rightarrow> nat \<Rightarrow> nat option \<Rightarrow> nat option \<Rightarrow> py_error + 'v bs_group" where
  "new_group bw sw mm ms =
     (if sw = 0 then Inl ZeroDivisionError
      else let sc = bw div sw
        in if sc * sw \<noteq> bw then Inl AssertionError
           else Inr \<lparr>g_bit_width = bw, g_split_width = sw, g_split_count = sc, max_matches = mm,
                     max_states = ms, g_matches = [], g_finalized = False, bssm = []\<rparr>)"

definition g_add_word ::
  "'v bs_group \<Rightarrow> (py_text, 'v) word_arg \<Rightarrow> 'v \<Rightarrow> py_error + 'v bs_group" where
  "g_add_word g arg value =
     (if g_finalized g then Inl AlreadyFinalized
      else
        (case unpack_word arg value of (word, value) \<Rightarrow>
           Inr (g\<lparr>g_matches := g_matches g @ [(length (g_matches g), word, value)]\<rparr>)))"

fun g_add_words ::
  "'v bs_group \<Rightarrow> (py_text, 'v) word_arg list \<Rightarrow> 'v \<Rightarrow> py_error + 'v bs_group" where
  "g_add_words g [] none = Inr g"
| "g_add_words g (word # lst) none =
     try_bind (g_add_word g word none) (\<lambda>g'. g_add_words g' lst none)"

section \<open>Partitioning\<close>

text \<open>A limit as the condition \<open>if self.max_states\<close> reads it.\<close>

definition limit :: "nat option \<Rightarrow> int option" where
  "limit l = (case l of None \<Rightarrow> None | Some n \<Rightarrow> if n = 0 then None else Some (int n))"

text \<open>The machine for a slice of the matches; every word carries its match tuple as its value.\<close>

fun add_matches ::
  "'v bs_match bs_machine \<Rightarrow> 'v bs_match list \<Rightarrow> py_error + 'v bs_match bs_machine" where
  "add_matches b [] = Inr b"
| "add_matches b (m # ms) =
     try_bind (bs_add_word b (Word (fst (snd m))) m) (\<lambda>b'. add_matches b' ms)"

definition build_part :: "'v bs_group \<Rightarrow> 'v bs_match list \<Rightarrow> 'v bs_match bs_machine run" where
  "build_part g ms =
     run_bind (Some (new_bs (g_bit_width g) (g_split_width g))) (\<lambda>b.
     run_bind (Some (add_matches b ms)) (\<lambda>b'. run_option (bs_finalize b')))"

definition max_state_count :: "'v bs_machine \<Rightarrow> py_error + nat" where
  "max_state_count b =
     (if acsm b = [] then Inl ValueError
      else Inr (Max (set (map (\<lambda>sm. length (states sm)) (acsm b)))))"

definition slice :: "'a list \<Rightarrow> int \<Rightarrow> int \<Rightarrow> 'a list" where
  "slice xs i j = drop (nat i) (take (nat j) xs)"

partial_function (option) part_loop ::
  "'v bs_group \<Rightarrow> 'v bs_match bs_machine list \<Rightarrow> int \<Rightarrow> int \<Rightarrow> int \<Rightarrow>
   'v bs_match bs_machine list run" where
  "part_loop g bs offset low high =
     (if \<not> 0 < high then run_return bs
      else
        let high = (case limit (max_matches g) of None \<Rightarrow> high | Some n \<Rightarrow> min high n);
            mid = (case limit (max_states g) of None \<Rightarrow> high | Some _ \<Rightarrow> (high + low) div 2)
        in run_bind (build_part g (slice (g_matches g) offset (offset + mid))) (\<lambda>b.
           case limit (max_states g) of
             None \<Rightarrow>
               part_loop g (bs @ [b]) (offset + mid) 0 (int (length (g_matches g)) - (offset + mid))
           | Some n \<Rightarrow>
               run_bind (Some (max_state_count b)) (\<lambda>c.
                 if n < int c
                 then (if mid - 1 \<le> 0 then run_raise PartitioningFailed
                       else if low \<le> mid - 1 then part_loop g bs offset low (mid - 1)
                       else part_loop g bs offset (mid - 2) (mid - 1))
                 else if int c < n \<and> mid + 1 \<le> high then part_loop g bs offset (mid + 1) high
                 else if \<not> int c \<le> n then run_raise AssertionError
                 else part_loop g (bs @ [b]) (offset + mid) 0
                        (int (length (g_matches g)) - (offset + mid)))))"

declare part_loop.simps [code]

definition g_finalize :: "'v bs_group \<Rightarrow> 'v bs_group run" where
  "g_finalize g =
     (if g_finalized g then run_return g
      else run_bind (part_loop g (bssm g) 0 0 (int (length (g_matches g)))) (\<lambda>bs.
             run_return (g\<lparr>bssm := bs, g_finalized := True\<rparr>)))"

section \<open>Searching\<close>

text \<open>
  One character: every machine of the group takes a step. The yields are kept apart by
  machine because each of them is the list of a Python set.
\<close>

fun g_step ::
  "'v bs_match bs_machine list \<Rightarrow> nat option list option list \<Rightarrow> char_arg \<Rightarrow>
   ('v bs_match bs_machine list \<times> nat option list option list \<times> 'v bs_match set list) run" where
  "g_step (b # bs) (st # sts) ch =
     run_bind (bs_query_char b st ch) (\<lambda>(b', st', match).
     run_bind (g_step bs sts ch) (\<lambda>(bs', sts', ys).
       run_return (b' # bs', Some st' # sts', (\<lambda>item. snd (snd item)) ` match # ys)))"
| "g_step _ _ ch = run_return ([], [], [])"

fun g_query_from ::
  "'v bs_match bs_machine list \<Rightarrow> nat option list option list \<Rightarrow> nat \<Rightarrow> char_arg list \<Rightarrow>
   ('v bs_match bs_machine list \<times> (int \<times> 'v bs_match) set list list) run" where
  "g_query_from bs sts i [] = run_return (bs, [])"
| "g_query_from bs sts i (ch # chs) =
     run_bind (g_step bs sts ch) (\<lambda>(bs', sts', match).
     run_bind (g_query_from bs' sts' (Suc i) chs) (\<lambda>(bs'', ys).
       run_return (bs'',
         map (\<lambda>s. (\<lambda>m. (int i - int (text_len (fst (snd m))) + 1, m)) ` s) match # ys)))"

definition g_query ::
  "'v bs_group \<Rightarrow> py_text \<Rightarrow> ('v bs_group \<times> (int \<times> 'v bs_match) set list list) run" where
  "g_query g s =
     run_bind (if g_finalized g then run_return g else g_finalize g) (\<lambda>g'.
     run_bind (g_query_from (bssm g') (replicate (length (bssm g')) None) 0 (text_chars s)) (\<lambda>(bs, ys).
       run_return (g'\<lparr>bssm := bs\<rparr>, ys)))"

end
