(* ===== verification/SME_Group_Correct.thy ===== *)
theory SME_Group_Correct
  imports SME_Group
begin

text \<open>
  Correctness of the partition of the words over bit-split machines: the search ends unless
  the limit on states is 1, the slices it keeps make up the list of words, respect both
  limits, and it gives up exactly when a single word needs too many states.
\<close>

section \<open>Number of states\<close>

lemma final_ok_states:
  assumes "final_ok lab m"
  shows "length (states m) = card {p. is_path (matches m) p}"
proof -
  have st: "distinct (states m)" "set (states m) = {..<length (heap m)}"
    using assms by (simp_all add: final_ok_def)
  have "bij_betw lab {..<length (heap m)} (Collect (is_path (matches m)))"
    using final_okD(2) [OF assms] by (simp add: shape_ok_def labels_def bij_betw_def)
  then have "card {p. is_path (matches m) p} = card (set (states m))"
    using st(2) bij_betw_same_card by fastforce
  then show ?thesis using st(1) by (simp add: distinct_card)
qed

lemma card_prefixes: "card {p. prefix p w} = Suc (length w)"
proof -
  have "{p. prefix p w} = set (prefixes w)" by (auto simp: in_set_prefixes)
  then show ?thesis by (simp add: distinct_card)
qed

lemma is_path_words: "{p. is_path ms p} = insert [] (\<Union>m\<in>set ms. {p. prefix p (fst (snd m))})"
  by (auto simp: is_path_def list_ex_iff)

lemma finite_paths: "finite {p. is_path ms p}"
proof -
  have "finite {p. prefix p w}" for w :: "'a list"
    using card_prefixes [of w] by (intro card_ge_0_finite) simp
  then show ?thesis by (simp add: is_path_words)
qed

lemma card_paths_Nil: "card {p. is_path [] p} = 1"
  by (simp add: is_path_words)

lemma card_paths_single: "card {p. is_path [m] p} = Suc (length (fst (snd m)))"
proof -
  have "{p. is_path [m] p} = {p. prefix p (fst (snd m))}" by (auto simp: is_path_words)
  then show ?thesis by (simp only: card_prefixes)
qed

lemma card_paths_ge: "m \<in> set ms \<Longrightarrow> Suc (length (fst (snd m))) \<le> card {p. is_path ms p}"
  unfolding card_prefixes [symmetric]
  by (rule card_mono [OF finite_paths]) (auto simp: is_path_def list_ex_iff)

text \<open>The state count of a finalized bit-split machine that has at least one split.\<close>

lemma state_count_split:
  assumes "bs_final b" and "k < split_count b"
  shows "length (states (acsm b ! k)) = card {p. is_path (map (split_of (split_width b) k) (bs_matches b)) p}"
proof -
  from assms obtain lab where "final_ok lab (acsm b ! k)" by (auto simp: bs_final_def)
  from final_ok_states [OF this] show ?thesis using assms by (simp add: bs_final_def bs_base_def)
qed

lemma max_state_countE:
  assumes "bs_final b" and "0 < split_count b"
  obtains c k where "max_state_count b = Inr c" "k < split_count b"
    "c = card {p. is_path (map (split_of (split_width b) k) (bs_matches b)) p}"
    "\<And>k. k < split_count b \<Longrightarrow> length (states (acsm b ! k)) \<le> c"
proof -
  let ?A = "set (map (\<lambda>sm. length (states sm)) (acsm b))"
  have len: "length (acsm b) = split_count b" using assms(1) by (simp add: bs_final_def bs_base_def)
  then have ne: "acsm b \<noteq> []" using assms(2) by auto
  then have "Max ?A \<in> ?A" by (intro Max_in) auto
  then obtain k where k: "k < split_count b" "Max ?A = length (states (acsm b ! k))"
    using len by (auto simp: in_set_conv_nth)
  have "length (states (acsm b ! j)) \<le> Max ?A" if "j < split_count b" for j
    using that len by (intro Max_ge) auto
  with k ne show thesis
    using state_count_split [OF assms(1) k(1)] by (intro that [of "Max ?A" k]) (simp_all add: max_state_count_def)
qed

lemma max_state_count_bounds:
  assumes "bs_final b" and "0 < split_count b" and "max_state_count b = Inr c"
  shows "bs_matches b = [] \<Longrightarrow> c = 1"
    and "bs_matches b = [m] \<Longrightarrow> c = Suc (text_len (fst (snd m)))"
    and "m \<in> set (bs_matches b) \<Longrightarrow> Suc (text_len (fst (snd m))) \<le> c"
    and "k < split_count b \<Longrightarrow> length (states (acsm b ! k)) \<le> c"
proof -
  from max_state_countE [OF assms(1,2)] assms(3) obtain j where k: "j < split_count b"
    "c = card {p. is_path (map (split_of (split_width b) j) (bs_matches b)) p}"
    and le: "\<And>k. k < split_count b \<Longrightarrow> length (states (acsm b ! k)) \<le> c"
    by (metis sum.inject(2))
  show "bs_matches b = [] \<Longrightarrow> c = 1" using k(2) by (simp add: card_paths_Nil)
  show "bs_matches b = [m] \<Longrightarrow> c = Suc (text_len (fst (snd m)))"
    using k(2) by (simp add: card_paths_single split_of_def)
  show "m \<in> set (bs_matches b) \<Longrightarrow> Suc (text_len (fst (snd m))) \<le> c"
    using k(2) card_paths_ge [of "split_of (split_width b) j m" "map (split_of (split_width b) j) (bs_matches b)"]
    by (simp add: split_of_def)
  show "k < split_count b \<Longrightarrow> length (states (acsm b ! k)) \<le> c" by (rule le)
qed

section \<open>One slice\<close>

lemma add_matches_ok:
  assumes "bs_ok b" and "\<forall>m\<in>set ms. plain_text (fst (snd m))"
  shows "\<exists>b'. add_matches b ms = Inr b' \<and> bs_ok b' \<and> bit_width b' = bit_width b \<and>
     split_width b' = split_width b \<and>
     bs_matches b' = bs_matches b @ enumerate (length (bs_matches b)) (map (\<lambda>m. (fst (snd m), m)) ms)"
  using assms
proof (induction ms arbitrary: b)
  case (Cons m ms)
  have "plain_text (fst (unpack_word (Word (fst (snd m))) m))" using Cons.prems(2) by simp
  from bs_add_word_ok [OF Cons.prems(1) this] obtain b1 where
    b1: "bs_add_word b (Word (fst (snd m))) m = Inr b1" "bs_ok b1" "bit_width b1 = bit_width b"
      "split_width b1 = split_width b"
      "bs_matches b1 = bs_matches b @ [(length (bs_matches b), fst (snd m), m)]"
    by auto
  from Cons.IH [OF b1(2)] Cons.prems(2) b1 show ?case by auto
qed simp

text \<open>A group as the constructor leaves it, with words of one-byte characters.\<close>

definition group_ok :: "'v bs_group \<Rightarrow> bool" where
  "group_ok g \<longleftrightarrow> 0 < g_split_width g \<and> 0 < g_bit_width g \<and>
     g_split_count g * g_split_width g = g_bit_width g \<and>
     (\<forall>m\<in>set (g_matches g). plain_text (fst (snd m)))"

definition part_of :: "'v bs_group \<Rightarrow> 'v bs_match list \<Rightarrow> 'v bs_match bs_machine \<Rightarrow> bool" where
  "part_of g ms b \<longleftrightarrow> bs_final b \<and> bit_width b = g_bit_width g \<and> split_width b = g_split_width g \<and>
     0 < split_count b \<and> bs_matches b = enumerate 0 (map (\<lambda>m. (fst (snd m), m)) ms)"

lemma build_part_ok:
  fixes g :: "'v bs_group"
  assumes g: "group_ok g" and ms: "set ms \<subseteq> set (g_matches g)"
  shows "\<exists>b. build_part g ms = Some (Inr b) \<and> part_of g ms b"
proof -
  have bw: "g_bit_width g div g_split_width g * g_split_width g = g_bit_width g"
    using g unfolding group_ok_def by (metis nonzero_mult_div_cancel_right less_numeral_extra(3))
  then obtain b0 :: "'v bs_match bs_machine" where b0: "new_bs (g_bit_width g) (g_split_width g) = Inr b0"
    using g by (simp add: new_bs_def group_ok_def Let_def)
  note n = new_bs_ok [OF b0]
  have "\<forall>m\<in>set ms. plain_text (fst (snd m))" using g ms by (auto simp: group_ok_def)
  from add_matches_ok [OF n(1) this] n(2-4) obtain b1 where b1: "add_matches b0 ms = Inr b1" "bs_ok b1"
    "bit_width b1 = g_bit_width g" "split_width b1 = g_split_width g"
    "bs_matches b1 = enumerate 0 (map (\<lambda>m. (fst (snd m), m)) ms)"
    by auto
  from bs_finalize_ok [OF b1(2)] b1(3-5) obtain b where b: "bs_finalize b1 = Some b" "bs_final b"
    "bit_width b = g_bit_width g" "split_width b = g_split_width g"
    "bs_matches b = enumerate 0 (map (\<lambda>m. (fst (snd m), m)) ms)"
    by auto
  have "0 < split_count b"
    using b(2-4) g by (cases "split_count b") (auto simp: bs_final_def bs_base_def group_ok_def)
  then show ?thesis using b0 b1(1) b by (auto simp: build_part_def part_of_def)
qed

lemma part_of_values:
  assumes "part_of g ms b"
  shows "map (\<lambda>m. snd (snd m)) (bs_matches b) = ms"
proof -
  have "map (\<lambda>m. snd (snd m)) (enumerate k (map (\<lambda>m. (fst (snd m), m)) ms)) = ms" for k
    by (induction ms arbitrary: k) auto
  then show ?thesis using assms by (simp add: part_of_def)
qed

lemma part_of_count:
  assumes part: "part_of g ms b"
  obtains c where "max_state_count b = Inr c" "ms = [] \<Longrightarrow> c = 1"
    "\<And>m. ms = [m] \<Longrightarrow> c = Suc (text_len (fst (snd m)))"
    "\<And>m. m \<in> set ms \<Longrightarrow> Suc (text_len (fst (snd m))) \<le> c"
proof -
  from part have b: "bs_final b" "0 < split_count b"
    "bs_matches b = enumerate 0 (map (\<lambda>m. (fst (snd m), m)) ms)"
    by (simp_all add: part_of_def)
  from max_state_countE [OF b(1,2)] obtain c where c: "max_state_count b = Inr c" by metis
  note bd = max_state_count_bounds [OF b(1,2) c]
  show thesis
  proof (rule that [OF c])
    show "ms = [] \<Longrightarrow> c = 1" using bd(1) b(3) by simp
    show "\<And>m. ms = [m] \<Longrightarrow> c = Suc (text_len (fst (snd m)))" using bd(2) b(3) by simp
    fix m assume m: "m \<in> set ms"
    have "(\<lambda>m. snd (snd m)) ` set (bs_matches b) = set ms"
      using arg_cong [OF part_of_values [OF part], of set] by simp
    with m have "m \<in> (\<lambda>m. snd (snd m)) ` set (bs_matches b)" by (simp only:)
    then obtain x where x: "x \<in> set (bs_matches b)" "snd (snd x) = m" by auto
    have "snd x \<in> set (map (\<lambda>m. (fst (snd m), m)) ms)"
      using x(1) unfolding b(3) by (rule enumerate_snd)
    then have "fst (snd x) = fst (snd m)" using x(2) by auto
    then show "Suc (text_len (fst (snd m))) \<le> c" using bd(3) [OF x(1)] by simp
  qed
qed

section \<open>The search\<close>

definition within :: "int option \<Rightarrow> nat \<Rightarrow> bool" where
  "within l k \<longleftrightarrow> (case l of None \<Rightarrow> True | Some n \<Rightarrow> int k \<le> n)"

definition part_values :: "'v bs_match bs_machine \<Rightarrow> 'v bs_match list" where
  "part_values b = map (\<lambda>m. snd (snd m)) (bs_matches b)"

definition good_part :: "'v bs_group \<Rightarrow> 'v bs_match bs_machine \<Rightarrow> bool" where
  "good_part g b \<longleftrightarrow> part_of g (part_values b) b \<and> part_values b \<noteq> [] \<and>
     within (limit (max_matches g)) (length (part_values b)) \<and>
     (\<forall>k < split_count b. within (limit (max_states g)) (length (states (acsm b ! k))))"

definition too_long :: "'v bs_group \<Rightarrow> 'v bs_match \<Rightarrow> bool" where
  "too_long g m \<longleftrightarrow> \<not> within (limit (max_states g)) (Suc (text_len (fst (snd m))))"

definition outcome ::
  "'v bs_group \<Rightarrow> 'v bs_match bs_machine list \<Rightarrow> int \<Rightarrow> py_error + 'v bs_match bs_machine list \<Rightarrow> bool"
where
  "outcome g bs offset r \<longleftrightarrow>
     (case r of
        Inl e \<Rightarrow> e = PartitioningFailed \<and> (\<exists>m\<in>set (g_matches g). too_long g m)
      | Inr bs' \<Rightarrow> \<exists>new. bs' = bs @ new \<and> concat (map part_values new) = drop (nat offset) (g_matches g) \<and>
          (\<forall>b\<in>set new. good_part g b))"

lemma limit_pos: "limit l = Some n \<Longrightarrow> 0 < n"
  by (auto simp: limit_def split: option.splits if_splits)

lemma outcome_append:
  assumes b: "part_of g (slice (g_matches g) offset (offset + mid)) b"
    and off: "0 \<le> offset" "0 < mid" "offset + mid \<le> int (length (g_matches g))"
    and mm: "within (limit (max_matches g)) (nat mid)"
    and st: "\<And>n c. limit (max_states g) = Some n \<Longrightarrow> max_state_count b = Inr c \<Longrightarrow> int c \<le> n"
    and r: "outcome g (bs @ [b]) (offset + mid) r"
  shows "outcome g bs offset r"
proof (cases r)
  case (Inl e)
  then show ?thesis using r by (simp add: outcome_def)
next
  case (Inr bs')
  let ?ms = "slice (g_matches g) offset (offset + mid)"
  from r Inr obtain new where new: "bs' = bs @ b # new"
    "concat (map part_values new) = drop (nat (offset + mid)) (g_matches g)"
    "\<forall>b\<in>set new. good_part g b"
    by (auto simp: outcome_def)
  have v: "part_values b = ?ms" using part_of_values [OF b] by (simp add: part_values_def)
  have "length ?ms = nat mid" using off by (simp add: slice_def)
  then have len: "?ms \<noteq> []" "length ?ms = nat mid" using off(2) by auto
  have "within (limit (max_states g)) (length (states (acsm b ! k)))" if "k < split_count b" for k
  proof (cases "limit (max_states g)")
    case (Some n)
    from b have fin: "bs_final b" "0 < split_count b" by (simp_all add: part_of_def)
    from max_state_countE [OF fin] obtain c where c: "max_state_count b = Inr c" by metis
    then have "int c \<le> n" "length (states (acsm b ! k)) \<le> c"
      using st [OF Some] max_state_count_bounds(4) [OF fin c that] by auto
    then show ?thesis using Some by (simp add: within_def)
  qed (simp add: within_def)
  then have good: "good_part g b" using b v len mm by (simp add: good_part_def)
  have "drop (nat offset) (g_matches g) = ?ms @ drop (nat (offset + mid)) (g_matches g)"
    using off by (simp add: slice_def nat_add_distrib flip: drop_drop take_drop)
      (metis append_take_drop_id drop_drop take_drop add.commute)
  then have "concat (map part_values (b # new)) = drop (nat offset) (g_matches g)"
    using new(2) v by simp
  then show ?thesis
    using Inr new good unfolding outcome_def
    by (auto intro!: exI [of _ "b # new"])
qed

lemma outcome_fail:
  assumes b: "part_of g (slice (g_matches g) offset (offset + mid)) b"
    and off: "0 \<le> offset" "0 \<le> mid" "mid \<le> 1" "offset + mid \<le> int (length (g_matches g))"
    and n: "limit (max_states g) = Some n" "max_state_count b = Inr c" "n < int c"
  shows "outcome g bs offset (Inl PartitioningFailed)"
proof -
  let ?ms = "slice (g_matches g) offset (offset + mid)"
  from part_of_count [OF b] n(2) obtain
    c: "?ms = [] \<Longrightarrow> c = 1" "\<And>m. ?ms = [m] \<Longrightarrow> c = Suc (text_len (fst (snd m)))"
    by (metis sum.inject(2))
  have len: "length ?ms = nat mid" using off by (simp add: slice_def)
  have "?ms \<noteq> []" using c(1) n(3) limit_pos [OF n(1)] by auto
  then have "length ?ms = 1" using len off(3) by (cases ?ms) auto
  then obtain m where m: "?ms = [m]" by (cases ?ms) auto
  have "m \<in> set ?ms" using m by simp
  then have "m \<in> set (g_matches g)" unfolding slice_def by (meson in_set_dropD in_set_takeD)
  moreover have "too_long g m" using c(2) [OF m] n(1,3) by (simp add: too_long_def within_def)
  ultimately show ?thesis by (auto simp: outcome_def)
qed

definition search_inv :: "'v bs_group \<Rightarrow> int \<Rightarrow> int \<Rightarrow> int \<Rightarrow> bool" where
  "search_inv g offset low high \<longleftrightarrow> 0 \<le> offset \<and> 0 \<le> low \<and> low \<le> high \<and>
     within (limit (max_matches g)) (nat low) \<and>
     offset + high \<le> int (length (g_matches g)) \<and>
     (high = 0 \<longrightarrow> offset = int (length (g_matches g)))"

definition capped :: "'v bs_group \<Rightarrow> int \<Rightarrow> int" where
  "capped g high = (case limit (max_matches g) of None \<Rightarrow> high | Some n \<Rightarrow> min high n)"

lemma capped_bounds:
  assumes "search_inv g offset low high" and "0 < high"
  shows "0 < capped g high" "low \<le> capped g high" "capped g high \<le> high"
    "0 \<le> k \<Longrightarrow> k \<le> capped g high \<Longrightarrow> within (limit (max_matches g)) (nat k)"
  using assms limit_pos [of "max_matches g"]
  by (auto simp: search_inv_def capped_def within_def split: option.splits)

lemma search_inv_shrink:
  assumes "search_inv g offset low high" and "0 < high"
    and "0 \<le> low'" "low' \<le> high'" "0 < high'" "high' \<le> capped g high"
  shows "search_inv g offset low' high'"
  using assms capped_bounds [OF assms(1,2)] by (auto simp: search_inv_def)

lemma search_inv_next:
  assumes "search_inv g offset low high" and "0 < high" and "0 \<le> mid" "mid \<le> high"
  shows "search_inv g (offset + mid) 0 (int (length (g_matches g)) - (offset + mid))"
  using assms limit_pos [of "max_matches g"]
  by (auto simp: search_inv_def within_def split: option.splits)

text \<open>One round of the search, with its result bound to the machine built for the slice.\<close>

lemma part_loop_round:
  assumes "0 < high"
    and "build_part g (slice (g_matches g) offset (offset + mid)) = Some (Inr b)"
    and "mid = (case limit (max_states g) of None \<Rightarrow> capped g high | Some _ \<Rightarrow> (capped g high + low) div 2)"
    and "max_state_count b = Inr c"
  shows "part_loop g bs offset low high =
    (case limit (max_states g) of
       None \<Rightarrow> part_loop g (bs @ [b]) (offset + mid) 0 (int (length (g_matches g)) - (offset + mid))
     | Some n \<Rightarrow>
         if n < int c
         then (if mid \<le> 1 then Some (Inl PartitioningFailed)
               else if low \<le> mid - 1 then part_loop g bs offset low (mid - 1)
               else part_loop g bs offset (mid - 2) (mid - 1))
         else if int c < n \<and> mid < capped g high then part_loop g bs offset (mid + 1) (capped g high)
         else part_loop g (bs @ [b]) (offset + mid) 0 (int (length (g_matches g)) - (offset + mid)))"
proof -
  note eq = part_loop.simps [of g bs offset low high, unfolded Let_def, folded capped_def, folded assms(3)]
  show ?thesis
    by (subst eq, unfold assms(2)) (cases "limit (max_states g)"; simp add: assms(1,4))
qed

definition search_order :: "((nat \<times> nat \<times> nat) \<times> (nat \<times> nat \<times> nat)) set" where
  "search_order = less_than <*lex*> less_than <*lex*> less_than"

definition search_rank :: "'v bs_group \<Rightarrow> int \<Rightarrow> int \<Rightarrow> int \<Rightarrow> nat \<times> nat \<times> nat" where
  "search_rank g offset low high =
     (nat (int (length (g_matches g)) - offset), nat high, nat (high - low))"

lemma wf_search_order: "wf search_order"
  by (auto simp: search_order_def)

lemma part_loop_ok:
  assumes g: "group_ok g" and not1: "limit (max_states g) \<noteq> Some 1"
  shows "search_inv g offset low high \<Longrightarrow>
    \<exists>r. part_loop g bs offset low high = Some r \<and> outcome g bs offset r"
proof (induction "search_rank g offset low high" arbitrary: bs offset low high rule: wf_induct_rule [OF wf_search_order])
  case 1
  note inv = 1(2)
  have IH: "\<exists>r. part_loop g bs' offset' low' high' = Some r \<and> outcome g bs' offset' r"
    if "search_inv g offset' low' high'"
      "(search_rank g offset' low' high', search_rank g offset low high) \<in> search_order"
    for bs' offset' low' high'
    using 1(1) [OF that(2) that(1)] .
  show ?case
  proof (cases "0 < high")
    case False
    then have "offset = int (length (g_matches g))" using inv by (simp add: search_inv_def)
    then show ?thesis using False by (subst part_loop.simps) (simp add: outcome_def)
  next
    case True
    note cap = capped_bounds [OF inv True]
    define mid where "mid = (case limit (max_states g) of None \<Rightarrow> capped g high | Some _ \<Rightarrow> (capped g high + low) div 2)"
    have low: "0 \<le> low" "0 \<le> offset" "offset + high \<le> int (length (g_matches g))"
      using inv by (simp_all add: search_inv_def)
    have mid: "0 \<le> mid" "mid \<le> capped g high" "low \<le> mid"
      using cap low by (auto simp: mid_def split: option.splits)
    let ?ms = "slice (g_matches g) offset (offset + mid)"
    have "set ?ms \<subseteq> set (g_matches g)" unfolding slice_def by (meson in_set_dropD in_set_takeD subsetI)
    from build_part_ok [OF g this] obtain b where b: "build_part g ?ms = Some (Inr b)" "part_of g ?ms b"
      by blast
    from part_of_count [OF b(2)] obtain c where c: "max_state_count b = Inr c" "?ms = [] \<Longrightarrow> c = 1" by metis
    note round = part_loop_round [OF True b(1) mid_def c(1), of bs]
    have keep: "\<exists>r. part_loop g (bs @ [b]) (offset + mid) 0 (int (length (g_matches g)) - (offset + mid)) = Some r \<and>
        outcome g bs offset r" if "0 < mid" "\<And>n. limit (max_states g) = Some n \<Longrightarrow> int c \<le> n"
    proof -
      have "\<exists>r. part_loop g (bs @ [b]) (offset + mid) 0 (int (length (g_matches g)) - (offset + mid)) = Some r \<and>
          outcome g (bs @ [b]) (offset + mid) r"
        by (rule IH) (use search_inv_next [OF inv True, of mid] mid cap low that(1) in
            \<open>auto simp: search_order_def search_rank_def\<close>)
      moreover have "outcome g (bs @ [b]) (offset + mid) r \<Longrightarrow> outcome g bs offset r" for r
        using outcome_append [OF b(2) low(2) that(1)] mid cap low c(1) that(2) by auto
      ultimately show ?thesis by blast
    qed
    have shrink: "\<exists>r. part_loop g bs offset low' high' = Some r \<and> outcome g bs offset r"
      if "0 \<le> low'" "low' \<le> high'" "0 < high'" "high' \<le> capped g high" "high' < high \<or> low < low'" for low' high'
      by (rule IH) (use search_inv_shrink [OF inv True that(1-4)] that cap(3) in
          \<open>auto simp: search_order_def search_rank_def\<close>)
    show ?thesis
    proof (cases "limit (max_states g)")
      case None
      then show ?thesis using round keep cap(1) by (simp add: mid_def)
    next
      case (Some n)
      consider "n < int c" "mid \<le> 1" | "n < int c" "1 < mid" | "int c \<le> n" "int c < n" "mid < capped g high"
        | "int c \<le> n" "\<not> (int c < n \<and> mid < capped g high)" by linarith
      then show ?thesis
      proof cases
        case 1
        have "outcome g bs offset (Inl PartitioningFailed)"
          by (rule outcome_fail [OF b(2) _ _ _ _ Some c(1)]) (use 1 low mid cap in auto)
        then show ?thesis using round Some 1 by simp
      next
        case 2
        then show ?thesis
          using round Some shrink [of low "mid - 1"] shrink [of "mid - 2" "mid - 1"] low mid cap by simp
      next
        case 3
        then show ?thesis using round Some shrink [of "mid + 1" "capped g high"] low mid by simp
      next
        case 4
        have "mid \<noteq> 0"
        proof
          assume "mid = 0"
          then have "c = 1" using c(2) by (simp add: slice_def)
          then show False using 4 \<open>mid = 0\<close> cap(1) not1 Some by auto
        qed
        then show ?thesis using round Some keep mid(1) 4 by simp
      qed
    qed
  qed
qed

section \<open>Finalizing a group\<close>

lemma new_group_ok:
  assumes "new_group bw sw mm ms = Inr g" and "0 < bw"
  shows "group_ok g" "g_matches g = []" "bssm g = []" "\<not> g_finalized g" "g_bit_width g = bw"
    "max_matches g = mm" "max_states g = ms"
  using assms by (auto simp: new_group_def group_ok_def Let_def split: if_splits)

lemma g_add_words_ok:
  assumes "group_ok g" "\<not> g_finalized g" "bssm g = []"
    and "\<forall>(w, _)\<in>set (word_values lst v). plain_text w"
  shows "\<exists>g'. g_add_words g lst v = Inr g' \<and> group_ok g' \<and> \<not> g_finalized g' \<and> bssm g' = [] \<and>
     g_bit_width g' = g_bit_width g \<and> max_matches g' = max_matches g \<and> max_states g' = max_states g \<and>
     g_matches g' = g_matches g @ enumerate (length (g_matches g)) (word_values lst v)"
  using assms
proof (induction lst arbitrary: g)
  case (Cons a lst)
  let ?g = "g\<lparr>g_matches := g_matches g @ [(length (g_matches g), unpack_word a v)]\<rparr>"
  have add: "g_add_word g a v = Inr ?g"
    using Cons.prems(2) by (simp add: g_add_word_def split: prod.splits)
  have "group_ok ?g" "\<not> g_finalized ?g" "bssm ?g = []"
    using Cons.prems by (auto simp: group_ok_def case_prod_unfold)
  moreover have "\<forall>(w, _)\<in>set (word_values lst v). plain_text w" using Cons.prems(4) by simp
  ultimately show ?case using Cons.IH [of ?g] add by auto
qed simp

text \<open>A group built from a list of words.\<close>

lemma built_group:
  assumes "new_group bw sw mm ms = Inr g0" "0 < bw" "g_add_words g0 lst none = Inr g"
    and "\<forall>(w, _)\<in>set (word_values lst none). plain_text w"
  shows "group_ok g" "\<not> g_finalized g" "bssm g = []" "g_bit_width g = bw"
    "max_matches g = mm" "max_states g = ms" "g_matches g = enumerate 0 (word_values lst none)"
  using g_add_words_ok [of g0 none lst] new_group_ok [OF assms(1,2)] assms(3,4) by auto

lemma search_inv_start: "search_inv g 0 0 (int (length (g_matches g)))"
  using limit_pos [of "max_matches g"]
  by (auto simp: search_inv_def within_def split: option.splits)

lemma good_part_words:
  assumes "good_part g b" and "m \<in> set (part_values b)"
  shows "\<not> too_long g m"
proof (cases "limit (max_states g)")
  case (Some n)
  from assms(1) have part: "part_of g (part_values b) b" by (simp add: good_part_def)
  then have fin: "bs_final b" "0 < split_count b" by (simp_all add: part_of_def)
  from part_of_count [OF part] assms(2) obtain c where
    c: "max_state_count b = Inr c" "Suc (text_len (fst (snd m))) \<le> c" by metis
  from max_state_countE [OF fin] c(1) obtain k where k: "k < split_count b"
    "c = card {p. is_path (map (split_of (split_width b) k) (bs_matches b)) p}"
    by (metis sum.inject(2))
  then have "length (states (acsm b ! k)) = c" using state_count_split [OF fin(1) k(1)] by simp
  then have "int c \<le> n" using assms(1) k(1) Some by (auto simp: good_part_def within_def)
  then show ?thesis using c(2) Some by (simp add: too_long_def within_def)
qed (simp add: too_long_def within_def)

lemma g_finalize_ok:
  assumes "group_ok g" "\<not> g_finalized g" "bssm g = []" "limit (max_states g) \<noteq> Some 1"
  shows "(\<exists>m\<in>set (g_matches g). too_long g m) \<and> g_finalize g = Some (Inl PartitioningFailed) \<or>
     (\<forall>m\<in>set (g_matches g). \<not> too_long g m) \<and>
     (\<exists>bs. g_finalize g = Some (Inr (g\<lparr>bssm := bs, g_finalized := True\<rparr>)) \<and>
        concat (map part_values bs) = g_matches g \<and> (\<forall>b\<in>set bs. good_part g b))"
proof -
  from part_loop_ok [OF assms(1,4) search_inv_start, of "[]"] obtain r where
    r: "part_loop g [] 0 0 (int (length (g_matches g))) = Some r" "outcome g [] 0 r" by blast
  show ?thesis
  proof (cases r)
    case (Inl e)
    then show ?thesis using r assms(2,3) by (simp add: g_finalize_def outcome_def)
  next
    case (Inr bs)
    then have bs: "concat (map part_values bs) = g_matches g" "\<forall>b\<in>set bs. good_part g b"
      using r(2) by (auto simp: outcome_def)
    have "\<not> too_long g m" if "m \<in> set (concat (map part_values bs))" for m
    proof -
      from that obtain b where "b \<in> set bs" "m \<in> set (part_values b)" by auto
      then show ?thesis using good_part_words bs(2) by blast
    qed
    then have "\<forall>m\<in>set (g_matches g). \<not> too_long g m" unfolding bs(1) by blast
    moreover have "g_finalize g = Some (Inr (g\<lparr>bssm := bs, g_finalized := True\<rparr>))"
      using Inr r(1) assms(2,3) by (simp add: g_finalize_def)
    ultimately show ?thesis using bs by blast
  qed
qed

lemma enumerate_ex:
  "(\<exists>m\<in>set (enumerate k xs). P (fst (snd m))) \<longleftrightarrow> (\<exists>(w, _)\<in>set xs. P w)"
  by (induction xs arbitrary: k) auto

text \<open>C5. With a limit on states other than 1 the partitioning of a group always ends. It fails
  exactly when some word alone needs more states than the limit; otherwise the partitions list
  the words of the group in order, none is empty, and each respects the limit on matches and,
  in each of its split machines, the limit on states.\<close>

theorem group_partition_correct:
  assumes "new_group bw sw mm ms = Inr g0" "0 < bw" "g_add_words g0 lst none = Inr g"
    and "\<forall>(w, _)\<in>set (word_values lst none). plain_text w" and "ms \<noteq> Some 1"
  shows "if \<exists>(w, _)\<in>set (word_values lst none). \<exists>n. ms = Some n \<and> 0 < n \<and> n < Suc (text_len w)
     then g_finalize g = Some (Inl PartitioningFailed)
     else \<exists>g'. g_finalize g = Some (Inr g') \<and>
       concat (map (\<lambda>b. map (\<lambda>m. snd (snd m)) (bs_matches b)) (bssm g')) = enumerate 0 (word_values lst none) \<and>
       (\<forall>b\<in>set (bssm g'). bs_matches b \<noteq> [] \<and>
          (\<forall>n. mm = Some n \<and> 0 < n \<longrightarrow> length (bs_matches b) \<le> n) \<and>
          (\<forall>n. ms = Some n \<and> 0 < n \<longrightarrow> (\<forall>k < split_count b. length (states (acsm b ! k)) \<le> n)))"
proof -
  note g = built_group [OF assms(1-4)]
  have lim: "limit (max_states g) \<noteq> Some 1"
    using g(6) assms(5) by (auto simp: limit_def split: option.splits if_splits)
  have long: "too_long g m \<longleftrightarrow> (\<exists>n. ms = Some n \<and> 0 < n \<and> n < Suc (text_len (fst (snd m))))" for m
    using g(6) by (auto simp: too_long_def within_def limit_def split: option.splits)
  have ex: "(\<exists>m\<in>set (g_matches g). too_long g m) \<longleftrightarrow>
      (\<exists>(w, _)\<in>set (word_values lst none). \<exists>n. ms = Some n \<and> 0 < n \<and> n < Suc (text_len w))"
    unfolding g(7) long by (rule enumerate_ex)
  have len: "length (bs_matches b) = length (part_values b)" for b :: "'a bs_match bs_machine"
    by (simp add: part_values_def)
  show ?thesis
  proof (cases "\<exists>m\<in>set (g_matches g). too_long g m")
    case True
    then have "g_finalize g = Some (Inl PartitioningFailed)" using g_finalize_ok [OF g(1-3) lim] by blast
    then show ?thesis using True ex by simp
  next
    case False
    with g_finalize_ok [OF g(1-3) lim] obtain bs where
      bs: "g_finalize g = Some (Inr (g\<lparr>bssm := bs, g_finalized := True\<rparr>))"
        "concat (map part_values bs) = g_matches g" "\<forall>b\<in>set bs. good_part g b" by blast
    have "bs_matches b \<noteq> [] \<and> (\<forall>n. mm = Some n \<and> 0 < n \<longrightarrow> length (bs_matches b) \<le> n) \<and>
        (\<forall>n. ms = Some n \<and> 0 < n \<longrightarrow> (\<forall>k < split_count b. length (states (acsm b ! k)) \<le> n))"
      if "b \<in> set bs" for b
      using bs(3) that g(5,6) len [of b]
      by (auto simp: good_part_def within_def limit_def)
    then have "\<exists>g'. g_finalize g = Some (Inr g') \<and>
       concat (map (\<lambda>b. map (\<lambda>m. snd (snd m)) (bs_matches b)) (bssm g')) = enumerate 0 (word_values lst none) \<and>
       (\<forall>b\<in>set (bssm g'). bs_matches b \<noteq> [] \<and>
          (\<forall>n. mm = Some n \<and> 0 < n \<longrightarrow> length (bs_matches b) \<le> n) \<and>
          (\<forall>n. ms = Some n \<and> 0 < n \<longrightarrow> (\<forall>k < split_count b. length (states (acsm b ! k)) \<le> n)))"
      using bs(1,2) g(7) by (simp add: part_values_def [abs_def])
    then show ?thesis using False unfolding ex by (simp only: if_False)
  qed
qed

theorem group_partition_correct_witness:
  "\<exists>g0 g g'. new_group 8 2 None (Some 3) = Inr g0 \<and>
     g_add_words g0 [Word (Bytes [1, 2]), Word (Bytes [3, 4])] ''x'' = Inr g \<and>
     g_finalize g = Some (Inr g') \<and>
     concat (map (\<lambda>b. map (\<lambda>m. snd (snd m)) (bs_matches b)) (bssm g')) =
       [(0, Bytes [1, 2], ''x''), (1, Bytes [3, 4], ''x'')]"
proof -
  let ?l = "[Word (Bytes [1, 2]), Word (Bytes [3, 4])]"
  obtain g0 :: "string bs_group" where g0: "new_group 8 2 None (Some 3) = Inr g0"
    by (simp add: new_group_def Let_def)
  have plain: "\<forall>(w, _)\<in>set (word_values ?l ''x''). plain_text w" by simp
  from g_add_words_ok [OF new_group_ok(1,4,3) [OF g0] plain] obtain g where
    g: "g_add_words g0 ?l ''x'' = Inr g" by auto
  have "\<not> (\<exists>(w, _)\<in>set (word_values ?l ''x''). \<exists>n. Some 3 = Some n \<and> 0 < n \<and> n < Suc (text_len w))"
    by simp
  with group_partition_correct [OF g0 _ g plain] obtain g' where
    "g_finalize g = Some (Inr g')"
    "concat (map (\<lambda>b. map (\<lambda>m. snd (snd m)) (bs_matches b)) (bssm g')) = enumerate 0 (word_values ?l ''x'')"
    by auto
  moreover have "enumerate 0 (word_values ?l ''x'') = [(0, Bytes [1, 2], ''x''), (1, Bytes [3, 4], ''x'')]"
    by simp
  ultimately show ?thesis using g0 g by (simp only:) blast
qed

end
