(* ===== verification/SME_Group_Query.thy ===== *)
theory SME_Group_Query
  imports SME_Group_Correct
begin

text \<open>
  Searching with a partitioned group, and the limit of one state for which the partitioning
  does not end.
\<close>

section \<open>One character\<close>

definition g_at :: "'v bs_machine \<Rightarrow> nat option list option \<Rightarrow> int list \<Rightarrow> bool" where
  "g_at b so u \<longleftrightarrow> bs_at b (case so of None \<Rightarrow> replicate (split_count b) None | Some st \<Rightarrow> st) u"

definition searchable :: "nat \<Rightarrow> 'v bs_machine \<Rightarrow> bool" where
  "searchable bw b \<longleftrightarrow> bs_final b \<and> words_ok b \<and> bit_width b = bw"

lemma g_step_ok:
  assumes "\<forall>b\<in>set bs. searchable bw b" and "length sts = length bs"
    and "\<forall>k<length bs. g_at (bs ! k) (sts ! k) u"
    and u: "\<forall>c\<in>set (u @ [c]). 0 \<le> c \<and> c < 2 ^ bw" and ch: "char_code ch = Inr c"
  shows "\<exists>sts'. g_step bs sts ch = Some (Inr (bs, sts',
       map (\<lambda>b. (\<lambda>m. snd (snd m)) ` words_ending (bs_matches b) (u @ [c])) bs)) \<and>
     length sts' = length bs \<and> (\<forall>k<length bs. g_at (bs ! k) (sts' ! k) (u @ [c]))"
  using assms(1-3)
proof (induction bs arbitrary: sts)
  case (Cons b bs)
  then obtain so sts0 where sts: "sts = so # sts0" "length sts0 = length bs" by (cases sts) auto
  have b: "bs_final b" "words_ok b" "bit_width b = bw" using Cons.prems(1) by (simp_all add: searchable_def)
  have at: "bs_at b (case so of None \<Rightarrow> replicate (split_count b) None | Some st \<Rightarrow> st) u"
    using Cons.prems(3) [rule_format, of 0] sts(1) by (simp add: g_at_def)
  have "\<forall>c\<in>set (u @ [c]). 0 \<le> c \<and> c < 2 ^ bit_width b" using u b(3) by simp
  from bs_step_ok [OF b(1,2) at this ch] obtain st' where st':
    "bs_query_char b so ch = Some (Inr (b, st', words_ending (bs_matches b) (u @ [c])))" "bs_at b st' (u @ [c])"
    using b(1) by (auto simp: bs_query_char_def bs_final_def)
  have "\<forall>k<length bs. g_at (bs ! k) (sts0 ! k) u" using Cons.prems(3) sts(1) by force
  with Cons.IH [OF _ sts(2)] Cons.prems(1) obtain sts' where sts':
    "g_step bs sts0 ch = Some (Inr (bs, sts', map (\<lambda>b. (\<lambda>m. snd (snd m)) ` words_ending (bs_matches b) (u @ [c])) bs))"
    "length sts' = length bs" "\<forall>k<length bs. g_at (bs ! k) (sts' ! k) (u @ [c])"
    by auto
  have "g_at ((b # bs) ! k) ((Some st' # sts') ! k) (u @ [c])" if "k < length (b # bs)" for k
    using that st'(2) sts'(3) by (cases k) (auto simp: g_at_def)
  then show ?case using st'(1) sts'(1,2) sts(1) by simp
qed simp

section \<open>Whole texts\<close>

definition found_at :: "nat \<Rightarrow> 'v bs_match set \<Rightarrow> (int \<times> 'v bs_match) set" where
  "found_at i s = (\<lambda>m. (int i - int (text_len (fst (snd m))) + 1, m)) ` s"

lemma g_query_from_ok:
  assumes bs: "\<forall>b\<in>set bs. searchable bw b"
  shows "length sts = length bs \<Longrightarrow> \<forall>k<length bs. g_at (bs ! k) (sts ! k) u \<Longrightarrow>
     \<forall>c\<in>set (u @ cs). 0 \<le> c \<and> c < 2 ^ bw \<Longrightarrow> map char_code chs = map Inr cs \<Longrightarrow>
     g_query_from bs sts (length u) chs =
       Some (Inr (bs, map (\<lambda>k. map (\<lambda>b. found_at (length u + k)
          ((\<lambda>m. snd (snd m)) ` words_ending (bs_matches b) (u @ take (Suc k) cs))) bs) [0..<length cs]))"
proof (induction chs arbitrary: sts u cs)
  case Nil
  then show ?case by simp
next
  case (Cons ch chs)
  then obtain c cs' where cs: "cs = c # cs'" "char_code ch = Inr c" "map char_code chs = map Inr cs'"
    by (cases cs) auto
  have "\<forall>c\<in>set (u @ [c]). 0 \<le> c \<and> c < 2 ^ bw" using Cons.prems(3) cs(1) by simp
  from g_step_ok [OF bs Cons.prems(1,2) this cs(2)] obtain sts' where
    st': "g_step bs sts ch = Some (Inr (bs, sts',
       map (\<lambda>b. (\<lambda>m. snd (snd m)) ` words_ending (bs_matches b) (u @ [c])) bs))"
      "length sts' = length bs" "\<forall>k<length bs. g_at (bs ! k) (sts' ! k) (u @ [c])" by blast
  have "g_query_from bs sts' (Suc (length u)) chs =
      Some (Inr (bs, map (\<lambda>k. map (\<lambda>b. found_at (Suc (length u + k))
          ((\<lambda>m. snd (snd m)) ` words_ending (bs_matches b) (u @ take (Suc (Suc k)) cs))) bs) [0..<length cs']))"
    using Cons.IH [OF st'(2,3) _ cs(3)] Cons.prems(3) cs(1) by simp
  then show ?case
    using st'(1) cs(1)
    by (simp add: upt_conv_Cons map_Suc_upt [symmetric] comp_def del: upt_Suc take_Suc_Cons
        flip: found_at_def)
      (simp add: comp_def)
qed

text \<open>A partition keeps the tuples of the group as values, under their own words.\<close>

lemma part_words_ending:
  assumes part: "part_of g (part_values b) b"
  shows "(\<lambda>m. snd (snd m)) ` words_ending (bs_matches b) u = words_ending (part_values b) u"
proof -
  have word: "fst (snd x) = fst (snd (snd (snd x)))" if "x \<in> set (bs_matches b)" for x
  proof -
    have "snd x \<in> set (map (\<lambda>m. (fst (snd m), m)) (part_values b))"
      using that part unfolding part_of_def by (intro enumerate_snd [of _ 0]) simp
    then show ?thesis by auto
  qed
  have "words_ending (part_values b) u = (\<lambda>m. snd (snd m)) ` {x \<in> set (bs_matches b). suffix (text_bytes (fst (snd (snd (snd x))))) u}"
    unfolding words_ending_def part_values_def by auto
  also have "{x \<in> set (bs_matches b). suffix (text_bytes (fst (snd (snd (snd x))))) u} = words_ending (bs_matches b) u"
    unfolding words_ending_def by (rule Collect_cong) (metis word)
  finally show ?thesis ..
qed

lemma words_ending_concat: "words_ending (concat mss) u = (\<Union>ms\<in>set mss. words_ending ms u)"
  by (auto simp: words_ending_def)

lemma good_part_searchable:
  assumes "good_part g b" and "0 < g_bit_width g"
    and "\<forall>m\<in>set (part_values b). fits (g_bit_width g) (fst (snd m)) \<and> 0 < text_len (fst (snd m))"
  shows "searchable (g_bit_width g) b"
proof -
  have part: "part_of g (part_values b) b" using assms(1) by (simp add: good_part_def)
  then have b: "bs_final b" "bit_width b = g_bit_width g"
    "bs_matches b = enumerate 0 (map (\<lambda>m. (fst (snd m), m)) (part_values b))"
    by (simp_all add: part_of_def)
  have "words_ok b" by (rule words_okI [OF b(1,3)]) (use assms(2,3) b(2) in auto)
  then show ?thesis using b by (simp add: searchable_def)
qed

lemma group_query_parts:
  assumes g: "g_finalized g" and bs: "\<forall>b\<in>set (bssm g). searchable bw b \<and> part_of g (part_values b) b"
    and s: "fits bw s"
  shows "g_query g s = Some (Inr (g, map (\<lambda>i. map (\<lambda>b. found_at i
       (words_ending (part_values b) (take (Suc i) (text_bytes s)))) (bssm g)) [0..<text_len s]))"
proof -
  have sb: "\<forall>b\<in>set (bssm g). searchable bw b" using bs by blast
  have at: "\<forall>k<length (bssm g). g_at (bssm g ! k) (replicate (length (bssm g)) None ! k) []"
    using sb by (auto simp: g_at_def searchable_def intro!: bs_at_start)
  have t: "\<forall>c\<in>set ([] @ text_bytes s). 0 \<le> c \<and> c < 2 ^ bw" "plain_text s"
    using s by (simp_all add: fits_def)
  have "map (\<lambda>b. found_at i ((\<lambda>m. snd (snd m)) ` words_ending (bs_matches b) u)) (bssm g) =
      map (\<lambda>b. found_at i (words_ending (part_values b) u)) (bssm g)" for i u
    using bs part_words_ending [of g _ u] by (intro map_cong) auto
  with g_query_from_ok [OF sb _ at t(1) char_codes_plain [OF t(2)]] g
  show ?thesis by (simp add: g_query_def)
qed

lemma distinct_concat_disjoint:
  "distinct (concat xss) \<Longrightarrow> i < length xss \<Longrightarrow> j < length xss \<Longrightarrow> i \<noteq> j \<Longrightarrow>
   set (xss ! i) \<inter> set (xss ! j) = {}"
proof (induction xss arbitrary: i j)
  case (Cons xs xss)
  have "set xs \<inter> set (xss ! k) = {}" if "k < length xss" for k
    using Cons.prems(1) that by (auto dest: nth_mem)
  with Cons show ?case by (auto simp: nth_Cons Int_commute split: nat.splits)
qed simp

lemma distinct_enumerate: "distinct (enumerate k xs)"
  by (simp add: enumerate_eq_zip distinct_zipI1)

text \<open>C6. A group that could be partitioned finds at every character of a text exactly the words
  that end there: the union of what its partitions yield is the set of occurrences, and no
  two partitions yield the same one.\<close>

theorem group_query_correct:
  assumes "new_group bw sw mm ms = Inr g0" "0 < bw" "g_add_words g0 lst none = Inr g"
    and "\<forall>(w, _)\<in>set (word_values lst none). fits bw w \<and> 0 < text_len w"
    and "ms \<noteq> Some 1" and "g_finalize g = Some (Inr g')" and "fits bw s"
  shows "\<exists>g'' ys. g_query g s = Some (Inr (g'', ys)) \<and>
     map (\<lambda>y. \<Union> (set y)) ys = words_found (enumerate 0 (word_values lst none)) s \<and>
     (\<forall>y\<in>set ys. \<forall>i<length y. \<forall>j<length y. i \<noteq> j \<longrightarrow> y ! i \<inter> y ! j = {})"
proof -
  have plain: "\<forall>(w, _)\<in>set (word_values lst none). plain_text w" using assms(4) by (auto simp: fits_def)
  note g = built_group [OF assms(1-3) plain]
  have lim: "limit (max_states g) \<noteq> Some 1"
    using g(6) assms(5) by (auto simp: limit_def split: option.splits if_splits)
  from g_finalize_ok [OF g(1-3) lim] assms(6) obtain bs where
    bs: "g' = g\<lparr>bssm := bs, g_finalized := True\<rparr>" "concat (map part_values bs) = g_matches g"
      "\<forall>b\<in>set bs. good_part g b" by auto
  have words: "\<forall>m\<in>set (g_matches g). fits bw (fst (snd m)) \<and> 0 < text_len (fst (snd m))"
    using assms(4) enumerate_ex [of 0 "word_values lst none" "\<lambda>w. \<not> (fits bw w \<and> 0 < text_len w)"] g(7)
    by (simp only:) blast
  have part: "\<forall>b\<in>set (bssm g'). searchable bw b \<and> part_of g' (part_values b) b"
  proof
    fix b assume b: "b \<in> set (bssm g')"
    then have "set (part_values b) \<subseteq> set (concat (map part_values bs))" using bs(1) by auto
    then have "searchable (g_bit_width g) b"
      using b bs(1,3) words g(4) assms(2) unfolding bs(2)
      by (intro good_part_searchable) auto
    then show "searchable bw b \<and> part_of g' (part_values b) b"
      using b bs(1,3) g(4) by (auto simp: good_part_def part_of_def)
  qed
  let ?at = "\<lambda>i. words_ending (g_matches g) (take (Suc i) (text_bytes s))"
  let ?y = "\<lambda>i. map (\<lambda>b. found_at i (words_ending (part_values b) (take (Suc i) (text_bytes s)))) bs"
  have fin: "g_finalized g'" using bs(1) by simp
  have "g_query g s = g_query g' s" using assms(6) g(2) fin by (simp add: g_query_def)
  also have "g_query g' s = Some (Inr (g', map ?y [0..<text_len s]))"
    using group_query_parts [OF fin part assms(7)] bs(1) by simp
  finally have q: "g_query g s = Some (Inr (g', map ?y [0..<text_len s]))" .
  have "\<Union> (set (?y i)) = found_at i (?at i)" for i
    unfolding bs(2) [symmetric] words_ending_concat by (auto simp: found_at_def)
  moreover have "words_found (g_matches g) s = map (\<lambda>i. found_at i (?at i)) [0..<text_len s]"
    using words by (subst words_found_ending) (auto simp: found_at_def algebra_simps simp flip: length_greater_0_conv)
  ultimately have union: "map (\<lambda>y. \<Union> (set y)) (map ?y [0..<text_len s]) = words_found (g_matches g) s"
    by (simp only: map_map comp_def)
  have "distinct (concat (map part_values bs))" unfolding bs(2) g(7) by (rule distinct_enumerate)
  then have "?y k ! i \<inter> ?y k ! j = {}" if "i < length bs" "j < length bs" "i \<noteq> j" for i j k
    using distinct_concat_disjoint [of "map part_values bs" i j] that
    by (auto simp: found_at_def words_ending_def)
  then show ?thesis using q union g(7) by auto
qed

theorem group_query_correct_witness:
  "\<exists>g0 g g'' ys. new_group 8 4 (Some 1) None = Inr g0 \<and>
     g_add_words g0 [Word (Bytes [5, 6]), Word (Bytes [6])] ''x'' = Inr g \<and>
     g_query g (Bytes [5, 6]) = Some (Inr (g'', ys)) \<and>
     map (\<lambda>y. \<Union> (set y)) ys =
       words_found [(0, Bytes [5, 6], ''x''), (1, Bytes [6], ''x'')] (Bytes [5, 6])"
proof -
  let ?l = "[Word (Bytes [5, 6]), Word (Bytes [6])]"
  obtain g0 :: "string bs_group" where g0: "new_group 8 4 (Some 1) None = Inr g0"
    by (simp add: new_group_def Let_def)
  have plain: "\<forall>(w, _)\<in>set (word_values ?l ''x''). plain_text w" by simp
  have fit: "\<forall>(w, _)\<in>set (word_values ?l ''x''). fits 8 w \<and> 0 < text_len w" "fits 8 (Bytes [5, 6])"
    by (simp_all add: fits_def)
  from g_add_words_ok [OF new_group_ok(1,4,3) [OF g0] plain] obtain g where
    g: "g_add_words g0 ?l ''x'' = Inr g" by auto
  have pos: "(0 :: nat) < 8" by simp
  note b = built_group [OF g0 pos g plain]
  have lim: "limit (max_states g) = None" using b(6) by (simp add: limit_def)
  then have "limit (max_states g) \<noteq> Some 1" "\<not> (\<exists>m\<in>set (g_matches g). too_long g m)"
    by (auto simp: too_long_def within_def)
  with g_finalize_ok [OF b(1-3)] obtain g' where g': "g_finalize g = Some (Inr g')" by blast
  have e: "enumerate 0 (word_values ?l ''x'') = [(0, Bytes [5, 6], ''x''), (1, Bytes [6], ''x'')]" by simp
  from group_query_correct [OF g0 pos g fit(1) _ g' fit(2)] g0 g show ?thesis unfolding e by auto
qed

section \<open>A limit of one state\<close>

lemma part_loop_stuck:
  fixes g :: "'a bs_group"
  assumes g: "group_ok g" and lim: "limit (max_states g) = Some 1" and one: "length (g_matches g) = 1"
  shows "part_loop g bs 0 0 1 = None"
proof (rule ccontr)
  assume "part_loop g bs 0 0 1 \<noteq> None"
  then obtain y where y: "part_loop g bs 0 0 1 = Some y" by blast
  obtain b where b: "build_part g [] = Some (Inr b)" "part_of g [] b"
    using build_part_ok [OF g, of "[]"] by auto
  obtain c where c: "max_state_count b = Inr 1" using part_of_count [OF b(2)] by metis
  have mm: "(case limit (max_matches g) of None \<Rightarrow> 1 | Some n \<Rightarrow> min 1 n) = 1"
    using limit_pos [of "max_matches g"] by (force split: option.splits)
  define P where "P g' bs' offset low high y' \<longleftrightarrow> \<not> (g' = g \<and> offset = 0 \<and> low = 0 \<and> high = 1)"
    for g' and bs' :: "'a bs_match bs_machine list" and offset low high :: int
      and y' :: "py_error + 'a bs_match bs_machine list"
  have "P g bs 0 0 1 y"
  proof (rule part_loop.raw_induct [where P = P, OF _ y], goal_cases)
    case (1 loop g' bs' offset low high y)
    show ?case
    proof (cases "g' = g \<and> offset = 0 \<and> low = 0 \<and> high = 1")
      case True
      then have eq: "g' = g" "offset = 0" "low = 0" "high = 1" by simp_all
      have "loop g (bs' @ [b]) 0 0 1 = Some y"
        using 1(2) lim b(1) c mm one unfolding eq by (simp add: Let_def slice_def)
      from 1(1) [OF this] show ?thesis by (simp add: P_def)
    qed (simp add: P_def)
  qed
  then show False by (simp add: P_def)
qed

text \<open>C7. With a limit of one state the partitioning of a group of a single word never ends:
  the search settles on the empty slice, keeps a machine for it and starts over at the same
  offset.\<close>

theorem group_one_state_diverges:
  assumes "new_group bw sw mm (Some 1) = Inr g0" "0 < bw" "g_add_words g0 [Word w] none = Inr g"
    and "plain_text w"
  shows "g_finalize g = None"
proof -
  have "\<forall>(w, _)\<in>set (word_values [Word w] none). plain_text w" using assms(4) by simp
  note g = built_group [OF assms(1-3) this]
  have "part_loop g [] 0 0 1 = None"
    by (rule part_loop_stuck [OF g(1)]) (use g(6,7) in \<open>simp_all add: limit_def\<close>)
  then show ?thesis using g by (simp add: g_finalize_def)
qed

theorem group_one_state_diverges_witness:
  "\<exists>g0 g. new_group 8 2 None (Some 1) = Inr g0 \<and>
     g_add_words g0 [Word (Bytes [65])] ''x'' = Inr g \<and> g_finalize g = None"
proof -
  obtain g0 :: "string bs_group" where g0: "new_group 8 2 None (Some 1) = Inr g0"
    by (simp add: new_group_def Let_def)
  have plain: "\<forall>(w, _)\<in>set (word_values [Word (Bytes [65])] ''x''). plain_text w" by simp
  from g_add_words_ok [OF new_group_ok(1,4,3) [OF g0] plain] obtain g where
    g: "g_add_words g0 [Word (Bytes [65])] ''x'' = Inr g" by auto
  from group_one_state_diverges [OF g0 _ g] g0 g show ?thesis by auto
qed

end
