(* ===== verification/Bit_Fields.thy ===== *)
theory Bit_Fields
  imports Rosebud_Prelude
begin

text \<open>
  Bit fields of Python integers: masks, shifted fields and their extraction, flags, and the
  little-endian conversion between integers and byte lists. The simplification rules read a
  field back from a value put together with \<open>|\<close> from shifted fields.
\<close>

unbundle bit_operations_syntax

text \<open>Fields of one bit stay truncations.\<close>

declare take_bit_Suc_0 [simp del] and_one_eq [simp del] one_and_eq [simp del]

section \<open>Masks\<close>

named_theorems mask_simps \<open>numeral masks as truncations\<close>

lemma masks [mask_simps]:
  fixes x :: int
  shows "x AND 1 = take_bit 1 x" "x AND 3 = take_bit 2 x" "x AND 7 = take_bit 3 x"
    "x AND 15 = take_bit 4 x" "x AND 31 = take_bit 5 x" "x AND 63 = take_bit 6 x"
    "x AND 127 = take_bit 7 x" "x AND 255 = take_bit 8 x" "x AND 1023 = take_bit 10 x"
    "x AND 2047 = take_bit 11 x" "x AND 4095 = take_bit 12 x" "x AND 8191 = take_bit 13 x"
    "x AND 65535 = take_bit 16 x" "x AND 4294967295 = take_bit 32 x"
  by (simp_all add: take_bit_eq_mask mask_eq_exp_minus_1)

lemma and_not_mask: "x AND NOT (mask k) = push_bit k (drop_bit k (x :: int))"
  by (rule bit_eqI) (auto simp: bit_simps)

section \<open>Fields\<close>

text \<open>Extraction at \<open>p\<close> of \<open>w\<close> bits from a field of \<open>v\<close> bits at \<open>q\<close>.\<close>

lemma field_same [simp]: "drop_bit p (push_bit p x) = (x :: int)"
  by (simp add: drop_bit_push_bit)

lemma field_above [simp]:
  "p + w \<le> q \<Longrightarrow> take_bit w (drop_bit p (push_bit q x)) = (0 :: int)"
  by (rule bit_eqI) (auto simp: bit_simps)

lemma field_below [simp]:
  "q + v \<le> p \<Longrightarrow> drop_bit p (push_bit q (take_bit v x)) = (0 :: int)"
  by (rule bit_eqI) (auto simp: bit_simps)

lemma field_plain_below [simp]: "v \<le> p \<Longrightarrow> drop_bit p (take_bit v x) = (0 :: int)"
  by (rule bit_eqI) (auto simp: bit_simps)

lemma field_plain_above [simp]: "w \<le> q \<Longrightarrow> take_bit w (push_bit q x) = (0 :: int)"
  by (rule bit_eqI) (auto simp: bit_simps)

lemma take_bit_plain [simp]: "w \<le> v \<Longrightarrow> take_bit w (take_bit v x) = take_bit w (x :: int)"
  by (simp add: min_absorb1)

lemma take_bit_id: "0 \<le> x \<Longrightarrow> x < 2 ^ w \<Longrightarrow> take_bit w x = (x :: int)"
  by (rule take_bit_int_eq_self)

text \<open>Values without bits from a position on.\<close>

lemma take_bit_idI: "(\<And>n. w \<le> n \<Longrightarrow> \<not> bit v n) \<Longrightarrow> take_bit w v = (v :: int)"
  by (rule bit_eqI) (metis bit_take_bit_iff linorder_not_less)

lemma bits_range: "(\<And>n. w \<le> n \<Longrightarrow> \<not> bit v n) \<Longrightarrow> 0 \<le> v \<and> v < (2 :: int) ^ w"
  using take_bit_idI [of w v] by (metis take_bit_nonnegative take_bit_int_less_exp)

section \<open>Flags\<close>

definition flag :: "nat \<Rightarrow> bool \<Rightarrow> int" where
  "flag k b = (if b then push_bit k 1 else 0)"

text \<open>\<open>data & 1 << k != 0\<close>\<close>

definition tst :: "int \<Rightarrow> nat \<Rightarrow> bool" where
  "tst d k \<longleftrightarrow> d AND push_bit k 1 \<noteq> 0"

lemma tst_bit [simp]: "tst d k \<longleftrightarrow> bit d k"
proof -
  have "d AND push_bit k 1 = (if bit d k then push_bit k 1 else 0)"
    by (rule bit_eqI) (auto simp: bit_simps)
  then show ?thesis by (auto simp: tst_def)
qed

lemma bit_flag [simp]: "bit (flag k b) n \<longleftrightarrow> b \<and> n = k"
  by (auto simp: flag_def bit_simps)

section \<open>Little-endian bytes\<close>

fun le_bytes :: "nat \<Rightarrow> int \<Rightarrow> int list" where
  "le_bytes 0 x = []"
| "le_bytes (Suc n) x = x mod 256 # le_bytes n (x div 256)"

fun le_value :: "int list \<Rightarrow> int" where
  "le_value [] = 0"
| "le_value (b # bs) = b + 256 * le_value bs"

definition is_byte :: "int \<Rightarrow> bool" where
  "is_byte b \<longleftrightarrow> 0 \<le> b \<and> b < 256"

lemma length_le_bytes [simp]: "length (le_bytes n x) = n"
  by (induction n arbitrary: x) auto

lemma le_bytes_byte: "b \<in> set (le_bytes n x) \<Longrightarrow> is_byte b"
  by (induction n arbitrary: x) (auto simp: is_byte_def)

lemma le_value_bytes: "0 \<le> x \<Longrightarrow> x < 256 ^ n \<Longrightarrow> le_value (le_bytes n x) = x"
proof (induction n arbitrary: x)
  case (Suc n)
  have "x div 256 < 256 ^ n" using Suc.prems(2) by (simp add: div_less_iff_less_mult mult.commute)
  then show ?case using Suc by simp
qed simp

lemma le_bytes_value: "\<forall>b\<in>set bs. is_byte b \<Longrightarrow> le_bytes (length bs) (le_value bs) = bs"
proof (induction bs)
  case (Cons b bs)
  then have "(b + 256 * le_value bs) mod 256 = b" "(b + 256 * le_value bs) div 256 = le_value bs"
    by (auto simp: is_byte_def)
  then show ?case using Cons by simp
qed simp

lemma le_value_range: "\<forall>b\<in>set bs. is_byte b \<Longrightarrow> 0 \<le> le_value bs \<and> le_value bs < 256 ^ length bs"
proof (induction bs)
  case (Cons b bs)
  then have "0 \<le> b" "b \<le> 255" "0 \<le> le_value bs" "le_value bs + 1 \<le> 256 ^ length bs"
    by (auto simp: is_byte_def)
  then show ?case by auto
qed simp

end
