(* ===== verification/PCIE_Base.thy ===== *)
theory PCIE_Base
  imports Bit_Fields
begin

text \<open>
  The helpers of \<open>lib/pcie/tb/pcie.py\<close>: alignment, the update of a register under byte
  enables, and PCIe identifiers.
\<close>

section \<open>Alignment\<close>

definition align :: "int \<Rightarrow> int \<Rightarrow> int" where
  "align val msk = (if val AND msk \<noteq> 0 then val + msk + 1 - (val AND msk) else val)"

lemma align_mask:
  assumes "0 \<le> v"
  shows "align v (2 ^ k - 1) = (v + 2 ^ k - 1) div 2 ^ k * 2 ^ k"
proof -
  let ?m = "2 ^ k :: int"
  have and_mod: "v AND (?m - 1) = v mod ?m"
    by (simp add: flip: mask_eq_exp_minus_1 take_bit_eq_mask) (simp add: take_bit_eq_mod)
  have v: "v = ?m * (v div ?m) + v mod ?m" by simp
  show ?thesis
  proof (cases "v mod ?m = 0")
    case True
    have e: "v + ?m - 1 = (?m - 1) + ?m * (v div ?m)" using v True by linarith
    have "(?m - 1) div ?m = 0" by (intro div_pos_pos_trivial) auto
    then have d: "(v + ?m - 1) div ?m = v div ?m" by (subst e, subst div_mult_self2) simp_all
    have m: "v div ?m * ?m = v" using True div_mult_mod_eq [of v ?m] by linarith
    have "align v (?m - 1) = v" by (simp only: align_def and_mod True) simp
    then show ?thesis by (simp only: d m)
  next
    case False
    have "0 < ?m" by simp
    note b = pos_mod_sign [OF this, of v] pos_mod_bound [OF this, of v]
    then have r: "0 < v mod ?m" "v mod ?m < ?m" using False by linarith+
    have e: "v + ?m - 1 = (v mod ?m - 1) + ?m * (v div ?m + 1)" using v by (simp add: algebra_simps)
    have "(v mod ?m - 1) div ?m = 0" by (rule div_pos_pos_trivial) (use r in linarith)+
    then have d: "(v + ?m - 1) div ?m = v div ?m + 1" by (subst e, subst div_mult_self2) simp_all
    have "v + ?m - v mod ?m = (v div ?m + 1) * ?m" using div_mult_mod_eq [of v ?m] by (simp add: algebra_simps)
    moreover have "align v (?m - 1) = v + ?m - v mod ?m" using False by (simp only: align_def and_mod) simp
    ultimately show ?thesis by (simp only: d)
  qed
qed

section \<open>Byte enables\<close>

text \<open>
  The loop over \<open>m1 = 1 << k\<close> and \<open>m2 = 0xff << 8*k\<close>.
\<close>

function byte_mask_loop :: "int \<Rightarrow> int \<Rightarrow> int \<Rightarrow> nat \<Rightarrow> int" where
  "byte_mask_loop msk new old k =
     (if push_bit k 1 \<le> msk
      then byte_mask_loop msk new
             (if msk AND push_bit k 1 \<noteq> 0
              then (old AND NOT (push_bit (8 * k) 0xff)) OR (new AND push_bit (8 * k) 0xff)
              else old) (Suc k)
      else old)"
  by pat_completeness auto

termination
proof (relation "measure (\<lambda>(msk, new, old, k). nat msk - k)")
  fix msk new old :: int and k :: nat
  assume a: "push_bit k 1 \<le> msk"
  have "k < 2 ^ k" by (rule less_exp)
  moreover have "2 ^ k \<le> nat msk" using a by (simp add: push_bit_eq_mult le_nat_iff)
  ultimately have "k < nat msk" by linarith
  then show "((msk, new, if msk AND push_bit k 1 \<noteq> 0
              then (old AND NOT (push_bit (8 * k) 0xff)) OR (new AND push_bit (8 * k) 0xff)
              else old, Suc k), (msk, new, old, k)) \<in> measure (\<lambda>(msk, new, old, k). nat msk - k)"
    by simp
qed simp

declare byte_mask_loop.simps [simp del]

definition byte_mask_update :: "int \<Rightarrow> int \<Rightarrow> int \<Rightarrow> int \<Rightarrow> int" where
  "byte_mask_update old msk new bitmask =
     byte_mask_loop msk ((new AND bitmask) OR (old AND NOT bitmask)) old 0"

text \<open>The call with the default value of the last parameter.\<close>

abbreviation byte_mask_update1 :: "int \<Rightarrow> int \<Rightarrow> int \<Rightarrow> int" where
  "byte_mask_update1 old msk new \<equiv> byte_mask_update old msk new (- 1)"

lemma bit_above_exp: "0 \<le> x \<Longrightarrow> x < 2 ^ k \<Longrightarrow> k \<le> n \<Longrightarrow> \<not> bit (x :: int) n"
  by (metis bit_take_bit_iff linorder_not_less take_bit_int_eq_self)

lemma bit_byte_lane: "bit (push_bit (8 * k) (0xff :: int)) n \<longleftrightarrow> n div 8 = k"
proof -
  have "bit (mask 8 :: int) j \<longleftrightarrow> j < 8" for j by (simp only: bit_mask_iff) simp
  then have b: "bit (0xff :: int) j \<longleftrightarrow> j < 8" for j by (simp add: mask_eq_exp_minus_1)
  show ?thesis by (simp only: bit_push_bit_iff b) (simp, arith)
qed

lemma bit_byte_mask_loop:
  "0 \<le> msk \<Longrightarrow> bit (byte_mask_loop msk new old k) n \<longleftrightarrow>
     (if k \<le> n div 8 \<and> bit msk (n div 8) then bit new n else bit old n)"
proof (induction msk new old k rule: byte_mask_loop.induct)
  case (1 msk new old k)
  let ?old = "if msk AND push_bit k 1 \<noteq> 0
     then (old AND NOT (push_bit (8 * k) 0xff)) OR (new AND push_bit (8 * k) 0xff) else old"
  show ?case
  proof (cases "push_bit k 1 \<le> msk")
    case True
    have old: "bit ?old n = (if n div 8 = k \<and> bit msk k then bit new n else bit old n)"
      unfolding tst_def [symmetric] tst_bit by (auto simp: bit_byte_lane bit_or_iff bit_and_iff bit_not_iff)
    have "byte_mask_loop msk new old k = byte_mask_loop msk new ?old (Suc k)"
      using True by (subst byte_mask_loop.simps) simp
    then show ?thesis using 1 True old by (auto simp: le_less Suc_le_eq)
  next
    case False
    then have "msk < 2 ^ k" by (simp add: push_bit_eq_mult)
    then have "k \<le> n div 8 \<Longrightarrow> \<not> bit msk (n div 8)" using 1(2) by (intro bit_above_exp)
    then show ?thesis using False by (subst byte_mask_loop.simps) auto
  qed
qed

lemma bit_byte_mask_update:
  "0 \<le> msk \<Longrightarrow> bit (byte_mask_update old msk new bitmask) n \<longleftrightarrow>
     (if bit msk (n div 8) \<and> bit bitmask n then bit new n else bit old n)"
  by (auto simp: byte_mask_update_def bit_byte_mask_loop bit_or_iff bit_and_iff bit_not_iff)

section \<open>Identifiers\<close>

record pcie_id =
  bus :: int
  device :: int
  func :: int

definition PcieId :: "int \<Rightarrow> int \<Rightarrow> int \<Rightarrow> pcie_id" where
  "PcieId b d f = \<lparr>bus = b, device = d, func = f\<rparr>"

definition from_int :: "int \<Rightarrow> pcie_id" where
  "from_int val = PcieId ((drop_bit 8 val) AND 0xff) ((drop_bit 3 val) AND 0x1f) (val AND 0x7)"

definition id_int :: "pcie_id \<Rightarrow> int" where
  "id_int i = push_bit 8 (bus i AND 0xff) OR push_bit 3 (device i AND 0x1f) OR (func i AND 0x7)"

definition id_ok :: "pcie_id \<Rightarrow> bool" where
  "id_ok i \<longleftrightarrow> 0 \<le> bus i \<and> bus i < 256 \<and> 0 \<le> device i \<and> device i < 32 \<and> 0 \<le> func i \<and> func i < 8"

lemma from_int_id: "id_ok i \<Longrightarrow> from_int (id_int i) = i"
  by (cases i) (simp add: from_int_def id_int_def PcieId_def mask_simps, simp add: id_ok_def take_bit_id)

lemma from_int_ok: "id_ok (from_int v)"
  using take_bit_int_less_exp [of 8 "drop_bit 8 v"] take_bit_int_less_exp [of 5 "drop_bit 3 v"]
    take_bit_int_less_exp [of 3 v]
  by (simp add: from_int_def id_ok_def PcieId_def mask_simps)

lemma id_int_take: "take_bit 16 (id_int i) = id_int i"
  by (rule bit_eqI) (auto simp: id_int_def mask_simps bit_simps)

end
