(* ===== verification/PCIE_TLP.thy ===== *)
theory PCIE_TLP
  imports PCIE_Base
begin

text \<open>
  Transaction layer packets: the class \<open>TLP\<close> of \<open>lib/pcie/tb/pcie.py\<close> with its validation,
  the preparation of completions, byte enables, sizes, and the conversion to and from
  double words.
\<close>

section \<open>Formats and types\<close>

definition FMT_3DW :: int where "FMT_3DW = 0"
definition FMT_4DW :: int where "FMT_4DW = 1"
definition FMT_3DW_DATA :: int where "FMT_3DW_DATA = 2"
definition FMT_4DW_DATA :: int where "FMT_4DW_DATA = 3"

type_synonym fmt_type = "int \<times> int"

definition TLP_MEM_READ :: fmt_type where "TLP_MEM_READ = (FMT_3DW, 0x00)"
definition TLP_MEM_READ_64 :: fmt_type where "TLP_MEM_READ_64 = (FMT_4DW, 0x00)"
definition TLP_MEM_READ_LOCKED :: fmt_type where "TLP_MEM_READ_LOCKED = (FMT_3DW, 0x01)"
definition TLP_MEM_READ_LOCKED_64 :: fmt_type where "TLP_MEM_READ_LOCKED_64 = (FMT_4DW, 0x01)"
definition TLP_MEM_WRITE :: fmt_type where "TLP_MEM_WRITE = (FMT_3DW_DATA, 0x00)"
definition TLP_MEM_WRITE_64 :: fmt_type where "TLP_MEM_WRITE_64 = (FMT_4DW_DATA, 0x00)"
definition TLP_IO_READ :: fmt_type where "TLP_IO_READ = (FMT_3DW, 0x02)"
definition TLP_IO_WRITE :: fmt_type where "TLP_IO_WRITE = (FMT_3DW_DATA, 0x02)"
definition TLP_CFG_READ_0 :: fmt_type where "TLP_CFG_READ_0 = (FMT_3DW, 0x04)"
definition TLP_CFG_WRITE_0 :: fmt_type where "TLP_CFG_WRITE_0 = (FMT_3DW_DATA, 0x04)"
definition TLP_CFG_READ_1 :: fmt_type where "TLP_CFG_READ_1 = (FMT_3DW, 0x05)"
definition TLP_CFG_WRITE_1 :: fmt_type where "TLP_CFG_WRITE_1 = (FMT_3DW_DATA, 0x05)"
definition TLP_MSG_TO_RC :: fmt_type where "TLP_MSG_TO_RC = (FMT_4DW, 0x10)"
definition TLP_MSG_ADDR :: fmt_type where "TLP_MSG_ADDR = (FMT_4DW, 0x11)"
definition TLP_MSG_ID :: fmt_type where "TLP_MSG_ID = (FMT_4DW, 0x12)"
definition TLP_MSG_BCAST :: fmt_type where "TLP_MSG_BCAST = (FMT_4DW, 0x13)"
definition TLP_MSG_LOCAL :: fmt_type where "TLP_MSG_LOCAL = (FMT_4DW, 0x14)"
definition TLP_MSG_GATHER :: fmt_type where "TLP_MSG_GATHER = (FMT_4DW, 0x15)"
definition TLP_MSG_DATA_TO_RC :: fmt_type where "TLP_MSG_DATA_TO_RC = (FMT_4DW_DATA, 0x10)"
definition TLP_MSG_DATA_ADDR :: fmt_type where "TLP_MSG_DATA_ADDR = (FMT_4DW_DATA, 0x11)"
definition TLP_MSG_DATA_ID :: fmt_type where "TLP_MSG_DATA_ID = (FMT_4DW_DATA, 0x12)"
definition TLP_MSG_DATA_BCAST :: fmt_type where "TLP_MSG_DATA_BCAST = (FMT_4DW_DATA, 0x13)"
definition TLP_MSG_DATA_LOCAL :: fmt_type where "TLP_MSG_DATA_LOCAL = (FMT_4DW_DATA, 0x14)"
definition TLP_MSG_DATA_GATHER :: fmt_type where "TLP_MSG_DATA_GATHER = (FMT_4DW_DATA, 0x15)"
definition TLP_CPL :: fmt_type where "TLP_CPL = (FMT_3DW, 0x0A)"
definition TLP_CPL_DATA :: fmt_type where "TLP_CPL_DATA = (FMT_3DW_DATA, 0x0A)"
definition TLP_CPL_LOCKED :: fmt_type where "TLP_CPL_LOCKED = (FMT_3DW, 0x0B)"
definition TLP_CPL_LOCKED_DATA :: fmt_type where "TLP_CPL_LOCKED_DATA = (FMT_3DW_DATA, 0x0B)"

lemmas fmt_defs = FMT_3DW_def FMT_4DW_def FMT_3DW_DATA_def FMT_4DW_DATA_def

lemmas tlp_type_defs = fmt_defs TLP_MEM_READ_def TLP_MEM_READ_64_def TLP_MEM_READ_LOCKED_def
  TLP_MEM_READ_LOCKED_64_def TLP_MEM_WRITE_def TLP_MEM_WRITE_64_def TLP_IO_READ_def TLP_IO_WRITE_def
  TLP_CFG_READ_0_def TLP_CFG_WRITE_0_def TLP_CFG_READ_1_def TLP_CFG_WRITE_1_def
  TLP_CPL_def TLP_CPL_DATA_def TLP_CPL_LOCKED_def TLP_CPL_LOCKED_DATA_def

definition CPL_STATUS_SC :: int where "CPL_STATUS_SC = 0"
definition CPL_STATUS_UR :: int where "CPL_STATUS_UR = 1"
definition CPL_STATUS_CRS :: int where "CPL_STATUS_CRS = 2"
definition CPL_STATUS_CA :: int where "CPL_STATUS_CA = 4"

section \<open>Packets\<close>

record tlp =
  tlp_fmt :: int
  tlp_type :: int
  tlp_tc :: int
  tlp_th :: int
  tlp_td :: int
  tlp_ep :: int
  tlp_attr :: int
  tlp_at :: int
  tlp_length :: int
  tlp_completer_id :: pcie_id
  tlp_status :: int
  tlp_bcm :: int
  tlp_byte_count :: int
  tlp_requester_id :: pcie_id
  tlp_dest_id :: pcie_id
  tlp_tag :: int
  tlp_first_be :: int
  tlp_last_be :: int
  tlp_lower_address :: int
  tlp_address :: int
  tlp_register_number :: int
  tlp_data :: "int list"

definition new_tlp :: tlp where
  "new_tlp = \<lparr>tlp_fmt = 0, tlp_type = 0, tlp_tc = 0, tlp_th = 0, tlp_td = 0, tlp_ep = 0,
     tlp_attr = 0, tlp_at = 0, tlp_length = 0, tlp_completer_id = PcieId 0 0 0, tlp_status = 0,
     tlp_bcm = 0, tlp_byte_count = 0, tlp_requester_id = PcieId 0 0 0, tlp_dest_id = PcieId 0 0 0,
     tlp_tag = 0, tlp_first_be = 0, tlp_last_be = 0, tlp_lower_address = 0, tlp_address = 0,
     tlp_register_number = 0, tlp_data = []\<rparr>"

text \<open>The copying constructor leaves \<open>th\<close> at its default.\<close>

definition copy_tlp :: "tlp \<Rightarrow> tlp" where
  "copy_tlp t = \<lparr>tlp_fmt = tlp_fmt t, tlp_type = tlp_type t, tlp_tc = tlp_tc t, tlp_th = 0,
     tlp_td = tlp_td t, tlp_ep = tlp_ep t, tlp_attr = tlp_attr t, tlp_at = tlp_at t,
     tlp_length = tlp_length t, tlp_completer_id = tlp_completer_id t, tlp_status = tlp_status t,
     tlp_bcm = tlp_bcm t, tlp_byte_count = tlp_byte_count t, tlp_requester_id = tlp_requester_id t,
     tlp_dest_id = tlp_dest_id t, tlp_tag = tlp_tag t, tlp_first_be = tlp_first_be t,
     tlp_last_be = tlp_last_be t, tlp_lower_address = tlp_lower_address t,
     tlp_address = tlp_address t, tlp_register_number = tlp_register_number t,
     tlp_data = tlp_data t\<rparr>"

definition fmt_type :: "tlp \<Rightarrow> fmt_type" where
  "fmt_type t = (tlp_fmt t, tlp_type t)"

definition set_fmt_type :: "fmt_type \<Rightarrow> tlp \<Rightarrow> tlp" where
  "set_fmt_type v t = t\<lparr>tlp_fmt := fst v, tlp_type := snd v\<rparr>"

definition has_data :: "tlp \<Rightarrow> bool" where
  "has_data t \<longleftrightarrow> tlp_fmt t = FMT_3DW_DATA \<or> tlp_fmt t = FMT_4DW_DATA"

definition is_completion :: "tlp \<Rightarrow> bool" where
  "is_completion t \<longleftrightarrow> fmt_type t = TLP_CPL \<or> fmt_type t = TLP_CPL_DATA \<or>
     fmt_type t = TLP_CPL_LOCKED \<or> fmt_type t = TLP_CPL_LOCKED_DATA"

definition is_config :: "tlp \<Rightarrow> bool" where
  "is_config t \<longleftrightarrow> fmt_type t = TLP_CFG_READ_0 \<or> fmt_type t = TLP_CFG_WRITE_0 \<or>
     fmt_type t = TLP_CFG_READ_1 \<or> fmt_type t = TLP_CFG_WRITE_1"

definition is_mem :: "tlp \<Rightarrow> bool" where
  "is_mem t \<longleftrightarrow> fmt_type t = TLP_MEM_READ \<or> fmt_type t = TLP_MEM_READ_64 \<or>
     fmt_type t = TLP_MEM_READ_LOCKED \<or> fmt_type t = TLP_MEM_READ_LOCKED_64 \<or>
     fmt_type t = TLP_MEM_WRITE \<or> fmt_type t = TLP_MEM_WRITE_64"

definition is_io :: "tlp \<Rightarrow> bool" where
  "is_io t \<longleftrightarrow> fmt_type t = TLP_IO_READ \<or> fmt_type t = TLP_IO_WRITE"

text \<open>The comparison \<open>0 > self.length > 1024\<close> chains to \<open>0 > length and length > 1024\<close>.\<close>

definition check :: "tlp \<Rightarrow> bool" where
  "check t \<longleftrightarrow>
     (has_data t \<longrightarrow> tlp_length t = int (length (tlp_data t)) \<and>
        \<not> (0 > tlp_length t \<and> tlp_length t > 1024)) \<and>
     (is_mem t \<longrightarrow> \<not> tlp_length t * 4 > 0x1000 - (tlp_address t AND 0xfff)) \<and>
     (is_io t \<longrightarrow> tlp_length t = 1 \<and> tlp_last_be t = 0) \<and>
     (fmt_type t = TLP_CPL_DATA \<longrightarrow>
        \<not> tlp_byte_count t + (tlp_lower_address t AND 3) + 3 < tlp_length t * 4)"

section \<open>Completions\<close>

definition set_completion :: "tlp \<Rightarrow> pcie_id \<Rightarrow> bool \<Rightarrow> int \<Rightarrow> tlp \<Rightarrow> tlp" where
  "set_completion t completer data status c =
     (set_fmt_type (if data then TLP_CPL_DATA else TLP_CPL) c)
       \<lparr>tlp_requester_id := tlp_requester_id t, tlp_completer_id := completer,
        tlp_status := status, tlp_attr := tlp_attr t, tlp_tag := tlp_tag t, tlp_tc := tlp_tc t\<rparr>"

definition set_completion_data :: "tlp \<Rightarrow> pcie_id \<Rightarrow> tlp \<Rightarrow> tlp" where
  "set_completion_data t completer = set_completion t completer True CPL_STATUS_SC"

definition set_ur_completion :: "tlp \<Rightarrow> pcie_id \<Rightarrow> tlp \<Rightarrow> tlp" where
  "set_ur_completion t completer = set_completion t completer False CPL_STATUS_UR"

definition set_crs_completion :: "tlp \<Rightarrow> pcie_id \<Rightarrow> tlp \<Rightarrow> tlp" where
  "set_crs_completion t completer = set_completion t completer False CPL_STATUS_CRS"

definition set_ca_completion :: "tlp \<Rightarrow> pcie_id \<Rightarrow> tlp \<Rightarrow> tlp" where
  "set_ca_completion t completer = set_completion t completer False CPL_STATUS_CA"

section \<open>Byte enables and data\<close>

text \<open>
  \<open>math.ceil(x/4)\<close> of an integer is written as an integer division; the addresses and
  lengths are far below the range where the quotient of floats is inexact.
\<close>

definition set_be :: "int \<Rightarrow> int \<Rightarrow> tlp \<Rightarrow> tlp \<times> int \<times> int" where
  "set_be addr len t =
     (let first_pad = addr mod 4;
          last_pad = 3 - (addr + len - 1) mod 4;
          n = (len + first_pad + last_pad + 3) div 4;
          first = push_bit (nat first_pad) 0xf AND 0xf;
          last = drop_bit (nat last_pad) 0xf
      in (t\<lparr>tlp_address := addr AND NOT 3, tlp_length := n,
            tlp_first_be := (if n = 1 then first AND last else first),
            tlp_last_be := (if n = 1 then 0 else last)\<rparr>, first_pad, last_pad))"

fun dwords :: "int list \<Rightarrow> py_error + int list" where
  "dwords [] = Inr []"
| "dwords (a # b # c # d # rest) = try_bind (dwords rest) (\<lambda>ds. Inr (le_value [a, b, c, d] # ds))"
| "dwords _ = Inl StructError"

definition set_data :: "int list \<Rightarrow> tlp \<Rightarrow> py_error + tlp" where
  "set_data bs t =
     try_bind (dwords bs) (\<lambda>ds. Inr (t\<lparr>tlp_data := ds, tlp_length := int (length ds)\<rparr>))"

definition set_be_data :: "int \<Rightarrow> int list \<Rightarrow> tlp \<Rightarrow> py_error + tlp" where
  "set_be_data addr bs t =
     (case set_be addr (int (length bs)) (t\<lparr>tlp_address := addr AND NOT 3\<rparr>) of
        (t', first_pad, last_pad) \<Rightarrow>
          set_data (replicate (nat first_pad) 0 @ bs @ replicate (nat last_pad) 0) t')"

definition pack_dword :: "int \<Rightarrow> py_error + int list" where
  "pack_dword dw = (if 0 \<le> dw \<and> dw < 2 ^ 32 then Inr (le_bytes 4 dw) else Inl StructError)"

fun pack_dwords :: "int list \<Rightarrow> py_error + int list" where
  "pack_dwords [] = Inr []"
| "pack_dwords (dw # ds) =
     try_bind (pack_dword dw) (\<lambda>b. try_bind (pack_dwords ds) (\<lambda>bs. Inr (b @ bs)))"

definition get_data :: "tlp \<Rightarrow> py_error + int list" where
  "get_data t = pack_dwords (tlp_data t)"

definition get_first_be_offset :: "tlp \<Rightarrow> int" where
  "get_first_be_offset t =
     (if tlp_first_be t AND 0x7 = 0 then 3
      else if tlp_first_be t AND 0x3 = 0 then 2
      else if tlp_first_be t AND 0x1 = 0 then 1
      else 0)"

definition get_last_be_offset :: "tlp \<Rightarrow> int" where
  "get_last_be_offset t =
     (let be = (if tlp_length t = 1 then tlp_first_be t else tlp_last_be t)
      in if be AND 0xf = 0x1 then 3
         else if be AND 0xe = 0x2 then 2
         else if be AND 0xc = 0x4 then 1
         else 0)"

definition get_be_byte_count :: "tlp \<Rightarrow> int" where
  "get_be_byte_count t = tlp_length t * 4 - get_first_be_offset t - get_last_be_offset t"

text \<open>In Python \<open>+\<close> binds tighter than \<open>&\<close>.\<close>

definition get_lower_address :: "tlp \<Rightarrow> int" where
  "get_lower_address t = tlp_address t AND (0x7c + get_first_be_offset t)"

section \<open>Sizes\<close>

text \<open>\<open>get_size\<close> falls through without a value for other formats.\<close>

definition get_size :: "tlp \<Rightarrow> int option" where
  "get_size t =
     (if tlp_fmt t = FMT_3DW then Some 12
      else if tlp_fmt t = FMT_3DW_DATA then Some (12 + int (length (tlp_data t)) * 4)
      else if tlp_fmt t = FMT_4DW then Some 16
      else if tlp_fmt t = FMT_4DW_DATA then Some (16 + int (length (tlp_data t)) * 4)
      else None)"

definition get_wire_size :: "tlp \<Rightarrow> py_error + int" where
  "get_wire_size t = (case get_size t of None \<Rightarrow> Inl TypeError | Some n \<Rightarrow> Inr (n + 12))"

definition get_data_credits :: "tlp \<Rightarrow> int" where
  "get_data_credits t = (int (length (tlp_data t)) + 3) div 4"

section \<open>Packing\<close>

definition pack_head :: "tlp \<Rightarrow> int" where
  "pack_head t =
     (tlp_length t AND 0x3ff) OR push_bit 10 (tlp_at t AND 0x3) OR push_bit 12 (tlp_attr t AND 0x3) OR
     push_bit 14 (tlp_ep t AND 1) OR push_bit 15 (tlp_td t AND 1) OR push_bit 16 (tlp_th t AND 1) OR
     push_bit 16 (tlp_attr t AND 0x4) OR push_bit 20 (tlp_tc t AND 0x7) OR
     push_bit 24 (tlp_type t AND 0x1f) OR push_bit 29 (tlp_fmt t AND 0x7)"

definition pack_request :: "tlp \<Rightarrow> int" where
  "pack_request t =
     (tlp_first_be t AND 0xf) OR push_bit 4 (tlp_last_be t AND 0xf) OR
     push_bit 8 (tlp_tag t AND 0xff) OR push_bit 16 (id_int (tlp_requester_id t))"

definition pack_config :: "tlp \<Rightarrow> int" where
  "pack_config t =
     push_bit 2 (tlp_register_number t AND 0x3ff) OR push_bit 16 (id_int (tlp_dest_id t))"

text \<open>The variable \<open>l\<close> is not reset between the two halves of a 64 bit address.\<close>

definition pack_address :: "tlp \<Rightarrow> int list" where
  "pack_address t =
     (if tlp_fmt t = FMT_4DW \<or> tlp_fmt t = FMT_4DW_DATA
      then let l = drop_bit 32 (tlp_address t) AND 0xffffffff
           in [l, l OR (tlp_address t AND 0xfffffffc)]
      else [tlp_address t AND 0xfffffffc])"

definition pack_completion :: "tlp \<Rightarrow> int list" where
  "pack_completion t =
     [(tlp_byte_count t AND 0xfff) OR push_bit 12 (tlp_bcm t AND 1) OR
      push_bit 13 (tlp_status t AND 0x7) OR push_bit 16 (id_int (tlp_completer_id t)),
      (tlp_lower_address t AND 0x7f) OR push_bit 8 (tlp_tag t AND 0xff) OR
      push_bit 16 (id_int (tlp_requester_id t))]"

definition pack :: "tlp \<Rightarrow> py_error + int list" where
  "pack t =
     (if is_config t \<or> is_mem t \<or> is_io t
      then Inr ([pack_head t, pack_request t] @
                (if is_config t then [pack_config t] else pack_address t) @
                (if has_data t then tlp_data t else []))
      else if is_completion t
      then Inr ([pack_head t] @ pack_completion t @ (if has_data t then tlp_data t else []))
      else Inl (OtherException ''Unknown TLP type''))"

section \<open>Unpacking\<close>

definition dw :: "int list \<Rightarrow> nat \<Rightarrow> py_error + int" where
  "dw pkt k = (if k < length pkt then Inr (pkt ! k) else Inl IndexError)"

definition unpack_head :: "int \<Rightarrow> tlp \<Rightarrow> tlp" where
  "unpack_head p t =
     (let t1 = t\<lparr>tlp_length := p AND 0x3ff, tlp_at := drop_bit 10 p AND 0x3,
                 tlp_attr := (drop_bit 12 p AND 0x3) OR (drop_bit 16 p AND 0x4),
                 tlp_ep := drop_bit 14 p AND 1, tlp_td := drop_bit 15 p AND 1,
                 tlp_th := drop_bit 16 p AND 1, tlp_tc := drop_bit 20 p AND 0x7,
                 tlp_type := drop_bit 24 p AND 0x1f, tlp_fmt := drop_bit 29 p AND 0x7\<rparr>
      in if has_data t1 \<and> tlp_length t1 = 0 then t1\<lparr>tlp_length := 1024\<rparr> else t1)"

definition unpack_request :: "int list \<Rightarrow> tlp \<Rightarrow> py_error + tlp" where
  "unpack_request pkt t =
     try_bind (dw pkt 1) (\<lambda>p1.
       let t1 = t\<lparr>tlp_first_be := p1 AND 0xf, tlp_last_be := drop_bit 4 p1 AND 0xf,
                  tlp_tag := drop_bit 8 p1 AND 0xff, tlp_requester_id := from_int (drop_bit 16 p1)\<rparr>
       in if is_config t1
          then try_bind (dw pkt 2) (\<lambda>p2.
                 Inr (t1\<lparr>tlp_register_number := drop_bit 0x3ff (drop_bit 2 p2),
                         tlp_dest_id := from_int (drop_bit 16 p2)\<rparr>))
          else if tlp_fmt t1 = FMT_3DW \<or> tlp_fmt t1 = FMT_3DW_DATA
          then try_bind (dw pkt 3) (\<lambda>p3. Inr (t1\<lparr>tlp_address := p3 AND 0xfffffffc\<rparr>))
          else if tlp_fmt t1 = FMT_4DW \<or> tlp_fmt t1 = FMT_4DW_DATA
          then try_bind (dw pkt 4) (\<lambda>p4.
                 Inr (t1\<lparr>tlp_address := push_bit 32 (p4 AND 0xffffffff) OR (p4 AND 0xfffffffc)\<rparr>))
          else Inr t1)"

definition unpack_completion :: "int list \<Rightarrow> tlp \<Rightarrow> py_error + tlp" where
  "unpack_completion pkt t =
     try_bind (dw pkt 1) (\<lambda>p1. try_bind (dw pkt 2) (\<lambda>p2.
       let n = p1 AND 0xfff
       in Inr (t\<lparr>tlp_byte_count := (if n = 0 then 4096 else n), tlp_bcm := drop_bit 12 p1 AND 1,
                 tlp_status := drop_bit 13 p1 AND 0x7, tlp_completer_id := from_int (drop_bit 16 p1),
                 tlp_lower_address := p2 AND 0x7f, tlp_tag := drop_bit 8 p2 AND 0xff,
                 tlp_requester_id := from_int (drop_bit 16 p2)\<rparr>)))"

definition unpack :: "int list \<Rightarrow> tlp \<Rightarrow> py_error + tlp" where
  "unpack pkt t =
     try_bind (dw pkt 0) (\<lambda>p0.
       let t1 = unpack_head p0 t
       in try_bind
            (if is_config t1 \<or> is_mem t1 \<or> is_io t1 then unpack_request pkt t1
             else if is_completion t1 then unpack_completion pkt t1
             else Inl (OtherException ''Unknown TLP type''))
            (\<lambda>t2. Inr (if tlp_fmt t2 = FMT_3DW_DATA then t2\<lparr>tlp_data := drop 3 pkt\<rparr>
                       else if tlp_fmt t2 = FMT_4DW_DATA then t2\<lparr>tlp_data := drop 4 pkt\<rparr>
                       else t2)))"

text \<open>\<open>__eq__\<close> compares all fields but \<open>th\<close>.\<close>

definition tlp_eq :: "tlp \<Rightarrow> tlp \<Rightarrow> bool" where
  "tlp_eq a b \<longleftrightarrow> a\<lparr>tlp_th := 0\<rparr> = b\<lparr>tlp_th := 0\<rparr>"

end
