(* ===== verification/PCIE_TLP_Correct.thy ===== *)
theory PCIE_TLP_Correct
  imports PCIE_TLP
begin

text \<open>
  Properties of transaction layer packets: byte enables describe the byte range they were
  computed from, data survives the conversion to double words, completions survive packing,
  and the requests that do not.
\<close>

section \<open>Byte enables\<close>

text \<open>The number of double words that a byte range touches.\<close>

lemma be_length:
  fixes addr len :: int
  defines "f \<equiv> addr mod 4" and "l \<equiv> 3 - (addr + len - 1) mod 4"
  shows "4 * ((len + f + l + 3) div 4) = len + f + l"
  unfolding f_def l_def by presburger

lemma set_be_fields:
  assumes "set_be addr len t = (t', f, l)" and "1 \<le> len"
  shows "f = addr mod 4" "l = 3 - (addr + len - 1) mod 4" "0 \<le> f" "f \<le> 3" "0 \<le> l" "l \<le> 3"
    "4 * tlp_length t' = len + f + l" "1 \<le> tlp_length t'"
    "tlp_address t' = addr AND NOT 3"
    "tlp_first_be t' = (if tlp_length t' = 1 then (push_bit (nat f) 0xf AND 0xf) AND drop_bit (nat l) 0xf
       else push_bit (nat f) 0xf AND 0xf)"
    "tlp_last_be t' = (if tlp_length t' = 1 then 0 else drop_bit (nat l) 0xf)"
proof -
  have fl: "f = addr mod 4" "l = 3 - (addr + len - 1) mod 4"
    "tlp_length t' = (len + f + l + 3) div 4"
    using assms(1) by (auto simp: set_be_def Let_def)
  show "f = addr mod 4" "l = 3 - (addr + len - 1) mod 4" by (fact fl)+
  show bounds: "0 \<le> f" "f \<le> 3" "0 \<le> l" "l \<le> 3" using fl by auto
  show n: "4 * tlp_length t' = len + f + l" unfolding fl(3) fl(1,2) by (rule be_length)
  show "1 \<le> tlp_length t'" using n bounds assms(2) by linarith
  show "tlp_address t' = addr AND NOT 3"
    "tlp_first_be t' = (if tlp_length t' = 1 then (push_bit (nat f) 0xf AND 0xf) AND drop_bit (nat l) 0xf
       else push_bit (nat f) 0xf AND 0xf)"
    "tlp_last_be t' = (if tlp_length t' = 1 then 0 else drop_bit (nat l) 0xf)"
    using assms(1) by (auto simp: set_be_def Let_def)
qed

lemma pad_cases:
  fixes f :: int
  assumes "0 \<le> f" "f \<le> 3"
  obtains "f = 0" | "f = 1" | "f = 2" | "f = 3"
  using assms by linarith

lemma set_be_offsets:
  assumes "set_be addr len t = (t', f, l)" and "1 \<le> len"
  shows "get_first_be_offset t' = f" and "get_last_be_offset t' = l"
proof -
  note s = set_be_fields [OF assms]
  have "get_first_be_offset t' = f \<and> get_last_be_offset t' = l"
  proof (cases "tlp_length t' = 1")
    case True
    then have "f + l \<le> 3" using s(7) assms(2) by linarith
    with s(3-6) True s(10) show ?thesis
      by (auto elim!: pad_cases [of f] pad_cases [of l] simp: get_first_be_offset_def get_last_be_offset_def)
  next
    case False
    with s(3-6) s(10,11) show ?thesis
      by (auto elim!: pad_cases [of f] pad_cases [of l] simp: get_first_be_offset_def get_last_be_offset_def)
  qed
  then show "get_first_be_offset t' = f" and "get_last_be_offset t' = l" by auto
qed

section \<open>Data\<close>

lemma dwords_ok:
  assumes "length bs = 4 * n" and "\<forall>b\<in>set bs. is_byte b"
  shows "\<exists>ds. dwords bs = Inr ds \<and> length ds = n \<and> pack_dwords ds = Inr bs"
  using assms
proof (induction n arbitrary: bs)
  case (Suc n)
  then obtain a b c d rest where bs: "bs = a # b # c # d # rest" "length rest = 4 * n"
    by (auto simp: length_Suc_conv numeral_eq_Suc)
  with Suc.IH [of rest] Suc.prems(2) obtain ds where
    ds: "dwords rest = Inr ds" "length ds = n" "pack_dwords ds = Inr rest" by auto
  have four: "\<forall>x\<in>set [a, b, c, d]. is_byte x" using Suc.prems(2) bs(1) by simp
  have "le_bytes 4 (le_value [a, b, c, d]) = [a, b, c, d]"
    using le_bytes_value [OF four] by (simp add: eval_nat_numeral)
  then have "pack_dword (le_value [a, b, c, d]) = Inr [a, b, c, d]"
    using le_value_range [OF four] by (simp add: pack_dword_def del: le_value.simps)
  then show ?case using bs(1) ds by (simp del: le_value.simps)
qed simp

lemma dwords_short:
  "length bs mod 4 \<noteq> 0 \<Longrightarrow> dwords bs = Inl StructError"
  by (induction bs rule: dwords.induct) auto

lemma set_be_data_ok:
  assumes "bs \<noteq> []" and "\<forall>b\<in>set bs. is_byte b"
  shows "\<exists>t' f l. set_be_data addr bs t = Inr t' \<and>
     f = nat (addr mod 4) \<and> get_data t' = Inr (replicate f 0 @ bs @ replicate l 0) \<and>
     get_first_be_offset t' = int f \<and> get_last_be_offset t' = int l \<and>
     tlp_address t' = addr AND NOT 3 \<and> tlp_length t' = int (length (tlp_data t')) \<and>
     4 * length (tlp_data t') = f + length bs + l \<and> fmt_type t' = fmt_type t"
proof -
  let ?t = "t\<lparr>tlp_address := addr AND NOT 3\<rparr>"
  obtain t1 f l where be: "set_be addr (int (length bs)) ?t = (t1, f, l)" by (metis prod_cases3)
  have len: "1 \<le> int (length bs)" using assms(1) by (cases bs) auto
  note s = set_be_fields [OF be len]
  let ?bs = "replicate (nat f) 0 @ bs @ replicate (nat l) 0"
  have "4 * nat (tlp_length t1) = nat f + length bs + nat l" using s(3,5,7) by linarith
  then have "length ?bs = 4 * nat (tlp_length t1)" by simp
  moreover have "\<forall>b\<in>set ?bs. is_byte b" using assms(2) by (auto simp: is_byte_def)
  ultimately obtain ds where ds: "dwords ?bs = Inr ds" "length ds = nat (tlp_length t1)"
    "pack_dwords ds = Inr ?bs" using dwords_ok by blast
  have n: "int (length ds) = tlp_length t1" using ds(2) s(8) by simp
  let ?t' = "t1\<lparr>tlp_data := ds, tlp_length := int (length ds)\<rparr>"
  have eq: "get_first_be_offset ?t' = get_first_be_offset t1" "get_last_be_offset ?t' = get_last_be_offset t1"
    using n by (simp_all add: get_first_be_offset_def get_last_be_offset_def)
  have "set_be_data addr bs t = Inr ?t'" using be ds(1) by (simp add: set_be_data_def set_data_def)
  moreover have "get_data ?t' = Inr ?bs" using ds(3) by (simp add: get_data_def)
  moreover have "fmt_type ?t' = fmt_type t" using be by (auto simp: set_be_def Let_def fmt_type_def)
  moreover have "4 * length ds = nat f + length bs + nat l" using ds(2) s(3,5,7) by linarith
  moreover have "nat f = nat (addr mod 4)" using s(1) by simp
  moreover have "get_first_be_offset ?t' = int (nat f)" "get_last_be_offset ?t' = int (nat l)"
    using eq set_be_offsets [OF be len] s(3,5) by simp_all
  moreover have "tlp_address ?t' = addr AND NOT 3" "tlp_length ?t' = int (length (tlp_data ?t'))"
    "length (tlp_data ?t') = length ds"
    using s(9) by simp_all
  ultimately show ?thesis by metis
qed

section \<open>Packing and unpacking\<close>

lemma and_4: "x AND 4 = push_bit 2 (take_bit 1 (drop_bit 2 (x :: int)))"
proof (rule bit_eqI)
  fix n
  have "(4 :: int) = push_bit 2 1" by simp
  then have "bit (4 :: int) n \<longleftrightarrow> n = 2" by (simp only: bit_push_bit_iff bit_1_iff) auto
  then show "bit (x AND 4) n = bit (push_bit 2 (take_bit 1 (drop_bit 2 x))) n"
    by (simp only: bit_and_iff bit_push_bit_iff bit_take_bit_iff bit_drop_bit_eq comp_def) (auto simp: numeral_2_eq_2)
qed

lemma join_3: "take_bit 2 a OR push_bit 2 (take_bit 1 (drop_bit 2 (a :: int))) = take_bit 3 a"
proof (rule bit_eqI)
  fix n
  show "bit (take_bit 2 a OR push_bit 2 (take_bit 1 (drop_bit 2 a))) n = bit (take_bit 3 a) n"
    by (simp only: bit_or_iff bit_push_bit_iff bit_take_bit_iff bit_drop_bit_eq comp_def) (auto simp: less_Suc_eq numeral_2_eq_2 numeral_3_eq_3)
qed

text \<open>Fields within their width.\<close>

definition head_ok :: "tlp \<Rightarrow> bool" where
  "head_ok t \<longleftrightarrow>
     (if has_data t then 1 \<le> tlp_length t \<and> tlp_length t \<le> 1024 else 0 \<le> tlp_length t \<and> tlp_length t < 1024) \<and>
     0 \<le> tlp_at t \<and> tlp_at t < 4 \<and> 0 \<le> tlp_attr t \<and> tlp_attr t < 8 \<and>
     0 \<le> tlp_ep t \<and> tlp_ep t < 2 \<and> 0 \<le> tlp_td t \<and> tlp_td t < 2 \<and> 0 \<le> tlp_th t \<and> tlp_th t < 2 \<and>
     0 \<le> tlp_tc t \<and> tlp_tc t < 8 \<and> 0 \<le> tlp_type t \<and> tlp_type t < 32 \<and> 0 \<le> tlp_fmt t \<and> tlp_fmt t < 8"

lemma head_fields:
  assumes "head_ok t"
  shows "pack_head t AND 0x3ff = (if tlp_length t = 1024 then 0 else tlp_length t)"
    "drop_bit 10 (pack_head t) AND 0x3 = tlp_at t"
    "(drop_bit 12 (pack_head t) AND 0x3) OR (drop_bit 16 (pack_head t) AND 0x4) = tlp_attr t"
    "drop_bit 14 (pack_head t) AND 1 = tlp_ep t" "drop_bit 15 (pack_head t) AND 1 = tlp_td t"
    "drop_bit 16 (pack_head t) AND 1 = tlp_th t" "drop_bit 20 (pack_head t) AND 0x7 = tlp_tc t"
    "drop_bit 24 (pack_head t) AND 0x1f = tlp_type t" "drop_bit 29 (pack_head t) AND 0x7 = tlp_fmt t"
proof -
  note d = pack_head_def mask_simps and_4
  have "take_bit 10 (tlp_length t) = (if tlp_length t = 1024 then 0 else tlp_length t)"
    using assms take_bit_id [of "tlp_length t" 10] by (auto simp: head_ok_def take_bit_eq_mod split: if_splits)
  then show "pack_head t AND 0x3ff = (if tlp_length t = 1024 then 0 else tlp_length t)" by (simp add: d)
  show "drop_bit 10 (pack_head t) AND 0x3 = tlp_at t"
    using assms take_bit_id [of "tlp_at t" 2] by (simp add: d head_ok_def)
  show "(drop_bit 12 (pack_head t) AND 0x3) OR (drop_bit 16 (pack_head t) AND 0x4) = tlp_attr t"
    using assms take_bit_id [of "tlp_attr t" 3] by (simp add: d head_ok_def join_3 [simplified])
  show "drop_bit 14 (pack_head t) AND 1 = tlp_ep t"
    using assms take_bit_id [of "tlp_ep t" 1] by (simp add: d head_ok_def)
  show "drop_bit 15 (pack_head t) AND 1 = tlp_td t"
    using assms take_bit_id [of "tlp_td t" 1] by (simp add: d head_ok_def)
  show "drop_bit 16 (pack_head t) AND 1 = tlp_th t"
    using assms take_bit_id [of "tlp_th t" 1] by (simp add: d head_ok_def)
  show "drop_bit 20 (pack_head t) AND 0x7 = tlp_tc t"
    using assms take_bit_id [of "tlp_tc t" 3] by (simp add: d head_ok_def)
  show "drop_bit 24 (pack_head t) AND 0x1f = tlp_type t"
    using assms take_bit_id [of "tlp_type t" 5] by (simp add: d head_ok_def)
  show "drop_bit 29 (pack_head t) AND 0x7 = tlp_fmt t"
    using assms take_bit_id [of "tlp_fmt t" 3] by (simp add: d head_ok_def)
qed

lemma unpack_pack_head:
  assumes "head_ok t"
  shows "unpack_head (pack_head t) u =
    u\<lparr>tlp_length := tlp_length t, tlp_at := tlp_at t, tlp_attr := tlp_attr t, tlp_ep := tlp_ep t,
      tlp_td := tlp_td t, tlp_th := tlp_th t, tlp_tc := tlp_tc t, tlp_type := tlp_type t,
      tlp_fmt := tlp_fmt t\<rparr>"
proof -
  have "tlp_length t = 0 \<Longrightarrow> \<not> has_data t" "tlp_length t = 1024 \<Longrightarrow> has_data t"
    using assms by (auto simp: head_ok_def split: if_splits)
  then show ?thesis
    by (auto simp: unpack_head_def head_fields [OF assms] Let_def has_data_def)
qed

definition completion_ok :: "tlp \<Rightarrow> bool" where
  "completion_ok t \<longleftrightarrow> is_completion t \<and> head_ok t \<and>
     1 \<le> tlp_byte_count t \<and> tlp_byte_count t \<le> 4096 \<and> 0 \<le> tlp_bcm t \<and> tlp_bcm t < 2 \<and>
     0 \<le> tlp_status t \<and> tlp_status t < 8 \<and> 0 \<le> tlp_lower_address t \<and> tlp_lower_address t < 128 \<and>
     0 \<le> tlp_tag t \<and> tlp_tag t < 256 \<and> id_ok (tlp_completer_id t) \<and> id_ok (tlp_requester_id t)"

lemma completion_fields:
  assumes "completion_ok t"
  defines "p \<equiv> pack_completion t"
  shows "p ! 0 AND 0xfff = (if tlp_byte_count t = 4096 then 0 else tlp_byte_count t)"
    "drop_bit 12 (p ! 0) AND 1 = tlp_bcm t" "drop_bit 13 (p ! 0) AND 0x7 = tlp_status t"
    "from_int (drop_bit 16 (p ! 0)) = tlp_completer_id t"
    "p ! 1 AND 0x7f = tlp_lower_address t" "drop_bit 8 (p ! 1) AND 0xff = tlp_tag t"
    "from_int (drop_bit 16 (p ! 1)) = tlp_requester_id t"
proof -
  note d = p_def pack_completion_def mask_simps
  have ok: "id_ok (tlp_completer_id t)" "id_ok (tlp_requester_id t)"
    using assms(1) by (simp_all add: completion_ok_def)
  have "take_bit 12 (tlp_byte_count t) = (if tlp_byte_count t = 4096 then 0 else tlp_byte_count t)"
    using assms(1) take_bit_id [of "tlp_byte_count t" 12] by (auto simp: completion_ok_def take_bit_eq_mod)
  then show "p ! 0 AND 0xfff = (if tlp_byte_count t = 4096 then 0 else tlp_byte_count t)" by (simp add: d)
  show "drop_bit 12 (p ! 0) AND 1 = tlp_bcm t"
    using assms(1) take_bit_id [of "tlp_bcm t" 1] by (simp add: d completion_ok_def)
  show "drop_bit 13 (p ! 0) AND 0x7 = tlp_status t"
    using assms(1) take_bit_id [of "tlp_status t" 3] by (simp add: d completion_ok_def)
  show "from_int (drop_bit 16 (p ! 0)) = tlp_completer_id t" using ok by (simp add: d from_int_id)
  show "p ! 1 AND 0x7f = tlp_lower_address t"
    using assms(1) take_bit_id [of "tlp_lower_address t" 7] by (simp add: d completion_ok_def)
  show "drop_bit 8 (p ! 1) AND 0xff = tlp_tag t"
    using assms(1) take_bit_id [of "tlp_tag t" 8] by (simp add: d completion_ok_def)
  show "from_int (drop_bit 16 (p ! 1)) = tlp_requester_id t" using ok by (simp add: d from_int_id)
qed

text \<open>The fields that a completion does not carry are left at their defaults.\<close>

definition only_completion :: "tlp \<Rightarrow> bool" where
  "only_completion t \<longleftrightarrow> tlp_dest_id t = PcieId 0 0 0 \<and> tlp_first_be t = 0 \<and> tlp_last_be t = 0 \<and>
     tlp_address t = 0 \<and> tlp_register_number t = 0 \<and> (has_data t \<or> tlp_data t = [])"

text \<open>C8. Packing a completion into double words and unpacking them into a fresh packet gives
  the completion back, for all field values within their width, the full length of 1024
  double words and the full byte count of 4096 included.\<close>

theorem completion_pack_unpack:
  assumes "completion_ok t" and "only_completion t"
  shows "try_bind (pack t) (\<lambda>pkt. unpack pkt new_tlp) = Inr t"
proof -
  let ?c = "pack_completion t" and ?d = "if has_data t then tlp_data t else []"
  let ?pkt = "[pack_head t] @ ?c @ ?d"
  let ?h = "unpack_head (pack_head t) new_tlp"
  have head: "head_ok t" "is_completion t" using assms(1) by (simp_all add: completion_ok_def)
  have not: "\<not> (is_config t \<or> is_mem t \<or> is_io t)"
    using head(2) by (auto simp: is_completion_def is_config_def is_mem_def is_io_def tlp_type_defs)
  note h = unpack_pack_head [OF head(1), of new_tlp]
  have kind: "is_config ?h = is_config t" "is_mem ?h = is_mem t" "is_io ?h = is_io t"
    "is_completion ?h = is_completion t"
    by (simp_all add: h is_config_def is_mem_def is_io_def is_completion_def fmt_type_def)
  have len: "length ?c = 2" by (simp add: pack_completion_def)
  then obtain c0 c1 where c: "?c = [c0, c1]" by (auto simp: length_Suc_conv numeral_2_eq_2)
  note f = completion_fields [OF assms(1), unfolded c, simplified]
  have pk: "pack t = Inr ?pkt" using not head(2) by (simp add: pack_def)
  have dw: "dw ?pkt 0 = Inr (pack_head t)" "dw ?pkt 1 = Inr c0" "dw ?pkt 2 = Inr c1"
    by (simp_all add: dw_def c)
  have fmt: "tlp_fmt t = FMT_3DW \<or> tlp_fmt t = FMT_3DW_DATA"
    using head(2) by (auto simp: is_completion_def fmt_type_def tlp_type_defs)
  have drop: "drop 3 ?pkt = ?d" by (simp add: c)
  let ?u = "?h\<lparr>tlp_byte_count := tlp_byte_count t, tlp_bcm := tlp_bcm t, tlp_status := tlp_status t,
      tlp_completer_id := tlp_completer_id t, tlp_lower_address := tlp_lower_address t,
      tlp_tag := tlp_tag t, tlp_requester_id := tlp_requester_id t\<rparr>"
  let ?v = "new_tlp\<lparr>tlp_length := tlp_length t, tlp_at := tlp_at t, tlp_attr := tlp_attr t, tlp_ep := tlp_ep t,
      tlp_td := tlp_td t, tlp_th := tlp_th t, tlp_tc := tlp_tc t, tlp_type := tlp_type t,
      tlp_fmt := tlp_fmt t, tlp_byte_count := tlp_byte_count t, tlp_bcm := tlp_bcm t, tlp_status := tlp_status t,
      tlp_completer_id := tlp_completer_id t, tlp_lower_address := tlp_lower_address t,
      tlp_tag := tlp_tag t, tlp_requester_id := tlp_requester_id t\<rparr>"
  have "1 \<le> tlp_byte_count t" using assms(1) by (simp add: completion_ok_def)
  then have "unpack_completion ?pkt ?h = Inr ?u"
    unfolding unpack_completion_def dw try_bind.simps Let_def f by simp
  then have "unpack ?pkt new_tlp = Inr (if tlp_fmt ?u = FMT_3DW_DATA then ?u\<lparr>tlp_data := drop 3 ?pkt\<rparr>
      else if tlp_fmt ?u = FMT_4DW_DATA then ?u\<lparr>tlp_data := drop 4 ?pkt\<rparr> else ?u)"
    unfolding unpack_def dw try_bind.simps Let_def kind using not head(2) by simp
  also have "\<dots> = Inr t"
    unfolding drop h using fmt
  proof
    assume "tlp_fmt t = FMT_3DW"
    with assms(2) show "Inr (if tlp_fmt ?v = FMT_3DW_DATA then ?v\<lparr>tlp_data := ?d\<rparr>
      else if tlp_fmt ?v = FMT_4DW_DATA then ?v\<lparr>tlp_data := drop 4 ?pkt\<rparr> else ?v) = Inr t"
      by (cases t) (simp add: only_completion_def has_data_def new_tlp_def fmt_defs)
  next
    assume "tlp_fmt t = FMT_3DW_DATA"
    with assms(2) show "Inr (if tlp_fmt ?v = FMT_3DW_DATA then ?v\<lparr>tlp_data := ?d\<rparr>
      else if tlp_fmt ?v = FMT_4DW_DATA then ?v\<lparr>tlp_data := drop 4 ?pkt\<rparr> else ?v) = Inr t"
      by (cases t) (simp add: only_completion_def has_data_def new_tlp_def fmt_defs)
  qed
  finally show ?thesis by (simp add: pk)
qed

definition example_completion :: tlp where
  "example_completion = new_tlp\<lparr>tlp_fmt := 2, tlp_type := 0x0A, tlp_length := 1, tlp_attr := 5,
     tlp_tag := 9, tlp_byte_count := 4096, tlp_completer_id := PcieId 1 2 3,
     tlp_requester_id := PcieId 255 31 7, tlp_lower_address := 0x44, tlp_data := [0xdeadbeef]\<rparr>"

theorem completion_pack_unpack_witness:
  "try_bind (pack example_completion) (\<lambda>pkt. unpack pkt new_tlp) = Inr example_completion"
proof (rule completion_pack_unpack)
  show "completion_ok example_completion"
    by (simp add: example_completion_def completion_ok_def is_completion_def fmt_type_def head_ok_def
        has_data_def id_ok_def PcieId_def new_tlp_def tlp_type_defs)
  show "only_completion example_completion"
    by (simp add: example_completion_def only_completion_def new_tlp_def has_data_def fmt_defs)
qed

section \<open>Requests\<close>

lemma and_not_3: "addr AND NOT 3 = 4 * (addr div 4)" for addr :: int
proof -
  have "addr AND NOT 3 = push_bit 2 (drop_bit 2 addr)"
    using and_not_mask [of addr 2] by (simp add: mask_eq_exp_minus_1)
  then show ?thesis by (simp add: push_bit_eq_mult drop_bit_eq_div)
qed

text \<open>C9. A request prepared from a byte address and bytes carries, around zero padding, exactly
  these bytes; its byte enables give back the offset of the first byte, the number of bytes
  and, with the double word address, the byte address.\<close>

theorem set_be_data_roundtrip:
  assumes "bs \<noteq> []" and "\<forall>b\<in>set bs. is_byte b"
  shows "\<exists>t' f l. set_be_data addr bs t = Inr t' \<and>
     get_data t' = Inr (replicate f 0 @ bs @ replicate l 0) \<and>
     get_first_be_offset t' = int f \<and> get_last_be_offset t' = int l \<and>
     get_be_byte_count t' = int (length bs) \<and> tlp_address t' + get_first_be_offset t' = addr \<and>
     tlp_length t' = int (length (tlp_data t'))"
proof -
  from set_be_data_ok [OF assms, of addr t] obtain t' f l where
    t': "set_be_data addr bs t = Inr t'" "f = nat (addr mod 4)"
      "get_data t' = Inr (replicate f 0 @ bs @ replicate l 0)"
      "get_first_be_offset t' = int f" "get_last_be_offset t' = int l"
      "tlp_address t' = addr AND NOT 3" "tlp_length t' = int (length (tlp_data t'))"
      "4 * length (tlp_data t') = f + length bs + l"
    by blast
  have "get_be_byte_count t' = int (length bs)"
    using t'(4,5,7,8) by (simp add: get_be_byte_count_def)
  moreover have "tlp_address t' + get_first_be_offset t' = addr"
    unfolding t'(4,6) and_not_3 using t'(2) by simp
  ultimately show ?thesis using t' by blast
qed

theorem set_be_data_roundtrip_witness:
  "\<exists>t' f l. set_be_data 0x1003 [0xaa, 0xbb, 0xcc] new_tlp = Inr t' \<and>
     get_data t' = Inr (replicate f 0 @ [0xaa, 0xbb, 0xcc] @ replicate l 0) \<and>
     get_be_byte_count t' = 3 \<and> tlp_address t' + get_first_be_offset t' = 0x1003"
  using set_be_data_roundtrip [of "[0xaa, 0xbb, 0xcc]" "0x1003" new_tlp] by (fastforce simp: is_byte_def)

text \<open>C10. Unpacking a packed memory read request with a 32 bit address raises IndexError: the
  address is looked for in the double word after the one that holds it.\<close>

theorem mem_read_unpack_fails:
  assumes "head_ok t" and "fmt_type t = TLP_MEM_READ"
  shows "\<exists>pkt. pack t = Inr pkt \<and> length pkt = 3 \<and> pkt ! 2 = tlp_address t AND 0xfffffffc \<and>
     unpack pkt u = Inl IndexError"
proof -
  let ?pkt = "[pack_head t, pack_request t, tlp_address t AND 0xfffffffc]"
  let ?h = "unpack_head (pack_head t) u"
  note h = unpack_pack_head [OF assms(1), of u]
  have ft: "tlp_fmt t = 0" "tlp_type t = 0" using assms(2) by (simp_all add: fmt_type_def tlp_type_defs)
  have "pack t = Inr ?pkt"
    using ft by (simp add: pack_def is_mem_def is_config_def is_io_def fmt_type_def tlp_type_defs
        pack_address_def has_data_def)
  moreover have "unpack ?pkt u = Inl IndexError"
    using ft by (simp add: unpack_def dw_def h unpack_request_def is_mem_def is_config_def is_io_def
        fmt_type_def tlp_type_defs Let_def)
  ultimately show ?thesis by simp
qed

theorem mem_read_unpack_fails_witness:
  "\<exists>pkt. pack (new_tlp\<lparr>tlp_length := 1, tlp_first_be := 15, tlp_address := 0x1000\<rparr>) = Inr pkt \<and>
     pkt ! 2 = 0x1000 \<and> unpack pkt new_tlp = Inl IndexError"
  using mem_read_unpack_fails [of "new_tlp\<lparr>tlp_length := 1, tlp_first_be := 15, tlp_address := 0x1000\<rparr>" new_tlp]
  by (auto simp: head_ok_def has_data_def fmt_type_def tlp_type_defs new_tlp_def)

text \<open>C11. For every request whose byte enables were set from a byte address, the lower address
  field computed for its completion drops the two low bits of the byte address, which the
  first byte enable encodes.\<close>

theorem lower_address_drops_offset:
  assumes "1 \<le> len" and "set_be addr len t = (t', f, l)"
  shows "get_lower_address t' = addr AND 0x7c"
proof -
  note s = set_be_fields [OF assms(2,1)]
  have "(addr AND NOT 3) AND (0x7c + f) = addr AND 0x7c"
    using s(3,4) by (elim pad_cases) (simp_all add: and.assoc)
  then show ?thesis
    using s(9) set_be_offsets(1) [OF assms(2,1)] by (simp add: get_lower_address_def)
qed

theorem lower_address_drops_offset_witness:
  "\<exists>t' f l. set_be 0x1003 1 new_tlp = (t', f, l) \<and> get_first_be_offset t' = 3 \<and> get_lower_address t' = 0"
proof -
  obtain t' f l where t': "set_be 0x1003 1 new_tlp = (t', f, l)" by (metis prod_cases3)
  have "get_lower_address t' = 0x1003 AND 0x7c" by (rule lower_address_drops_offset [OF _ t']) simp
  moreover have "get_first_be_offset t' = 3"
    using set_be_offsets(1) [OF t'] set_be_fields(1) [OF t'] by simp
  ultimately show ?thesis using t' by simp
qed

end
