(* ===== verification/PCIE_CapList.thy ===== *)
theory PCIE_CapList
  imports PCIE_Base
begin

text \<open>
  Capability lists: the classes \<open>PcieCap\<close>, \<open>PcieExtCap\<close>, \<open>PcieCapList\<close> and
  \<open>PcieExtCapList\<close> of \<open>lib/pcie/tb/pcie.py\<close>. The callables \<open>read\<close> and \<open>write\<close> of a
  capability are tokens of a type \<open>'h\<close>; the operations that call them take the meaning of
  the tokens as a parameter. Register numbers and offsets count double words.
\<close>

section \<open>Capabilities\<close>

record 'h pcie_cap =
  cap_id :: int
  cap_ver :: "int option"
  cap_length :: "int option"
  cap_read :: "'h option"
  cap_write :: "'h option"
  cap_offset :: "int option"
  next_cap :: "int option"

datatype cap_type = PcieCapT | PcieExtCapT

record 'h cap_list =
  cl_type :: cap_type
  cl_list :: "'h pcie_cap list"
  cl_start :: int
  cl_end :: int

definition PcieCapList :: "'h cap_list" where
  "PcieCapList = \<lparr>cl_type = PcieCapT, cl_list = [], cl_start = 0x10, cl_end = 0x3f\<rparr>"

definition PcieExtCapList :: "'h cap_list" where
  "PcieExtCapList = \<lparr>cl_type = PcieExtCapT, cl_list = [], cl_start = 0x40, cl_end = 0x3ff\<rparr>"

text \<open>
  Reading through a capability. A callable may raise or return no value, and the arithmetic on
  a missing value, a missing \<open>next_cap\<close> or a missing \<open>cap_ver\<close> raises TypeError.
\<close>

definition cap_read_register ::
  "('h \<Rightarrow> int \<Rightarrow> py_error + int option) \<Rightarrow> 'h pcie_cap \<Rightarrow> int \<Rightarrow> py_error + int option" where
  "cap_read_register rd c reg =
     (case cap_read c of
        None \<Rightarrow> Inl TypeError
      | Some h \<Rightarrow>
          try_bind (rd h reg) (\<lambda>val.
            if reg = 0
            then (case (val, next_cap c) of
                    (Some v, Some n) \<Rightarrow>
                      Inr (Some ((v AND 0xffff0000) OR push_bit 8 (n AND 0xff) OR (cap_id c AND 0xff)))
                  | _ \<Rightarrow> Inl TypeError)
            else Inr val))"

definition ext_cap_read_register ::
  "('h \<Rightarrow> int \<Rightarrow> py_error + int option) \<Rightarrow> 'h pcie_cap \<Rightarrow> int \<Rightarrow> py_error + int option" where
  "ext_cap_read_register rd c reg =
     (if reg = 0
      then (case (next_cap c, cap_ver c) of
              (Some n, Some v) \<Rightarrow>
                Inr (Some (push_bit 20 (n AND 0xfff) OR push_bit 16 (v AND 0xf) OR (cap_id c AND 0xffff)))
            | _ \<Rightarrow> Inl TypeError)
      else (case cap_read c of None \<Rightarrow> Inl TypeError | Some h \<Rightarrow> rd h reg))"

section \<open>Lookup\<close>

text \<open>Every capability of a list has an offset and a length; registration gives it both.\<close>

definition find_by_id :: "'h cap_list \<Rightarrow> int \<Rightarrow> 'h pcie_cap option" where
  "find_by_id cl i = find (\<lambda>c. cap_id c = i) (cl_list cl)"

definition cap_covers :: "'h pcie_cap \<Rightarrow> int \<Rightarrow> bool" where
  "cap_covers c reg =
     (case (cap_offset c, cap_length c) of
        (Some off, Some len) \<Rightarrow> off \<le> reg \<and> reg < off + len
      | _ \<Rightarrow> False)"

definition find_by_reg :: "'h cap_list \<Rightarrow> int \<Rightarrow> 'h pcie_cap option" where
  "find_by_reg cl reg = find (\<lambda>c. cap_covers c reg) (cl_list cl)"

definition cl_read_register ::
  "('h \<Rightarrow> int \<Rightarrow> py_error + int option) \<Rightarrow> 'h cap_list \<Rightarrow> int \<Rightarrow> py_error + int option" where
  "cl_read_register rd cl reg =
     (case find_by_reg cl reg of
        None \<Rightarrow> Inr (Some 0)
      | Some c \<Rightarrow>
          (case cl_type cl of
             PcieCapT \<Rightarrow> cap_read_register rd c (reg - the (cap_offset c))
           | PcieExtCapT \<Rightarrow> ext_cap_read_register rd c (reg - the (cap_offset c))))"

text \<open>The callable a write goes to and the register number it is given.\<close>

definition cl_write_register ::
  "('h \<Rightarrow> int \<Rightarrow> int \<Rightarrow> int \<Rightarrow> 's \<Rightarrow> py_error + 's) \<Rightarrow> 'h cap_list \<Rightarrow> int \<Rightarrow> int \<Rightarrow> int \<Rightarrow> 's \<Rightarrow>
   py_error + 's" where
  "cl_write_register wr cl reg d msk s =
     (case find_by_reg cl reg of
        None \<Rightarrow> Inr s
      | Some c \<Rightarrow>
          (case cap_write c of
             None \<Rightarrow> Inl TypeError
           | Some h \<Rightarrow> wr h (reg - the (cap_offset c)) d msk s))"

section \<open>Registration\<close>

definition truthy :: "int option \<Rightarrow> bool" where
  "truthy v \<longleftrightarrow> v \<noteq> None \<and> v \<noteq> Some 0"

text \<open>The pointers to the next capability; the pointer of a lone capability is not touched.\<close>

fun link_caps :: "'h pcie_cap list \<Rightarrow> 'h pcie_cap list" where
  "link_caps (a # b # rest) =
     a\<lparr>next_cap := Some (the (cap_offset b) * 4)\<rparr> # link_caps (b\<lparr>next_cap := Some 0\<rparr> # rest)"
| "link_caps cs = cs"

definition place :: "'h pcie_cap \<Rightarrow> 'h cap_list \<Rightarrow> 'h cap_list" where
  "place c cl = cl\<lparr>cl_list := link_caps (sort_key (\<lambda>c. the (cap_offset c)) (cl_list cl @ [c]))\<rparr>"

text \<open>The search for a free offset compares with \<open><\<close> at the upper end of the new capability.\<close>

definition bump_offset :: "int \<Rightarrow> 'h pcie_cap \<Rightarrow> int \<Rightarrow> int" where
  "bump_offset len c off =
     (if the (cap_offset c) < off + len - 1 \<and> off \<le> the (cap_offset c) + the (cap_length c) - 1
      then the (cap_offset c) + the (cap_length c) else off)"

definition auto_place :: "'h pcie_cap \<Rightarrow> 'h cap_list \<Rightarrow> 'h cap_list" where
  "auto_place c cl =
     place (c\<lparr>cap_offset := Some (fold (bump_offset (the (cap_length c))) (cl_list cl) (cl_start cl))\<rparr>) cl"

definition overlaps :: "'h pcie_cap \<Rightarrow> 'h pcie_cap \<Rightarrow> bool" where
  "overlaps c new \<longleftrightarrow>
     the (cap_offset c) \<le> the (cap_offset new) + the (cap_length new) - 1 \<and>
     the (cap_offset new) \<le> the (cap_offset c) + the (cap_length c) - 1"

text \<open>
  A capability with an offset displaces the ones it overlaps, which are then registered
  again without an offset.
\<close>

definition insert_cap :: "'h pcie_cap \<Rightarrow> 'h cap_list \<Rightarrow> py_error + 'h cap_list" where
  "insert_cap c cl =
     (if \<not> truthy (cap_length c) \<or> cap_read c = None \<or> cap_write c = None
      then Inl (OtherException ''Missing required parameter'')
      else if truthy (cap_offset c)
      then let bump = filter (\<lambda>x. overlaps x c) (cl_list cl);
               cl' = place c (cl\<lparr>cl_list := filter (\<lambda>x. \<not> overlaps x c) (cl_list cl)\<rparr>)
           in Inr (fold (\<lambda>x. auto_place (x\<lparr>cap_offset := None\<rparr>)) bump cl')
      else Inr (auto_place c cl))"

definition register ::
  "int \<Rightarrow> int option \<Rightarrow> int option \<Rightarrow> 'h option \<Rightarrow> 'h option \<Rightarrow> int option \<Rightarrow> 'h cap_list \<Rightarrow>
   py_error + 'h cap_list" where
  "register i ver len rd wr off cl =
     (case find_by_id cl i of
        Some c \<Rightarrow>
          insert_cap
            (c\<lparr>cap_ver := (if ver \<noteq> None then ver else cap_ver c),
               cap_length := (if truthy len then len else cap_length c),
               cap_read := (if rd \<noteq> None then rd else cap_read c),
               cap_write := (if wr \<noteq> None then wr else cap_write c),
               cap_offset := (if truthy off then off else cap_offset c)\<rparr>)
            (cl\<lparr>cl_list := remove1 c (cl_list cl)\<rparr>)
      | None \<Rightarrow>
          insert_cap \<lparr>cap_id = i, cap_ver = ver, cap_length = len, cap_read = rd, cap_write = wr,
                      cap_offset = off, next_cap = None\<rparr> cl)"

end
