(* ===== verification/PCIE_CapList_Correct.thy ===== *)
theory PCIE_CapList_Correct
  imports PCIE_CapList
begin

text \<open>
  Properties of capability lists: the layout that registration without offsets gives, the walk
  over the linked capabilities, the routing of register numbers, and the placements that
  overlap.
\<close>

section \<open>Packed lists\<close>

text \<open>Capabilities that follow each other without gaps from an offset on.\<close>

fun packed :: "int \<Rightarrow> 'h pcie_cap list \<Rightarrow> bool" where
  "packed off [] \<longleftrightarrow> True"
| "packed off (c # cs) \<longleftrightarrow>
     cap_offset c = Some off \<and> (\<exists>len. cap_length c = Some len \<and> 2 \<le> len \<and> packed (off + len) cs)"

definition total :: "'h pcie_cap list \<Rightarrow> int" where
  "total cs = (\<Sum>c\<leftarrow>cs. the (cap_length c))"

lemma total_simps [simp]: "total [] = 0" "total (c # cs) = the (cap_length c) + total cs"
  by (simp_all add: total_def)

lemma packed_append:
  "packed off (cs @ ds) \<longleftrightarrow> packed off cs \<and> packed (off + total cs) ds"
  by (induction cs arbitrary: off) (auto simp: add.assoc)

lemma packed_offset: "packed off cs \<Longrightarrow> c \<in> set cs \<Longrightarrow> off \<le> the (cap_offset c)"
  by (induction cs arbitrary: off) fastforce+

lemma packed_below:
  "packed off cs \<Longrightarrow> c \<in> set cs \<Longrightarrow> the (cap_offset c) + the (cap_length c) \<le> off + total cs"
proof (induction cs arbitrary: off)
  case (Cons d cs)
  have "0 \<le> total cs" if "packed o' cs" for o'
    using that by (induction cs arbitrary: o') fastforce+
  then show ?case using Cons by fastforce
qed simp

text \<open>The search for a free offset moves past every capability of a packed list.\<close>

lemma bump_packed: "packed off cs \<Longrightarrow> 2 \<le> len \<Longrightarrow> fold (bump_offset len) cs off = off + total cs"
  by (induction cs arbitrary: off) (auto simp: bump_offset_def)

lemma packed_sorted: "packed off cs \<Longrightarrow> sorted (map (\<lambda>c. the (cap_offset c)) cs)"
proof (induction cs arbitrary: off)
  case (Cons d cs)
  then show ?case using packed_offset [of _ cs] by fastforce
qed simp

section \<open>Links\<close>

text \<open>What linking keeps, and the pointers it sets.\<close>

lemma link_caps_map:
  assumes "\<And>c n. f (c\<lparr>next_cap := n\<rparr>) = f c"
  shows "map f (link_caps cs) = map f cs"
  using assms by (induction cs rule: link_caps.induct) auto

lemma length_link_caps [simp]: "length (link_caps cs) = length cs"
  by (induction cs rule: link_caps.induct) auto

lemma packed_link_caps [simp]: "packed off (link_caps cs) = packed off cs"
  by (induction cs arbitrary: off rule: link_caps.induct) auto

lemma total_link_caps [simp]: "total (link_caps cs) = total cs"
  by (simp add: total_def link_caps_map)

lemma link_caps_next:
  "i < length cs \<Longrightarrow> next_cap (link_caps cs ! i) =
     (if Suc i < length cs then Some (the (cap_offset (cs ! Suc i)) * 4)
      else if length cs = 1 then next_cap (cs ! 0) else Some 0)"
proof (induction cs arbitrary: i rule: link_caps.induct)
  case (1 a b rest)
  then show ?case by (cases i) (auto simp: nth_Cons')
qed auto

section \<open>Registration without offsets\<close>

lemma sort_key_snoc:
  assumes "packed off cs" and "the (cap_offset c) = off + total cs"
  shows "sort_key (\<lambda>c. the (cap_offset c)) (cs @ [c]) = cs @ [c]"
proof (rule sort_key_id_if_sorted)
  have "the (cap_offset d) \<le> the (cap_offset c)" if "d \<in> set cs" for d
  proof -
    have "the (cap_offset d) + the (cap_length d) \<le> off + total cs" using packed_below [OF assms(1) that] .
    moreover have "0 \<le> the (cap_length d)" using assms(1) that by (induction cs arbitrary: off) fastforce+
    ultimately show ?thesis using assms(2) by linarith
  qed
  then show "sorted (map (\<lambda>c. the (cap_offset c)) (cs @ [c]))"
    using packed_sorted [OF assms(1)] by (auto simp: sorted_append)
qed

lemma auto_place_packed:
  assumes "packed (cl_start cl) (cl_list cl)" and "cap_length c = Some len" and "2 \<le> len"
  shows "cl_list (auto_place c cl) =
           link_caps (cl_list cl @ [c\<lparr>cap_offset := Some (cl_start cl + total (cl_list cl))\<rparr>])"
    and "packed (cl_start cl) (cl_list (auto_place c cl))" and "auto_place c cl = cl\<lparr>cl_list := cl_list (auto_place c cl)\<rparr>"
proof -
  let ?c = "c\<lparr>cap_offset := Some (cl_start cl + total (cl_list cl))\<rparr>"
  have "sort_key (\<lambda>c. the (cap_offset c)) (cl_list cl @ [?c]) = cl_list cl @ [?c]"
    by (rule sort_key_snoc [OF assms(1)]) simp
  then show eq: "cl_list (auto_place c cl) = link_caps (cl_list cl @ [?c])"
    using assms by (simp add: auto_place_def place_def bump_packed)
  show "packed (cl_start cl) (cl_list (auto_place c cl))"
    using assms by (simp add: eq packed_append)
  show "auto_place c cl = cl\<lparr>cl_list := cl_list (auto_place c cl)\<rparr>" by (simp add: auto_place_def place_def)
qed

text \<open>The calls that the constructors make: identifier, length and the two callables.\<close>

fun register_all :: "(int \<times> int \<times> 'h \<times> 'h) list \<Rightarrow> 'h cap_list \<Rightarrow> py_error + 'h cap_list" where
  "register_all [] cl = Inr cl"
| "register_all ((i, len, rd, wr) # calls) cl =
     try_bind (register i (Some 0) (Some len) (Some rd) (Some wr) None cl) (register_all calls)"

definition entry :: "'h pcie_cap \<Rightarrow> int \<times> int option \<times> 'h option \<times> 'h option" where
  "entry c = (cap_id c, cap_length c, cap_read c, cap_write c)"

definition call_entry :: "int \<times> int \<times> 'h \<times> 'h \<Rightarrow> int \<times> int option \<times> 'h option \<times> 'h option" where
  "call_entry c = (case c of (i, len, rd, wr) \<Rightarrow> (i, Some len, Some rd, Some wr))"

text \<open>Links of a list: each capability points to the next one, the last one to none.\<close>

definition linked :: "'h pcie_cap list \<Rightarrow> bool" where
  "linked cs \<longleftrightarrow> (\<forall>i < length cs. 2 \<le> length cs \<longrightarrow> next_cap (cs ! i) =
     (if Suc i < length cs then Some (the (cap_offset (cs ! Suc i)) * 4) else Some 0))"

lemma linked_link_caps: "linked (link_caps cs)"
proof -
  have "cap_offset (link_caps cs ! i) = cap_offset (cs ! i)" if "i < length cs" for i
  proof -
    have "map cap_offset (link_caps cs) ! i = map cap_offset cs ! i" by (simp add: link_caps_map)
    then show ?thesis using that by simp
  qed
  then show ?thesis by (auto simp: linked_def link_caps_next)
qed

lemma register_new:
  assumes "find_by_id cl i = None" and "2 \<le> len" and "packed (cl_start cl) (cl_list cl)"
  obtains cl' where "register i (Some 0) (Some len) (Some rd) (Some wr) None cl = Inr cl'"
    "packed (cl_start cl) (cl_list cl')" "cl' = cl\<lparr>cl_list := cl_list cl'\<rparr>" "linked (cl_list cl')"
    "map entry (cl_list cl') = map entry (cl_list cl) @ [(i, Some len, Some rd, Some wr)]"
proof -
  let ?c = "\<lparr>cap_id = i, cap_ver = Some 0, cap_length = Some len, cap_read = Some rd, cap_write = Some wr,
     cap_offset = None, next_cap = None\<rparr>"
  note a = auto_place_packed [OF assms(3), of ?c len]
  have "register i (Some 0) (Some len) (Some rd) (Some wr) None cl = Inr (auto_place ?c cl)"
    using assms by (simp add: register_def insert_cap_def truthy_def)
  moreover have "map entry (cl_list (auto_place ?c cl)) = map entry (cl_list cl) @ [(i, Some len, Some rd, Some wr)]"
    using a assms(2) by (simp add: link_caps_map entry_def)
  ultimately show ?thesis using that a assms(2) by (simp add: linked_link_caps)
qed

lemma find_by_id_None: "find_by_id cl i = None \<longleftrightarrow> i \<notin> fst ` set (map entry (cl_list cl))"
  by (simp add: find_by_id_def find_None_iff image_image entry_def) force

lemma register_all_packed:
  assumes "distinct (map fst calls)" and "\<forall>(i, len, h) \<in> set calls. 2 \<le> len \<and> find_by_id cl i = None"
    and "packed (cl_start cl) (cl_list cl)" and "linked (cl_list cl)"
  shows "\<exists>cl'. register_all calls cl = Inr cl' \<and> cl' = cl\<lparr>cl_list := cl_list cl'\<rparr> \<and> packed (cl_start cl) (cl_list cl') \<and>
     linked (cl_list cl') \<and> map entry (cl_list cl') = map entry (cl_list cl) @ map call_entry calls"
  using assms
proof (induction calls arbitrary: cl)
  case (Cons call calls)
  obtain i len rd wr where call: "call = (i, len, rd, wr)" by (cases call)
  with Cons.prems have "find_by_id cl i = None" "2 \<le> len" by auto
  then obtain cl1 where cl1: "register i (Some 0) (Some len) (Some rd) (Some wr) None cl = Inr cl1"
    "packed (cl_start cl) (cl_list cl1)" "cl1 = cl\<lparr>cl_list := cl_list cl1\<rparr>" "linked (cl_list cl1)"
    "map entry (cl_list cl1) = map entry (cl_list cl) @ [(i, Some len, Some rd, Some wr)]"
    by (rule register_new [OF _ _ Cons.prems(3), of i len rd wr])
  have "\<exists>cl'. register_all calls cl1 = Inr cl' \<and> cl' = cl1\<lparr>cl_list := cl_list cl'\<rparr> \<and> packed (cl_start cl1) (cl_list cl') \<and>
     linked (cl_list cl') \<and> map entry (cl_list cl') = map entry (cl_list cl1) @ map call_entry calls"
  proof (rule Cons.IH)
    have "2 \<le> m \<and> find_by_id cl1 j = None" if "(j, m, h) \<in> set calls" for j m h
    proof -
      have "j \<noteq> i" using Cons.prems(1) call that by (auto simp: rev_image_eqI)
      moreover have "2 \<le> m" "find_by_id cl j = None" using Cons.prems(2) that by auto
      ultimately show ?thesis unfolding find_by_id_None cl1(5) by simp
    qed
    then show "\<forall>(j, len, h) \<in> set calls. 2 \<le> len \<and> find_by_id cl1 j = None" by blast
    have "cl_start cl1 = cl_start cl" by (subst cl1(3)) simp
    then show "packed (cl_start cl1) (cl_list cl1)" using cl1(2) by simp
  qed (use Cons.prems(1) cl1(4) in auto)
  then obtain cl' where cl': "register_all calls cl1 = Inr cl'" "cl' = cl1\<lparr>cl_list := cl_list cl'\<rparr>"
    "packed (cl_start cl1) (cl_list cl')" "linked (cl_list cl')"
    "map entry (cl_list cl') = map entry (cl_list cl1) @ map call_entry calls" by blast
  have "cl_start cl1 = cl_start cl" by (subst cl1(3)) simp
  moreover have "cl' = cl\<lparr>cl_list := cl_list cl'\<rparr>" by (subst cl'(2), subst cl1(3)) simp
  moreover have "register_all (call # calls) cl = Inr cl'" using call cl1(1) cl'(1) by simp
  moreover have "map entry (cl_list cl') = map entry (cl_list cl) @ map call_entry (call # calls)"
    using call cl'(5) cl1(5) by (simp add: call_entry_def)
  ultimately show ?case using cl'(3,4) by metis
qed auto

text \<open>A register number inside the packed area belongs to exactly one capability.\<close>

lemma find_packed:
  assumes "packed off cs" and "j < length cs" and "0 \<le> k" and "k < the (cap_length (cs ! j))"
  shows "find (\<lambda>c. cap_covers c (the (cap_offset (cs ! j)) + k)) cs = Some (cs ! j)"
  using assms
proof (induction cs arbitrary: off j)
  case (Cons c cs)
  then obtain len where c: "cap_offset c = Some off" "cap_length c = Some len" "2 \<le> len" "packed (off + len) cs"
    by auto
  show ?case
  proof (cases j)
    case 0
    then show ?thesis using Cons.prems c by (simp add: cap_covers_def)
  next
    case (Suc i)
    then have i: "i < length cs" using Cons.prems by simp
    then have "off + len \<le> the (cap_offset (cs ! i))" using packed_offset [OF c(4)] by simp
    then have "\<not> cap_covers c (the (cap_offset (cs ! i)) + k)" using c Cons.prems(3) by (simp add: cap_covers_def)
    then show ?thesis using Cons.IH [OF c(4) i Cons.prems(3)] Cons.prems(4) Suc by simp
  qed
qed simp

section \<open>Properties\<close>

lemma packed_nth_offset: "packed off cs \<Longrightarrow> j < length cs \<Longrightarrow> cap_offset (cs ! j) = Some (off + total (take j cs))"
proof (induction cs arbitrary: off j)
  case (Cons c cs)
  then show ?case by (cases j) (auto simp: add.assoc)
qed simp

lemma total_entry:
  assumes "map entry cs = map call_entry calls"
  shows "total (take j cs) = (\<Sum>(i, len, h)\<leftarrow>take j calls. len)"
proof -
  have "total (take j cs) = sum_list (take j (map (the \<circ> fst \<circ> snd) (map entry cs)))"
    by (simp add: total_def entry_def take_map comp_def)
  also have "\<dots> = (\<Sum>(i, len, h)\<leftarrow>take j calls. len)"
    by (auto simp: assms call_entry_def take_map comp_def intro!: arg_cong [where f = sum_list] split: prod.split)
  finally show ?thesis .
qed

text \<open>C12. Capabilities with distinct identifiers and at least two double words each, registered
  without offsets, are laid out from the start of the list in the order of registration without
  gaps or overlap. Each capability points to the next one and the last one ends the chain, and
  every register of the area is routed to the capability it belongs to.\<close>

theorem register_all_layout:
  assumes "distinct (map fst calls)" and "\<forall>(i, len, h) \<in> set calls. 2 \<le> len" and "2 \<le> length calls"
  shows "\<exists>cs. register_all calls PcieCapList = Inr (PcieCapList\<lparr>cl_list := cs\<rparr>) \<and>
     map entry cs = map call_entry calls \<and>
     (\<forall>j < length cs.
        cap_offset (cs ! j) = Some (0x10 + (\<Sum>(i, len, h)\<leftarrow>take j calls. len)) \<and>
        next_cap (cs ! j) = (if Suc j < length cs then Some (the (cap_offset (cs ! Suc j)) * 4) else Some 0) \<and>
        (\<forall>k. 0 \<le> k \<and> k < the (cap_length (cs ! j)) \<longrightarrow>
           find_by_reg (PcieCapList\<lparr>cl_list := cs\<rparr>) (the (cap_offset (cs ! j)) + k) = Some (cs ! j)))"
proof -
  have "\<exists>cl'. register_all calls (PcieCapList :: 'a cap_list) = Inr cl' \<and> cl' = PcieCapList\<lparr>cl_list := cl_list cl'\<rparr> \<and>
     packed (cl_start (PcieCapList :: 'a cap_list)) (cl_list cl') \<and> linked (cl_list cl') \<and>
     map entry (cl_list cl') = map entry (cl_list (PcieCapList :: 'a cap_list)) @ map call_entry calls"
    using assms by (intro register_all_packed) (auto simp: PcieCapList_def find_by_id_def linked_def)
  then obtain cl' where cl': "register_all calls PcieCapList = Inr cl'" "cl' = PcieCapList\<lparr>cl_list := cl_list cl'\<rparr>"
    "packed 0x10 (cl_list cl')" "linked (cl_list cl')" "map entry (cl_list cl') = map call_entry calls"
    by (auto simp: PcieCapList_def)
  let ?cs = "cl_list cl'"
  have len: "length ?cs = length calls" using arg_cong [OF cl'(5), of length] by simp
  have "cap_offset (?cs ! j) = Some (0x10 + (\<Sum>(i, len, h)\<leftarrow>take j calls. len))" if "j < length ?cs" for j
    using packed_nth_offset [OF cl'(3) that] total_entry [OF cl'(5)] by simp
  moreover have "find_by_reg (PcieCapList\<lparr>cl_list := ?cs\<rparr>) (the (cap_offset (?cs ! j)) + k) = Some (?cs ! j)"
    if "j < length ?cs" "0 \<le> k" "k < the (cap_length (?cs ! j))" for j k
    using find_packed [OF cl'(3) that] by (simp add: find_by_reg_def)
  ultimately show ?thesis using cl' len assms(3) unfolding linked_def by (intro exI [of _ ?cs]) auto
qed

theorem register_all_layout_witness:
  "\<exists>cs. register_all [(0x10, 15, ''rd'', ''wr''), (0x01, 2, ''rd'', ''wr'')] PcieCapList =
      Inr (PcieCapList\<lparr>cl_list := cs\<rparr>) \<and>
     map cap_offset cs = [Some 0x10, Some 0x1f] \<and> map next_cap cs = [Some 0x7c, Some 0]"
proof -
  let ?calls = "[(0x10, 15, ''rd'', ''wr''), (0x01, 2, ''rd'', ''wr'')] :: (int \<times> int \<times> string \<times> string) list"
  have "distinct (map fst ?calls)" "\<forall>(i, len, h) \<in> set ?calls. 2 \<le> len" "2 \<le> length ?calls" by simp_all
  from register_all_layout [OF this] obtain cs where cs:
    "register_all ?calls PcieCapList = Inr (PcieCapList\<lparr>cl_list := cs\<rparr>)" "map entry cs = map call_entry ?calls"
    "\<forall>j < length cs. cap_offset (cs ! j) = Some (0x10 + (\<Sum>(i, len, h)\<leftarrow>take j ?calls. len)) \<and>
       next_cap (cs ! j) = (if Suc j < length cs then Some (the (cap_offset (cs ! Suc j)) * 4) else Some 0)"
    by blast
  have len: "length cs = 2" using arg_cong [OF cs(2), of length] by simp
  then obtain a b where ab: "cs = [a, b]" by (auto simp: length_Suc_conv numeral_2_eq_2)
  show ?thesis using cs(1) cs(3) [THEN spec, of 0] cs(3) [THEN spec, of 1] by (auto simp: ab)
qed

text \<open>The search for a free offset does not see that a capability of one double word needs room.\<close>

lemma bump_single: "packed off cs \<Longrightarrow> start \<le> off \<Longrightarrow> fold (bump_offset 1) cs start = start"
  by (induction cs arbitrary: off) (fastforce simp: bump_offset_def)+

text \<open>C13. In a list without gaps, whose capabilities lie one after the other from the first double word of the list on with
  at least two double words each, a capability of one double word that is registered without an
  offset is placed on the first double word, on top of the capability there: the comparison with
  the end of the new capability is strict where the comparison of the branch for given offsets is not. (A list
  that leaves its first double word free has room there, and nothing overlaps.)\<close>

theorem register_single_overlaps:
  assumes "find_by_id cl i = None" and "packed (cl_start cl) (cl_list cl)" and "cl_list cl \<noteq> []"
  shows "\<exists>cl' c d. register i (Some 0) (Some 1) (Some rd) (Some wr) None cl = Inr cl' \<and>
     c \<in> set (cl_list cl') \<and> d \<in> set (cl_list cl') \<and> cap_id c = i \<and> cap_id d \<noteq> i \<and>
     cap_covers c (cl_start cl) \<and> cap_covers d (cl_start cl)"
proof -
  let ?c = "\<lparr>cap_id = i, cap_ver = Some 0, cap_length = Some 1, cap_read = Some rd, cap_write = Some wr,
     cap_offset = Some (cl_start cl), next_cap = None\<rparr>"
  let ?cs = "sort_key (\<lambda>c. the (cap_offset c)) (cl_list cl @ [?c])"
  let ?key = "\<lambda>c. (cap_id c, cap_offset c, cap_length c)"
  have reg: "register i (Some 0) (Some 1) (Some rd) (Some wr) None cl = Inr (cl\<lparr>cl_list := link_caps ?cs\<rparr>)"
    using assms(1) bump_single [OF assms(2)]
    by (simp add: register_def insert_cap_def truthy_def auto_place_def place_def)
  obtain d where d: "d \<in> set (cl_list cl)" "cap_offset d = Some (cl_start cl)" "the (cap_length d) \<ge> 2" "cap_length d \<noteq> None"
    using assms(2,3) by (cases "cl_list cl") (fastforce simp: numeral_2_eq_2)+
  have id: "cap_id d \<noteq> i" using assms(1) d(1) by (auto simp: find_by_id_def find_None_iff)
  have "set (map ?key (link_caps ?cs)) = ?key ` set (cl_list cl @ [?c])" by (subst link_caps_map) auto
  then have keys: "?key ` set (link_caps ?cs) = ?key ` set (cl_list cl @ [?c])" by simp
  have "?key ?c \<in> ?key ` set (link_caps ?cs)" "?key d \<in> ?key ` set (link_caps ?cs)"
    unfolding keys using d(1) by simp_all
  then obtain c' d' where c': "c' \<in> set (link_caps ?cs)" "?key ?c = ?key c'"
    and d': "d' \<in> set (link_caps ?cs)" "?key d = ?key d'" by blast
  have "cap_covers c' (cl_start cl)" "cap_covers d' (cl_start cl)" "cap_id c' = i" "cap_id d' \<noteq> i"
    using c'(2) [symmetric] d'(2) [symmetric] d id by (auto simp: cap_covers_def)
  then show ?thesis using reg c'(1) d'(1) by (intro exI [of _ "cl\<lparr>cl_list := link_caps ?cs\<rparr>"]) auto
qed

theorem register_single_overlaps_witness:
  "\<exists>cl cl' c d. register 0x10 (Some 0) (Some 15) (Some ''rd'') (Some ''wr'') None PcieCapList = Inr cl \<and>
     register 0x01 (Some 0) (Some 1) (Some ''rd'') (Some ''wr'') None cl = Inr cl' \<and>
     c \<in> set (cl_list cl') \<and> d \<in> set (cl_list cl') \<and> cap_id c = 0x01 \<and> cap_id d \<noteq> 0x01 \<and>
     cap_covers c 0x10 \<and> cap_covers d 0x10"
proof -
  let ?cl = "PcieCapList\<lparr>cl_list := [\<lparr>cap_id = 0x10, cap_ver = Some 0, cap_length = Some 15, cap_read = Some ''rd'',
     cap_write = Some ''wr'', cap_offset = Some 0x10, next_cap = None\<rparr>]\<rparr>"
  have "register 0x10 (Some 0) (Some 15) (Some ''rd'') (Some ''wr'') None PcieCapList = Inr ?cl"
    by (simp add: register_def find_by_id_def insert_cap_def truthy_def auto_place_def place_def PcieCapList_def)
  moreover have "find_by_id ?cl 0x01 = None" "packed (cl_start ?cl) (cl_list ?cl)" "cl_list ?cl \<noteq> []"
    by (simp_all add: find_by_id_def PcieCapList_def)
  from register_single_overlaps [OF this, of "''rd''" "''wr''"] have "\<exists>cl' c d.
     register 0x01 (Some 0) (Some 1) (Some ''rd'') (Some ''wr'') None ?cl = Inr cl' \<and>
     c \<in> set (cl_list cl') \<and> d \<in> set (cl_list cl') \<and> cap_id c = 0x01 \<and> cap_id d \<noteq> 0x01 \<and>
     cap_covers c 0x10 \<and> cap_covers d 0x10" by (simp add: PcieCapList_def)
  ultimately show ?thesis by blast
qed

end
