(* ===== verification/PCIE_CapRegs.thy ===== *)
theory PCIE_CapRegs
  imports PCIE_Base
begin

text \<open>
  Registers of the capabilities in \<open>lib/pcie/tb/pcie.py\<close>: \<open>PMCapability\<close>,
  \<open>PCIECapability\<close>, \<open>MSICapability\<close> and \<open>MSIXCapability\<close>. The attributes of
  \<open>PCIECapability\<close> are grouped into one record for each register that shows them. The hooks \<open>initiate_function_level_reset\<close> and
  \<open>initiate_retrain_link\<close> are empty methods.
\<close>

section \<open>PCI Express capability: attributes and reads\<close>

record pcie_caps =
  pcie_capability_version :: int
  pcie_device_type :: int
  pcie_slot_implemented :: bool
  interrupt_message_number :: int

definition init_pcie_caps :: pcie_caps where
  "init_pcie_caps =
     \<lparr>pcie_capability_version = 2, pcie_device_type = 0, pcie_slot_implemented = False,
       interrupt_message_number = 0\<rparr>"

definition read_pcie_caps :: "pcie_caps \<Rightarrow> int" where
  "read_pcie_caps r =
     push_bit 16 2 OR
     push_bit 20 (pcie_device_type r AND 0xf) OR
     flag 24 (pcie_slot_implemented r) OR
     push_bit 25 (interrupt_message_number r AND 0x1f)"

record device_caps =
  max_payload_size_supported :: int
  phantom_functions_supported :: int
  extended_tag_supported :: bool
  endpoint_l0s_acceptable_latency :: int
  endpoint_l1_acceptable_latency :: int
  role_based_error_reporting :: bool
  captured_slot_power_limit_value :: int
  captured_slot_power_limit_scale :: int
  function_level_reset_capability :: bool

definition init_device_caps :: device_caps where
  "init_device_caps =
     \<lparr>max_payload_size_supported = 0x5, phantom_functions_supported = 0,
       extended_tag_supported = True, endpoint_l0s_acceptable_latency = 0x7,
       endpoint_l1_acceptable_latency = 0x7, role_based_error_reporting = True,
       captured_slot_power_limit_value = 0, captured_slot_power_limit_scale = 0,
       function_level_reset_capability = False\<rparr>"

definition read_device_caps :: "device_caps \<Rightarrow> int" where
  "read_device_caps r =
     (max_payload_size_supported r AND 0x7) OR
     push_bit 3 (phantom_functions_supported r AND 0x3) OR
     flag 5 (extended_tag_supported r) OR
     push_bit 6 (endpoint_l0s_acceptable_latency r AND 0x7) OR
     push_bit 9 (endpoint_l1_acceptable_latency r AND 0x7) OR
     flag 15 (role_based_error_reporting r) OR
     push_bit 18 (captured_slot_power_limit_value r AND 0xff) OR
     push_bit 26 (captured_slot_power_limit_scale r AND 0x3) OR
     flag 28 (function_level_reset_capability r)"

record device_ctrl =
  correctable_error_reporting_enable :: bool
  non_fatal_error_reporting_enable :: bool
  fatal_error_reporting_enable :: bool
  unsupported_request_reporting_enable :: bool
  enable_relaxed_ordering :: bool
  max_payload_size :: int
  extended_tag_field_enable :: bool
  phantom_functions_enable :: bool
  aux_power_pm_enable :: bool
  enable_no_snoop :: bool
  max_read_request_size :: int
  correctable_error_detected :: bool
  nonfatal_error_detected :: bool
  fatal_error_detected :: bool
  unsupported_request_detected :: bool
  aux_power_detected :: bool
  transactions_pending :: bool

definition init_device_ctrl :: device_ctrl where
  "init_device_ctrl =
     \<lparr>correctable_error_reporting_enable = False, non_fatal_error_reporting_enable =
       False, fatal_error_reporting_enable = False, unsupported_request_reporting_enable =
       False, enable_relaxed_ordering = True, max_payload_size = 0x0, extended_tag_field_enable
       = False, phantom_functions_enable = False, aux_power_pm_enable = False, enable_no_snoop
       = True, max_read_request_size = 0x2, correctable_error_detected = False,
       nonfatal_error_detected = False, fatal_error_detected = False,
       unsupported_request_detected = False, aux_power_detected = False, transactions_pending =
       False\<rparr>"

definition read_device_ctrl :: "device_ctrl \<Rightarrow> int" where
  "read_device_ctrl r =
     flag 0 (correctable_error_reporting_enable r) OR
     flag 1 (non_fatal_error_reporting_enable r) OR
     flag 2 (fatal_error_reporting_enable r) OR
     flag 3 (unsupported_request_reporting_enable r) OR
     flag 4 (enable_relaxed_ordering r) OR
     push_bit 5 (max_payload_size r AND 0x7) OR
     flag 8 (extended_tag_field_enable r) OR
     flag 9 (phantom_functions_enable r) OR
     flag 10 (aux_power_pm_enable r) OR
     flag 11 (enable_no_snoop r) OR
     push_bit 12 (max_read_request_size r AND 0x7) OR
     flag 16 (correctable_error_detected r) OR
     flag 17 (nonfatal_error_detected r) OR
     flag 18 (fatal_error_detected r) OR
     flag 19 (unsupported_request_detected r) OR
     flag 20 (aux_power_detected r) OR
     flag 21 (transactions_pending r)"

record link_capabilities =
  max_link_speed :: int
  max_link_width :: int
  aspm_support :: int
  l0s_exit_latency :: int
  l1_exit_latency :: int
  clock_power_management :: bool
  surprise_down_error_reporting_capability :: bool
  data_link_layer_link_active_reporting_capable :: bool
  link_bandwidth_notification_capability :: bool
  aspm_optionality_compliance :: bool
  port_number :: int

definition init_link_capabilities :: link_capabilities where
  "init_link_capabilities =
     \<lparr>max_link_speed = 0, max_link_width = 0, aspm_support = 0, l0s_exit_latency = 0,
       l1_exit_latency = 0, clock_power_management = False,
       surprise_down_error_reporting_capability = False,
       data_link_layer_link_active_reporting_capable = False,
       link_bandwidth_notification_capability = False, aspm_optionality_compliance = False,
       port_number = 0\<rparr>"

definition read_link_capabilities :: "link_capabilities \<Rightarrow> int" where
  "read_link_capabilities r =
     (max_link_speed r AND 0xf) OR
     drop_bit 4 (max_link_width r AND 0x3f) OR
     drop_bit 10 (aspm_support r AND 0x3) OR
     drop_bit 12 (l0s_exit_latency r AND 0x7) OR
     drop_bit 15 (l1_exit_latency r AND 0x7) OR
     flag 18 (clock_power_management r) OR
     flag 19 (surprise_down_error_reporting_capability r) OR
     flag 20 (data_link_layer_link_active_reporting_capable r) OR
     flag 21 (link_bandwidth_notification_capability r) OR
     flag 22 (aspm_optionality_compliance r) OR
     push_bit 24 (port_number r AND 0xff)"

record link_ctrl =
  aspm_control :: int
  read_completion_boundary :: bool
  link_disable :: bool
  common_clock_configuration :: bool
  extended_synch :: bool
  enable_clock_power_management :: bool
  hardware_autonomous_width_disable :: bool
  link_bandwidth_management_interrupt_enable :: bool
  link_autonomous_bandwidth_interrupt_enable :: bool
  current_link_speed :: int
  negotiated_link_width :: int
  link_training :: bool
  slot_clock_configuration :: bool
  data_link_layer_link_active :: bool
  link_bandwidth_management_status :: bool
  link_autonomous_bandwidth_status :: bool

definition init_link_ctrl :: link_ctrl where
  "init_link_ctrl =
     \<lparr>aspm_control = 0, read_completion_boundary = False, link_disable = False,
       common_clock_configuration = False, extended_synch = False,
       enable_clock_power_management = False, hardware_autonomous_width_disable = False,
       link_bandwidth_management_interrupt_enable = False,
       link_autonomous_bandwidth_interrupt_enable = False, current_link_speed = 0,
       negotiated_link_width = 0, link_training = False, slot_clock_configuration = False,
       data_link_layer_link_active = False, link_bandwidth_management_status = False,
       link_autonomous_bandwidth_status = False\<rparr>"

definition read_link_ctrl :: "link_ctrl \<Rightarrow> int" where
  "read_link_ctrl r =
     (aspm_control r AND 0x3) OR
     flag 3 (read_completion_boundary r) OR
     flag 4 (link_disable r) OR
     flag 6 (common_clock_configuration r) OR
     flag 7 (extended_synch r) OR
     flag 8 (enable_clock_power_management r) OR
     flag 9 (hardware_autonomous_width_disable r) OR
     flag 10 (link_bandwidth_management_interrupt_enable r) OR
     flag 11 (link_autonomous_bandwidth_interrupt_enable r) OR
     push_bit 16 (current_link_speed r AND 0xf) OR
     push_bit 20 (negotiated_link_width r AND 0x3f) OR
     flag 27 (link_training r) OR
     flag 28 (slot_clock_configuration r) OR
     flag 29 (data_link_layer_link_active r) OR
     flag 30 (link_bandwidth_management_status r) OR
     flag 31 (link_autonomous_bandwidth_status r)"

record slot_caps =
  attention_button_present :: bool
  power_controller_present :: bool
  mrl_sensor_present :: bool
  attention_indicator_present :: bool
  power_indicator_present :: bool
  hot_plug_surprise :: bool
  hot_plug_capable :: bool
  slot_power_limit_value :: int
  slot_power_limit_scale :: int
  electromechanical_interlock_present :: bool
  no_command_completed_support :: bool
  physical_slot_number :: int

definition init_slot_caps :: slot_caps where
  "init_slot_caps =
     \<lparr>attention_button_present = False, power_controller_present = False,
       mrl_sensor_present = False, attention_indicator_present = False, power_indicator_present
       = False, hot_plug_surprise = False, hot_plug_capable = False, slot_power_limit_value =
       0, slot_power_limit_scale = 0, electromechanical_interlock_present = False,
       no_command_completed_support = False, physical_slot_number = 0\<rparr>"

definition read_slot_caps :: "slot_caps \<Rightarrow> int" where
  "read_slot_caps r =
     flag 0 (attention_button_present r) OR
     flag 1 (power_controller_present r) OR
     flag 2 (mrl_sensor_present r) OR
     flag 3 (attention_indicator_present r) OR
     flag 4 (power_indicator_present r) OR
     flag 5 (hot_plug_surprise r) OR
     flag 6 (hot_plug_capable r) OR
     push_bit 7 (slot_power_limit_value r AND 0xff) OR
     push_bit 15 (slot_power_limit_scale r AND 0x3) OR
     flag 17 (electromechanical_interlock_present r) OR
     flag 18 (no_command_completed_support r) OR
     push_bit 19 (physical_slot_number r AND 0x1fff)"

record slot_ctrl =
  attention_button_pressed_enable :: bool
  power_fault_detected_enable :: bool
  mrl_sensor_changed_enable :: bool
  presence_detect_changed_enable :: bool
  command_completed_interrupt_enable :: bool
  hot_plug_interrupt_enable :: bool
  attention_indicator_control :: int
  power_indicator_control :: int
  power_controller_control :: bool
  electromechanical_interlock_control :: bool
  data_link_layer_state_changed_enable :: bool
  attention_button_pressed :: bool
  power_fault_detected :: bool
  mrl_sensor_changed :: bool
  presence_detect_changed :: bool
  command_completed :: bool
  mrl_sensor_state :: bool
  presence_detect_state :: bool
  electromechanical_interlock_status :: bool
  data_link_layer_state_changed :: bool

definition init_slot_ctrl :: slot_ctrl where
  "init_slot_ctrl =
     \<lparr>attention_button_pressed_enable = False, power_fault_detected_enable = False,
       mrl_sensor_changed_enable = False, presence_detect_changed_enable = False,
       command_completed_interrupt_enable = False, hot_plug_interrupt_enable = False,
       attention_indicator_control = 0, power_indicator_control = 0, power_controller_control =
       False, electromechanical_interlock_control = False, data_link_layer_state_changed_enable
       = False, attention_button_pressed = False, power_fault_detected = False,
       mrl_sensor_changed = False, presence_detect_changed = False, command_completed = False,
       mrl_sensor_state = False, presence_detect_state = False,
       electromechanical_interlock_status = False, data_link_layer_state_changed =
       False\<rparr>"

definition read_slot_ctrl :: "slot_ctrl \<Rightarrow> int" where
  "read_slot_ctrl r =
     flag 0 (attention_button_pressed_enable r) OR
     flag 1 (power_fault_detected_enable r) OR
     flag 2 (mrl_sensor_changed_enable r) OR
     flag 3 (presence_detect_changed_enable r) OR
     flag 4 (command_completed_interrupt_enable r) OR
     flag 5 (hot_plug_interrupt_enable r) OR
     push_bit 6 (attention_indicator_control r AND 0x3) OR
     push_bit 8 (power_indicator_control r AND 0x3) OR
     flag 10 (power_controller_control r) OR
     flag 11 (electromechanical_interlock_control r) OR
     flag 12 (data_link_layer_state_changed_enable r) OR
     flag 16 (attention_button_pressed r) OR
     flag 17 (power_fault_detected r) OR
     flag 18 (mrl_sensor_changed r) OR
     flag 19 (presence_detect_changed r) OR
     flag 20 (command_completed r) OR
     flag 21 (mrl_sensor_state r) OR
     flag 22 (presence_detect_state r) OR
     flag 23 (electromechanical_interlock_status r) OR
     flag 24 (data_link_layer_state_changed r)"

record root_ctrl =
  system_error_on_correctable_error_enable :: bool
  system_error_on_non_fatal_error_enable :: bool
  system_error_on_fatal_error_enable :: bool
  pme_interrupt_enable :: bool
  crs_software_visibility_enable :: bool
  crs_software_visibility :: bool

definition init_root_ctrl :: root_ctrl where
  "init_root_ctrl =
     \<lparr>system_error_on_correctable_error_enable = False,
       system_error_on_non_fatal_error_enable = False, system_error_on_fatal_error_enable =
       False, pme_interrupt_enable = False, crs_software_visibility_enable = False,
       crs_software_visibility = False\<rparr>"

definition read_root_ctrl :: "root_ctrl \<Rightarrow> int" where
  "read_root_ctrl r =
     flag 0 (system_error_on_correctable_error_enable r) OR
     flag 1 (system_error_on_non_fatal_error_enable r) OR
     flag 2 (system_error_on_fatal_error_enable r) OR
     flag 3 (pme_interrupt_enable r) OR
     flag 4 (crs_software_visibility_enable r) OR
     flag 16 (crs_software_visibility r)"

record root_status =
  pme_requester_id :: int
  pme_status :: bool
  pme_pending :: bool

definition init_root_status :: root_status where
  "init_root_status =
     \<lparr>pme_requester_id = 0, pme_status = False, pme_pending = False\<rparr>"

definition read_root_status :: "root_status \<Rightarrow> int" where
  "read_root_status r =
     (pme_requester_id r AND 0xffff) OR
     flag 16 (pme_status r) OR
     flag 17 (pme_pending r)"

record device_caps2 =
  completion_timeout_ranges_supported :: int
  completion_timeout_disable_supported :: bool
  ari_forwarding_supported :: bool
  atomic_op_forwarding_supported :: bool
  atomic_op_32_bit_completer_supported :: bool
  atomic_op_64_bit_completer_supported :: bool
  cas_128_bit_completer_supported :: bool
  no_ro_enabled_pr_pr_passing :: bool
  ltr_mechanism_supported :: bool
  tph_completer_supported :: int
  obff_supported :: int
  extended_fmt_field_supported :: bool
  end_end_tlp_prefix_supported :: bool
  max_end_end_tlp_prefix :: int

definition init_device_caps2 :: device_caps2 where
  "init_device_caps2 =
     \<lparr>completion_timeout_ranges_supported = 0, completion_timeout_disable_supported =
       False, ari_forwarding_supported = False, atomic_op_forwarding_supported = False,
       atomic_op_32_bit_completer_supported = False, atomic_op_64_bit_completer_supported =
       False, cas_128_bit_completer_supported = False, no_ro_enabled_pr_pr_passing = False,
       ltr_mechanism_supported = False, tph_completer_supported = 0, obff_supported = 0,
       extended_fmt_field_supported = False, end_end_tlp_prefix_supported = False,
       max_end_end_tlp_prefix = 0\<rparr>"

definition read_device_caps2 :: "device_caps2 \<Rightarrow> int" where
  "read_device_caps2 r =
     (completion_timeout_ranges_supported r AND 0xf) OR
     flag 4 (completion_timeout_disable_supported r) OR
     flag 5 (ari_forwarding_supported r) OR
     flag 6 (atomic_op_forwarding_supported r) OR
     flag 7 (atomic_op_32_bit_completer_supported r) OR
     flag 8 (atomic_op_64_bit_completer_supported r) OR
     flag 9 (cas_128_bit_completer_supported r) OR
     flag 10 (no_ro_enabled_pr_pr_passing r) OR
     flag 11 (ltr_mechanism_supported r) OR
     push_bit 12 (tph_completer_supported r AND 0x3) OR
     push_bit 18 (obff_supported r AND 0x3) OR
     flag 20 (extended_fmt_field_supported r) OR
     flag 21 (end_end_tlp_prefix_supported r) OR
     push_bit 22 (max_end_end_tlp_prefix r AND 0x3)"

record device_ctrl2 =
  completion_timeout_value :: int
  completion_timeout_disable :: bool
  ari_forwarding_enable :: bool
  atomic_op_requester_enable :: bool
  atomic_op_egress_blocking :: bool
  ido_request_enable :: bool
  ido_completion_enable :: bool
  ltr_mechanism_enable :: bool
  obff_enable :: int
  end_end_tlp_prefix_blocking :: bool

definition init_device_ctrl2 :: device_ctrl2 where
  "init_device_ctrl2 =
     \<lparr>completion_timeout_value = 0, completion_timeout_disable = False,
       ari_forwarding_enable = False, atomic_op_requester_enable = False,
       atomic_op_egress_blocking = False, ido_request_enable = False, ido_completion_enable =
       False, ltr_mechanism_enable = False, obff_enable = 0, end_end_tlp_prefix_blocking =
       False\<rparr>"

definition read_device_ctrl2 :: "device_ctrl2 \<Rightarrow> int" where
  "read_device_ctrl2 r =
     (completion_timeout_value r AND 0xf) OR
     flag 4 (completion_timeout_disable r) OR
     flag 5 (ari_forwarding_enable r) OR
     flag 6 (atomic_op_requester_enable r) OR
     flag 7 (atomic_op_egress_blocking r) OR
     flag 8 (ido_request_enable r) OR
     flag 9 (ido_completion_enable r) OR
     flag 10 (ltr_mechanism_enable r) OR
     push_bit 13 (obff_enable r AND 0x3) OR
     flag 15 (end_end_tlp_prefix_blocking r)"

record link_caps2 =
  supported_link_speeds :: int
  crosslink_supported :: bool

definition init_link_caps2 :: link_caps2 where
  "init_link_caps2 =
     \<lparr>supported_link_speeds = 0, crosslink_supported = False\<rparr>"

definition read_link_caps2 :: "link_caps2 \<Rightarrow> int" where
  "read_link_caps2 r =
     push_bit 1 (supported_link_speeds r AND 0x7f) OR
     flag 8 (crosslink_supported r)"

record link_ctrl2 =
  target_link_speed :: int
  enter_compliance :: bool
  hardware_autonomous_speed_disable :: bool
  selectable_de_emphasis :: bool
  transmit_margin :: int
  enter_modified_compliance :: bool
  compliance_sos :: bool
  compliance_preset_de_emphasis :: int
  current_de_emphasis_level :: bool
  equalization_complete :: bool
  equalization_phase_1_successful :: bool
  equalization_phase_2_successful :: bool
  equalization_phase_3_successful :: bool
  link_equalization_request :: bool

definition init_link_ctrl2 :: link_ctrl2 where
  "init_link_ctrl2 =
     \<lparr>target_link_speed = 0, enter_compliance = False, hardware_autonomous_speed_disable
       = False, selectable_de_emphasis = False, transmit_margin = 0, enter_modified_compliance
       = False, compliance_sos = False, compliance_preset_de_emphasis = 0,
       current_de_emphasis_level = False, equalization_complete = False,
       equalization_phase_1_successful = False, equalization_phase_2_successful = False,
       equalization_phase_3_successful = False, link_equalization_request = False\<rparr>"

definition read_link_ctrl2 :: "link_ctrl2 \<Rightarrow> int" where
  "read_link_ctrl2 r =
     (target_link_speed r AND 0xf) OR
     flag 4 (enter_compliance r) OR
     flag 5 (hardware_autonomous_speed_disable r) OR
     flag 6 (selectable_de_emphasis r) OR
     push_bit 7 (transmit_margin r AND 0x7) OR
     flag 10 (enter_modified_compliance r) OR
     flag 11 (compliance_sos r) OR
     push_bit 12 (compliance_preset_de_emphasis r AND 0xf) OR
     flag 16 (current_de_emphasis_level r) OR
     flag 17 (equalization_complete r) OR
     flag 18 (equalization_phase_1_successful r) OR
     flag 19 (equalization_phase_2_successful r) OR
     flag 20 (equalization_phase_3_successful r) OR
     flag 21 (link_equalization_request r)"

section \<open>PCI Express capability: writes\<close>

definition write_device_ctrl :: "int \<Rightarrow> int \<Rightarrow> device_ctrl \<Rightarrow> device_ctrl" where
  "write_device_ctrl d msk r =
     r\<lparr>correctable_error_reporting_enable := (if msk AND 0x1 \<noteq> 0 then tst d 0 else correctable_error_reporting_enable r),
       non_fatal_error_reporting_enable := (if msk AND 0x1 \<noteq> 0 then tst d 1 else non_fatal_error_reporting_enable r),
       fatal_error_reporting_enable := (if msk AND 0x1 \<noteq> 0 then tst d 2 else fatal_error_reporting_enable r),
       unsupported_request_reporting_enable := (if msk AND 0x1 \<noteq> 0 then tst d 3 else unsupported_request_reporting_enable r),
       enable_relaxed_ordering := (if msk AND 0x1 \<noteq> 0 then tst d 4 else enable_relaxed_ordering r),
       max_payload_size := (if msk AND 0x1 \<noteq> 0 then drop_bit 5 d AND 0x7 else max_payload_size r),
       extended_tag_field_enable := (if msk AND 0x2 \<noteq> 0 then tst d 8 else extended_tag_field_enable r),
       phantom_functions_enable := (if msk AND 0x2 \<noteq> 0 then tst d 9 else phantom_functions_enable r),
       aux_power_pm_enable := (if msk AND 0x2 \<noteq> 0 then tst d 10 else aux_power_pm_enable r),
       enable_no_snoop := (if msk AND 0x2 \<noteq> 0 then tst d 11 else enable_no_snoop r),
       max_read_request_size := (if msk AND 0x2 \<noteq> 0 then drop_bit 12 d AND 0x7 else max_read_request_size r),
       correctable_error_detected := (if msk AND 0x4 \<noteq> 0 \<and> tst d 16 then False else correctable_error_detected r),
       nonfatal_error_detected := (if msk AND 0x4 \<noteq> 0 \<and> tst d 17 then False else nonfatal_error_detected r),
       fatal_error_detected := (if msk AND 0x4 \<noteq> 0 \<and> tst d 18 then False else fatal_error_detected r),
       unsupported_request_detected := (if msk AND 0x4 \<noteq> 0 \<and> tst d 19 then False else unsupported_request_detected r),
       aux_power_detected := (if msk AND 0x4 \<noteq> 0 \<and> tst d 20 then False else aux_power_detected r),
       transactions_pending := (if msk AND 0x4 \<noteq> 0 \<and> tst d 21 then False else transactions_pending r)\<rparr>"

definition write_link_ctrl :: "int \<Rightarrow> int \<Rightarrow> link_ctrl \<Rightarrow> link_ctrl" where
  "write_link_ctrl d msk r =
     r\<lparr>aspm_control := (if msk AND 0x1 \<noteq> 0 then d AND 3 else aspm_control r),
       read_completion_boundary := (if msk AND 0x1 \<noteq> 0 then tst d 4 else read_completion_boundary r),
       common_clock_configuration := (if msk AND 0x1 \<noteq> 0 then tst d 6 else common_clock_configuration r),
       extended_synch := (if msk AND 0x1 \<noteq> 0 then tst d 7 else extended_synch r),
       enable_clock_power_management := (if msk AND 0x2 \<noteq> 0 then tst d 8 else enable_clock_power_management r),
       hardware_autonomous_width_disable := (if msk AND 0x2 \<noteq> 0 then tst d 9 else hardware_autonomous_width_disable r),
       link_bandwidth_management_interrupt_enable := (if msk AND 0x2 \<noteq> 0 then tst d 10 else link_bandwidth_management_interrupt_enable r),
       link_autonomous_bandwidth_interrupt_enable := (if msk AND 0x2 \<noteq> 0 then tst d 11 else link_autonomous_bandwidth_interrupt_enable r),
       link_bandwidth_management_status := (if msk AND 0x8 \<noteq> 0 \<and> tst d 30 then False else link_bandwidth_management_status r),
       link_autonomous_bandwidth_status := (if msk AND 0x8 \<noteq> 0 \<and> tst d 31 then False else link_autonomous_bandwidth_status r)\<rparr>"

definition write_slot_ctrl :: "int \<Rightarrow> int \<Rightarrow> slot_ctrl \<Rightarrow> slot_ctrl" where
  "write_slot_ctrl d msk r =
     r\<lparr>attention_button_pressed_enable := (if msk AND 0x1 \<noteq> 0 then tst d 0 else attention_button_pressed_enable r),
       power_fault_detected_enable := (if msk AND 0x1 \<noteq> 0 then tst d 1 else power_fault_detected_enable r),
       mrl_sensor_changed_enable := (if msk AND 0x1 \<noteq> 0 then tst d 2 else mrl_sensor_changed_enable r),
       presence_detect_changed_enable := (if msk AND 0x1 \<noteq> 0 then tst d 3 else presence_detect_changed_enable r),
       command_completed_interrupt_enable := (if msk AND 0x1 \<noteq> 0 then tst d 4 else command_completed_interrupt_enable r),
       hot_plug_interrupt_enable := (if msk AND 0x1 \<noteq> 0 then tst d 5 else hot_plug_interrupt_enable r),
       attention_indicator_control := (if msk AND 0x1 \<noteq> 0 then drop_bit 6 d AND 0x3 else attention_indicator_control r),
       power_indicator_control := (if msk AND 0x2 \<noteq> 0 then drop_bit 8 d AND 0x3 else power_indicator_control r),
       power_controller_control := (if msk AND 0x2 \<noteq> 0 then tst d 10 else power_controller_control r),
       electromechanical_interlock_control := (if msk AND 0x2 \<noteq> 0 then tst d 11 else electromechanical_interlock_control r),
       data_link_layer_state_changed_enable := (if msk AND 0x2 \<noteq> 0 then tst d 12 else data_link_layer_state_changed_enable r),
       attention_button_pressed := (if msk AND 0x4 \<noteq> 0 \<and> tst d 16 then False else attention_button_pressed r),
       power_fault_detected := (if msk AND 0x4 \<noteq> 0 \<and> tst d 17 then False else power_fault_detected r),
       mrl_sensor_changed := (if msk AND 0x4 \<noteq> 0 \<and> tst d 18 then False else mrl_sensor_changed r),
       presence_detect_changed := (if msk AND 0x4 \<noteq> 0 \<and> tst d 19 then False else presence_detect_changed r),
       command_completed := (if msk AND 0x4 \<noteq> 0 \<and> tst d 20 then False else command_completed r),
       data_link_layer_state_changed := (if msk AND 0x8 \<noteq> 0 \<and> tst d 24 then False else data_link_layer_state_changed r)\<rparr>"

definition write_root_ctrl :: "int \<Rightarrow> int \<Rightarrow> root_ctrl \<Rightarrow> root_ctrl" where
  "write_root_ctrl d msk r =
     r\<lparr>system_error_on_correctable_error_enable := (if msk AND 0x1 \<noteq> 0 then tst d 0 else system_error_on_correctable_error_enable r),
       system_error_on_non_fatal_error_enable := (if msk AND 0x1 \<noteq> 0 then tst d 1 else system_error_on_non_fatal_error_enable r),
       system_error_on_fatal_error_enable := (if msk AND 0x1 \<noteq> 0 then tst d 2 else system_error_on_fatal_error_enable r),
       pme_interrupt_enable := (if msk AND 0x1 \<noteq> 0 then tst d 3 else pme_interrupt_enable r),
       crs_software_visibility_enable := (if msk AND 0x1 \<noteq> 0 then tst d 4 else crs_software_visibility_enable r)\<rparr>"

definition write_root_status :: "int \<Rightarrow> int \<Rightarrow> root_status \<Rightarrow> root_status" where
  "write_root_status d msk r =
     r\<lparr>pme_status := (if msk AND 0x4 \<noteq> 0 \<and> tst d 16 then False else pme_status r)\<rparr>"

definition write_device_ctrl2 :: "int \<Rightarrow> int \<Rightarrow> device_ctrl2 \<Rightarrow> device_ctrl2" where
  "write_device_ctrl2 d msk r =
     r\<lparr>completion_timeout_value := (if msk AND 0x1 \<noteq> 0 then d AND 0xf else completion_timeout_value r),
       completion_timeout_disable := (if msk AND 0x1 \<noteq> 0 then tst d 4 else completion_timeout_disable r),
       ari_forwarding_enable := (if msk AND 0x1 \<noteq> 0 then tst d 5 else ari_forwarding_enable r),
       atomic_op_requester_enable := (if msk AND 0x1 \<noteq> 0 then tst d 6 else atomic_op_requester_enable r),
       atomic_op_egress_blocking := (if msk AND 0x1 \<noteq> 0 then tst d 7 else atomic_op_egress_blocking r),
       ido_request_enable := (if msk AND 0x2 \<noteq> 0 then tst d 8 else ido_request_enable r),
       ido_completion_enable := (if msk AND 0x2 \<noteq> 0 then tst d 9 else ido_completion_enable r),
       ltr_mechanism_enable := (if msk AND 0x2 \<noteq> 0 then tst d 10 else ltr_mechanism_enable r),
       obff_enable := (if msk AND 0x2 \<noteq> 0 then drop_bit 13 d AND 0x3 else obff_enable r),
       end_end_tlp_prefix_blocking := (if msk AND 0x2 \<noteq> 0 then tst d 15 else end_end_tlp_prefix_blocking r)\<rparr>"

definition write_link_ctrl2 :: "int \<Rightarrow> int \<Rightarrow> link_ctrl2 \<Rightarrow> link_ctrl2" where
  "write_link_ctrl2 d msk r =
     r\<lparr>target_link_speed := (if msk AND 0x1 \<noteq> 0 then d AND 0xf else target_link_speed r),
       enter_compliance := (if msk AND 0x1 \<noteq> 0 then tst d 4 else enter_compliance r),
       hardware_autonomous_speed_disable := (if msk AND 0x1 \<noteq> 0 then tst d 5 else hardware_autonomous_speed_disable r),
       transmit_margin :=
         (let t = (if msk AND 0x1 \<noteq> 0 then (transmit_margin r AND 0x6) OR (drop_bit 7 d AND 0x1) else transmit_margin r)
          in if msk AND 0x2 \<noteq> 0 then (t AND 0x1) OR (drop_bit 7 d AND 0x6) else t),
       enter_modified_compliance := (if msk AND 0x2 \<noteq> 0 then tst d 10 else enter_modified_compliance r),
       compliance_sos := (if msk AND 0x2 \<noteq> 0 then tst d 11 else compliance_sos r),
       compliance_preset_de_emphasis := (if msk AND 0x2 \<noteq> 0 then drop_bit 12 d AND 0xff else compliance_preset_de_emphasis r)\<rparr>"


section \<open>PCI Express capability\<close>

record pcie_regs =
  pr_caps :: pcie_caps
  pr_device_caps :: device_caps
  pr_device_ctrl :: device_ctrl
  pr_link_caps :: link_capabilities
  pr_link_ctrl :: link_ctrl
  pr_slot_caps :: slot_caps
  pr_slot_ctrl :: slot_ctrl
  pr_root_ctrl :: root_ctrl
  pr_root_status :: root_status
  pr_device_caps2 :: device_caps2
  pr_device_ctrl2 :: device_ctrl2
  pr_link_caps2 :: link_caps2
  pr_link_ctrl2 :: link_ctrl2

definition init_pcie_regs :: pcie_regs where
  "init_pcie_regs =
     \<lparr>pr_caps = init_pcie_caps, pr_device_caps = init_device_caps, pr_device_ctrl = init_device_ctrl,
      pr_link_caps = init_link_capabilities, pr_link_ctrl = init_link_ctrl, pr_slot_caps = init_slot_caps,
      pr_slot_ctrl = init_slot_ctrl, pr_root_ctrl = init_root_ctrl, pr_root_status = init_root_status,
      pr_device_caps2 = init_device_caps2, pr_device_ctrl2 = init_device_ctrl2,
      pr_link_caps2 = init_link_caps2, pr_link_ctrl2 = init_link_ctrl2\<rparr>"

definition read_pcie_cap_register :: "pcie_regs \<Rightarrow> int \<Rightarrow> int" where
  "read_pcie_cap_register p reg =
     (if reg = 0 then read_pcie_caps (pr_caps p)
      else if reg = 1 then read_device_caps (pr_device_caps p)
      else if reg = 2 then read_device_ctrl (pr_device_ctrl p)
      else if reg = 3 then read_link_capabilities (pr_link_caps p)
      else if reg = 4 then read_link_ctrl (pr_link_ctrl p)
      else if reg = 5 then read_slot_caps (pr_slot_caps p)
      else if reg = 6 then read_slot_ctrl (pr_slot_ctrl p)
      else if reg = 7 then read_root_ctrl (pr_root_ctrl p)
      else if reg = 8 then read_root_status (pr_root_status p)
      else if reg = 9 then read_device_caps2 (pr_device_caps2 p)
      else if reg = 10 then read_device_ctrl2 (pr_device_ctrl2 p)
      else if reg = 11 then read_link_caps2 (pr_link_caps2 p)
      else if reg = 12 then read_link_ctrl2 (pr_link_ctrl2 p)
      else 0)"

text \<open>
  A write to register 12 ends with \<open>val |= 1 << 21\<close> on a name that has no value, when an
  equalization request is pending.
\<close>

definition write_pcie_cap_register :: "int \<Rightarrow> int \<Rightarrow> int \<Rightarrow> pcie_regs \<Rightarrow> py_error + pcie_regs" where
  "write_pcie_cap_register reg d msk p =
     (if reg = 2 then Inr (p\<lparr>pr_device_ctrl := write_device_ctrl d msk (pr_device_ctrl p)\<rparr>)
      else if reg = 4 then Inr (p\<lparr>pr_link_ctrl := write_link_ctrl d msk (pr_link_ctrl p)\<rparr>)
      else if reg = 6 then Inr (p\<lparr>pr_slot_ctrl := write_slot_ctrl d msk (pr_slot_ctrl p)\<rparr>)
      else if reg = 7 then Inr (p\<lparr>pr_root_ctrl := write_root_ctrl d msk (pr_root_ctrl p)\<rparr>)
      else if reg = 8 then Inr (p\<lparr>pr_root_status := write_root_status d msk (pr_root_status p)\<rparr>)
      else if reg = 10 then Inr (p\<lparr>pr_device_ctrl2 := write_device_ctrl2 d msk (pr_device_ctrl2 p)\<rparr>)
      else if reg = 12
      then let r = write_link_ctrl2 d msk (pr_link_ctrl2 p)
           in if link_equalization_request r then Inl UnboundLocalError else Inr (p\<lparr>pr_link_ctrl2 := r\<rparr>)
      else Inr p)"

section \<open>Power management capability\<close>

record pm_regs =
  pm_capabilities :: int
  pm_control_status :: int
  pm_data :: int

definition init_pm_regs :: pm_regs where
  "init_pm_regs = \<lparr>pm_capabilities = 0, pm_control_status = 0, pm_data = 0\<rparr>"

definition read_pm_cap_register :: "pm_regs \<Rightarrow> int \<Rightarrow> int option" where
  "read_pm_cap_register p reg =
     (if reg = 0 then Some (push_bit 16 (pm_capabilities p))
      else if reg = 1 then Some (push_bit 24 (pm_data p) OR pm_control_status p)
      else None)"

definition write_pm_cap_register :: "int \<Rightarrow> int \<Rightarrow> int \<Rightarrow> pm_regs \<Rightarrow> pm_regs" where
  "write_pm_cap_register reg d msk p = p"

section \<open>MSI capability\<close>

record msi_regs =
  msi_enable :: bool
  msi_multiple_message_capable :: int
  msi_multiple_message_enable :: int
  msi_64bit_address_capable :: bool
  msi_per_vector_mask_capable :: bool
  msi_message_address :: int
  msi_message_data :: int
  msi_mask_bits :: int
  msi_pending_bits :: int

definition init_msi_regs :: msi_regs where
  "init_msi_regs =
     \<lparr>msi_enable = False, msi_multiple_message_capable = 0, msi_multiple_message_enable = 0,
      msi_64bit_address_capable = False, msi_per_vector_mask_capable = False,
      msi_message_address = 0, msi_message_data = 0, msi_mask_bits = 0, msi_pending_bits = 0\<rparr>"

definition read_msi_cap_register :: "msi_regs \<Rightarrow> int \<Rightarrow> int option" where
  "read_msi_cap_register m reg =
     (if reg = 0
      then Some (flag 16 (msi_enable m) OR push_bit 17 (msi_multiple_message_capable m AND 0x7) OR
                 push_bit 20 (msi_multiple_message_enable m AND 0x7) OR
                 flag 23 (msi_64bit_address_capable m) OR flag 24 (msi_per_vector_mask_capable m))
      else if reg = 1 then Some (msi_message_address m AND 0xfffffffc)
      else if reg = 2 \<and> msi_64bit_address_capable m
      then Some (drop_bit 32 (msi_message_address m) AND 0xffffffff)
      else if reg = (if msi_64bit_address_capable m then 3 else 2)
      then Some (msi_message_data m AND 0xffff)
      else if reg = (if msi_64bit_address_capable m then 4 else 3) \<and> msi_per_vector_mask_capable m
      then Some (msi_mask_bits m AND 0xffffffff)
      else if reg = (if msi_64bit_address_capable m then 5 else 4) \<and> msi_per_vector_mask_capable m
      then Some (msi_pending_bits m AND 0xffffffff)
      else None)"

definition write_msi_cap_register :: "int \<Rightarrow> int \<Rightarrow> int \<Rightarrow> msi_regs \<Rightarrow> msi_regs" where
  "write_msi_cap_register reg d msk m =
     (if reg = 0
      then (if msk AND 0x4 \<noteq> 0
            then m\<lparr>msi_enable := tst d 16, msi_multiple_message_enable := drop_bit 20 d AND 0x7\<rparr>
            else m)
      else if reg = 1
      then m\<lparr>msi_message_address :=
               byte_mask_update1 (msi_message_address m) msk d AND 0xfffffffffffffffc\<rparr>
      else if reg = 2 \<and> msi_64bit_address_capable m
      then m\<lparr>msi_message_address :=
               byte_mask_update1 (msi_message_address m) (push_bit 4 msk) (push_bit 32 d) AND 0xfffffffffffffffc\<rparr>
      else if reg = (if msi_64bit_address_capable m then 3 else 2)
      then m\<lparr>msi_message_data := byte_mask_update1 (msi_message_data m) (msk AND 0x3) d AND 0xffff\<rparr>
      else if reg = (if msi_64bit_address_capable m then 4 else 3) \<and> msi_per_vector_mask_capable m
      then m\<lparr>msi_mask_bits := byte_mask_update1 (msi_mask_bits m) msk d AND 0xffffffff\<rparr>
      else m)"

text \<open>
  The write that an interrupt issues: address and data, or none when the interrupt is
  disabled or the vector is out of range. The multiple message fields hold at most 3 bits.
\<close>

definition issue_msi_interrupt :: "msi_regs \<Rightarrow> int \<Rightarrow> py_error + (int \<times> int list) option" where
  "issue_msi_interrupt m number =
     (if \<not> msi_enable m then Inr None
      else if number < 0 \<or> number \<ge> 2 ^ nat (msi_multiple_message_enable m) \<or>
              number \<ge> 2 ^ nat (msi_multiple_message_capable m)
      then Inr None
      else let dat = (msi_message_data m AND NOT (2 ^ nat (msi_multiple_message_enable m) - 1)) OR number
           in if 0 \<le> dat \<and> dat < 2 ^ 32
              then Inr (Some (msi_message_address m, le_bytes 4 dat)) else Inl StructError)"

section \<open>MSI-X capability\<close>

record msix_regs =
  msix_table_size :: int
  msix_function_mask :: bool
  msix_enable :: bool
  msix_table_bar_indicator_register :: int
  msix_table_offset :: int
  msix_pba_bar_indicator_register :: int
  msix_pba_offset :: int

definition init_msix_regs :: msix_regs where
  "init_msix_regs =
     \<lparr>msix_table_size = 0, msix_function_mask = False, msix_enable = False,
      msix_table_bar_indicator_register = 0, msix_table_offset = 0,
      msix_pba_bar_indicator_register = 0, msix_pba_offset = 0\<rparr>"

definition read_msix_cap_register :: "msix_regs \<Rightarrow> int \<Rightarrow> int option" where
  "read_msix_cap_register m reg =
     (if reg = 0
      then Some (push_bit 16 (msix_table_size m AND 0x7ff) OR flag 30 (msix_function_mask m) OR
                 flag 31 (msix_enable m))
      else if reg = 1
      then Some ((msix_table_bar_indicator_register m AND 0x7) OR (msix_table_offset m AND 0xfffffff8))
      else if reg = 2
      then Some ((msix_pba_bar_indicator_register m AND 0x7) OR (msix_pba_offset m AND 0xfffffff8))
      else None)"

definition write_msix_cap_register :: "int \<Rightarrow> int \<Rightarrow> int \<Rightarrow> msix_regs \<Rightarrow> msix_regs" where
  "write_msix_cap_register reg d msk m =
     (if reg = 0 \<and> msk AND 0x8 \<noteq> 0
      then m\<lparr>msix_function_mask := tst d 30, msix_enable := tst d 31\<rparr> else m)"

definition issue_msix_interrupt :: "msix_regs \<Rightarrow> int \<Rightarrow> int \<Rightarrow> py_error + (int \<times> int list) option" where
  "issue_msix_interrupt m addr dat =
     (if \<not> msix_enable m then Inr None
      else if 0 \<le> dat \<and> dat < 2 ^ 32 then Inr (Some (addr, le_bytes 4 dat)) else Inl StructError)"

end
