(* ===== verification/PCIE_Function.thy ===== *)
theory PCIE_Function
  imports PCIE_CapRegs PCIE_CapList PCIE_TLP
begin

text \<open>
  PCIe functions: the classes \<open>Function\<close>, \<open>Endpoint\<close> and \<open>Bridge\<close> of
  \<open>lib/pcie/tb/pcie.py\<close> with their configuration registers, base address registers, tags
  and the handling of configuration requests. A subclass extends the record of its parent
  class, and the operations of a class work on every extension. The callables that a
  capability class registers are tokens.
\<close>

section \<open>Functions\<close>

datatype cap_handler = PMHandler | PCIEHandler | MSIHandler | MSIXHandler

record pfunction =
  bus_num :: int
  device_num :: int
  function_num :: int
  current_tag :: int
  rx_cpl_queues :: "tlp list list"
  capabilities :: "cap_handler cap_list"
  ext_capabilities :: "cap_handler cap_list"
  vendor_id :: int
  device_id :: int
  bus_master_enable :: bool
  parity_error_response :: bool
  serr_enable :: bool
  interrupt_disable :: bool
  interrupt_status :: bool
  capabilities_list :: bool
  master_data_parity_error :: bool
  signaled_target_abort :: bool
  received_target_abort :: bool
  received_master_abort :: bool
  signaled_system_error :: bool
  detected_parity_error :: bool
  rev_id :: int
  class_code :: int
  cache_ln :: int
  lat_timer :: int
  header_type :: int
  bist :: int
  bar :: "int list"
  bar_mask :: "int list"
  expansion_rom_addr :: int
  cap_ptr :: int
  intr_pin :: int
  intr_line :: int
  pm :: pm_regs
  pcie :: pcie_regs
  msi :: msi_regs
  msix :: msix_regs

definition get_id :: "'a pfunction_scheme \<Rightarrow> pcie_id" where
  "get_id f = PcieId (bus_num f) (device_num f) (function_num f)"

section \<open>Capabilities of a function\<close>

definition call_read :: "'a pfunction_scheme \<Rightarrow> cap_handler \<Rightarrow> int \<Rightarrow> py_error + int option" where
  "call_read f h reg =
     (case h of
        PMHandler \<Rightarrow> Inr (read_pm_cap_register (pm f) reg)
      | PCIEHandler \<Rightarrow> Inr (Some (read_pcie_cap_register (pcie f) reg))
      | MSIHandler \<Rightarrow> Inr (read_msi_cap_register (msi f) reg)
      | MSIXHandler \<Rightarrow> Inr (read_msix_cap_register (msix f) reg))"

definition call_write ::
  "cap_handler \<Rightarrow> int \<Rightarrow> int \<Rightarrow> int \<Rightarrow> 'a pfunction_scheme \<Rightarrow> py_error + 'a pfunction_scheme" where
  "call_write h reg d msk f =
     (case h of
        PMHandler \<Rightarrow> Inr (f\<lparr>pm := write_pm_cap_register reg d msk (pm f)\<rparr>)
      | PCIEHandler \<Rightarrow> try_bind (write_pcie_cap_register reg d msk (pcie f)) (\<lambda>p. Inr (f\<lparr>pcie := p\<rparr>))
      | MSIHandler \<Rightarrow> Inr (f\<lparr>msi := write_msi_cap_register reg d msk (msi f)\<rparr>)
      | MSIXHandler \<Rightarrow> Inr (f\<lparr>msix := write_msix_cap_register reg d msk (msix f)\<rparr>))"

definition read_capability_register :: "'a pfunction_scheme \<Rightarrow> int \<Rightarrow> py_error + int option" where
  "read_capability_register f reg = cl_read_register (call_read f) (capabilities f) reg"

definition write_capability_register ::
  "int \<Rightarrow> int \<Rightarrow> int \<Rightarrow> 'a pfunction_scheme \<Rightarrow> py_error + 'a pfunction_scheme" where
  "write_capability_register reg d msk f = cl_write_register call_write (capabilities f) reg d msk f"

definition register_capability ::
  "int \<Rightarrow> int option \<Rightarrow> cap_handler option \<Rightarrow> cap_handler option \<Rightarrow> int option \<Rightarrow> 'a pfunction_scheme \<Rightarrow>
   py_error + 'a pfunction_scheme" where
  "register_capability i len rd wr off f =
     try_bind (register i (Some 0) len rd wr off (capabilities f)) (\<lambda>cl.
       Inr (f\<lparr>capabilities := cl,
              cap_ptr := (case cl_list cl of [] \<Rightarrow> 0 | c # _ \<Rightarrow> the (cap_offset c) * 4)\<rparr>))"

definition read_extended_capability_register :: "'a pfunction_scheme \<Rightarrow> int \<Rightarrow> py_error + int option" where
  "read_extended_capability_register f reg = cl_read_register (call_read f) (ext_capabilities f) reg"

definition write_extended_capability_register ::
  "int \<Rightarrow> int \<Rightarrow> int \<Rightarrow> 'a pfunction_scheme \<Rightarrow> py_error + 'a pfunction_scheme" where
  "write_extended_capability_register reg d msk f =
     cl_write_register call_write (ext_capabilities f) reg d msk f"

definition register_extended_capability ::
  "int \<Rightarrow> int option \<Rightarrow> int option \<Rightarrow> cap_handler option \<Rightarrow> cap_handler option \<Rightarrow> int option \<Rightarrow>
   'a pfunction_scheme \<Rightarrow> py_error + 'a pfunction_scheme" where
  "register_extended_capability i ver len rd wr off f =
     try_bind (register i ver len rd wr off (ext_capabilities f)) (\<lambda>cl. Inr (f\<lparr>ext_capabilities := cl\<rparr>))"

section \<open>Configuration registers of a function\<close>

definition read_status_command :: "'a pfunction_scheme \<Rightarrow> int" where
  "read_status_command f =
     flag 2 (bus_master_enable f) OR flag 6 (parity_error_response f) OR flag 8 (serr_enable f) OR
     flag 10 (interrupt_disable f) OR flag 19 (interrupt_status f) OR flag 20 (capabilities_list f) OR
     flag 24 (master_data_parity_error f) OR flag 27 (signaled_target_abort f) OR
     flag 28 (received_target_abort f) OR flag 29 (received_master_abort f) OR
     flag 30 (signaled_system_error f) OR flag 31 (detected_parity_error f)"

definition write_status_command :: "int \<Rightarrow> int \<Rightarrow> 'a pfunction_scheme \<Rightarrow> 'a pfunction_scheme" where
  "write_status_command d msk f =
     f\<lparr>bus_master_enable := (if msk AND 0x1 \<noteq> 0 then tst d 2 else bus_master_enable f),
       parity_error_response := (if msk AND 0x1 \<noteq> 0 then tst d 6 else parity_error_response f),
       serr_enable := (if msk AND 0x2 \<noteq> 0 then tst d 8 else serr_enable f),
       interrupt_disable := (if msk AND 0x2 \<noteq> 0 then tst d 10 else interrupt_disable f),
       master_data_parity_error := (if msk AND 0x8 \<noteq> 0 \<and> tst d 24 then False else master_data_parity_error f),
       signaled_target_abort := (if msk AND 0x8 \<noteq> 0 \<and> tst d 27 then False else signaled_target_abort f),
       received_target_abort := (if msk AND 0x8 \<noteq> 0 \<and> tst d 28 then False else received_target_abort f),
       received_master_abort := (if msk AND 0x8 \<noteq> 0 \<and> tst d 29 then False else received_master_abort f),
       signaled_system_error := (if msk AND 0x8 \<noteq> 0 \<and> tst d 30 then False else signaled_system_error f),
       detected_parity_error := (if msk AND 0x8 \<noteq> 0 \<and> tst d 31 then False else detected_parity_error f)\<rparr>"

definition read_config_register :: "'a pfunction_scheme \<Rightarrow> int \<Rightarrow> py_error + int option" where
  "read_config_register f reg =
     (if reg = 0 then Inr (Some (push_bit 16 (device_id f) OR vendor_id f))
      else if reg = 1 then Inr (Some (read_status_command f))
      else if reg = 2 then Inr (Some (push_bit 8 (class_code f) OR rev_id f))
      else if reg = 3
      then Inr (Some (push_bit 24 (bist f) OR push_bit 16 (header_type f) OR push_bit 8 (lat_timer f) OR cache_ln f))
      else if reg = 13 then Inr (Some (cap_ptr f))
      else if reg = 15 then Inr (Some (push_bit 8 (intr_pin f) OR intr_line f))
      else if 16 \<le> reg \<and> reg < 256 then read_capability_register f reg
      else if 256 \<le> reg \<and> reg < 4096 then read_extended_capability_register f reg
      else Inr (Some 0))"

definition write_interrupt :: "int \<Rightarrow> int \<Rightarrow> 'a pfunction_scheme \<Rightarrow> 'a pfunction_scheme" where
  "write_interrupt d msk f =
     f\<lparr>intr_line := byte_mask_update1 (intr_line f) (msk AND 1) d,
       intr_pin := byte_mask_update1 (intr_pin f) (drop_bit 1 msk AND 1) (drop_bit 8 d)\<rparr>"

definition write_config_register ::
  "int \<Rightarrow> int \<Rightarrow> int \<Rightarrow> 'a pfunction_scheme \<Rightarrow> py_error + 'a pfunction_scheme" where
  "write_config_register reg d msk f =
     (if reg = 1 then Inr (write_status_command d msk f)
      else if reg = 3
      then Inr (f\<lparr>cache_ln := byte_mask_update1 (cache_ln f) (msk AND 1) d,
                  lat_timer := byte_mask_update1 (lat_timer f) (drop_bit 1 msk AND 1) (drop_bit 8 d),
                  bist := byte_mask_update1 (bist f) (drop_bit 3 msk AND 1) (drop_bit 24 d)\<rparr>)
      else if reg = 15 then Inr (write_interrupt d msk f)
      else if 16 \<le> reg \<and> reg < 256 then write_capability_register reg d msk f
      else if 256 \<le> reg \<and> reg < 4096 then write_extended_capability_register reg d msk f
      else Inr f)"

section \<open>Base address registers\<close>

text \<open>
  \<open>math.ceil(math.log(size, 2))\<close> is computed in floating point, which is not exact for
  every size: it is the parameter \<open>clog2\<close>. The logarithm of a size that is not positive
  raises ValueError.
\<close>

definition configure_bar ::
  "(int \<Rightarrow> nat) \<Rightarrow> nat \<Rightarrow> int \<Rightarrow> bool \<Rightarrow> bool \<Rightarrow> bool \<Rightarrow> 'a pfunction_scheme \<Rightarrow> py_error + 'a pfunction_scheme" where
  "configure_bar clog2 idx sz ext prefetch io f =
     (if sz \<le> 0 then Inl ValueError
      else let msk = 2 ^ clog2 sz - 1
           in if idx \<ge> length (bar f) \<or> (ext \<and> idx + 1 \<ge> length (bar f))
              then Inl (OtherException ''BAR index out of range'')
              else if io
              then Inr (f\<lparr>bar := (bar f)[idx := 1], bar_mask := (bar_mask f)[idx := 0xfffffffc AND NOT msk]\<rparr>)
              else let b = (bar f)[idx := (if ext then 4 else 0) OR (if prefetch then 8 else 0)];
                       bm = (bar_mask f)[idx := 0xfffffff0 AND NOT msk]
                   in if ext
                      then Inr (f\<lparr>bar := b[idx + 1 := 0],
                                  bar_mask := bm[idx + 1 := 0xffffffff AND drop_bit 32 (NOT msk)]\<rparr>)
                      else Inr (f\<lparr>bar := b, bar_mask := bm\<rparr>))"

definition bar_hit :: "int \<Rightarrow> nat \<Rightarrow> int \<Rightarrow> int \<Rightarrow> (nat \<times> int) list" where
  "bar_hit addr k v msk = (if addr AND msk = v AND msk then [(k, addr AND NOT msk)] else [])"

text \<open>The loop over pairs of a register and its mask, from the index of the first one.\<close>

fun match_bars :: "int \<Rightarrow> bool \<Rightarrow> nat \<Rightarrow> (int \<times> int) list \<Rightarrow> py_error + (nat \<times> int) list" where
  "match_bars addr io k [] = Inr []"
| "match_bars addr io k [(v, msk)] =
     (if msk = 0 then Inr []
      else if v AND 1 \<noteq> 0 then Inr (if io then bar_hit addr k v msk else [])
      else if v AND 4 \<noteq> 0
      then Inl (OtherException ''Final BAR marked as 64 bit, but no extension BAR available'')
      else Inr (if \<not> io then bar_hit addr k v msk else []))"
| "match_bars addr io k ((v, msk) # (v2, msk2) # rest) =
     (if msk = 0 then match_bars addr io (k + 1) ((v2, msk2) # rest)
      else if v AND 1 \<noteq> 0
      then try_bind (match_bars addr io (k + 1) ((v2, msk2) # rest)) (\<lambda>m.
             Inr ((if io then bar_hit addr k v msk else []) @ m))
      else if v AND 4 \<noteq> 0
      then try_bind (match_bars addr io (k + 2) rest) (\<lambda>m.
             Inr ((if \<not> io then bar_hit addr k (v OR push_bit 32 v2) (msk OR push_bit 32 msk2) else []) @ m))
      else try_bind (match_bars addr io (k + 1) ((v2, msk2) # rest)) (\<lambda>m.
             Inr ((if \<not> io then bar_hit addr k v msk else []) @ m)))"

definition match_bar :: "int \<Rightarrow> bool \<Rightarrow> 'a pfunction_scheme \<Rightarrow> py_error + (nat \<times> int) list" where
  "match_bar addr io f = match_bars addr io 0 (zip (bar f) (bar_mask f))"

section \<open>Tags and completions\<close>

fun tag_loop :: "nat \<Rightarrow> int \<Rightarrow> tlp list list \<Rightarrow> int \<Rightarrow> int \<times> int option" where
  "tag_loop 0 tag_count queues tag = (tag, None)"
| "tag_loop (Suc k) tag_count queues tag =
     (let t = (tag + 1) mod tag_count
      in if queues ! nat t = [] then (t, Some t) else tag_loop k tag_count queues t)"

definition get_free_tag :: "'a pfunction_scheme \<Rightarrow> 'a pfunction_scheme \<times> int option" where
  "get_free_tag f =
     (let n = (if extended_tag_field_enable (pr_device_ctrl (pcie f)) then 256 else 32)
      in case tag_loop (nat n) n (rx_cpl_queues f) (current_tag f) of
           (t, r) \<Rightarrow> (f\<lparr>current_tag := t\<rparr>, r))"

text \<open>A completion is queued at its tag; a tag out of range raises IndexError.\<close>

definition queue_cpl :: "tlp \<Rightarrow> tlp list list \<Rightarrow> py_error + tlp list list" where
  "queue_cpl t queues =
     try_bind (py_index (tlp_tag t) queues) (\<lambda>k. Inr (queues[k := queues ! k @ [t]]))"

text \<open>
  The end of \<open>recv_cpl\<close>, after its wait: the oldest completion of the tag, if any. The wait for a change of
  the synchronisation signal before it is up to the simulation and a part of the ports in \<open>PCIE_Requests\<close>.
\<close>

definition recv_cpl :: "int \<Rightarrow> tlp list list \<Rightarrow> py_error + (tlp list list \<times> tlp option)" where
  "recv_cpl tag queues =
     try_bind (py_index tag queues) (\<lambda>k.
       Inr (case queues ! k of [] \<Rightarrow> (queues, None) | c # cs \<Rightarrow> (queues[k := cs], Some c)))"

section \<open>Configuration requests\<close>

text \<open>Sending asserts that the packet is valid. The value is the packet handed to the transmit handler, which is set.\<close>

definition upstream_send :: "tlp \<Rightarrow> py_error + tlp list" where
  "upstream_send t = (if check t then Inr [t] else Inl AssertionError)"

text \<open>
  The handler of a configuration request reads and writes through the register access of the
  class of the function, which are parameters, and gives the new state and what is sent. The
  completion of a register without a value cannot be formatted for the log: TypeError.
\<close>

definition handle_config_0_tlp ::
  "('a pfunction_scheme \<Rightarrow> int \<Rightarrow> py_error + int option) \<Rightarrow>
   (int \<Rightarrow> int \<Rightarrow> int \<Rightarrow> 'a pfunction_scheme \<Rightarrow> py_error + 'a pfunction_scheme) \<Rightarrow>
   tlp \<Rightarrow> 'a pfunction_scheme \<Rightarrow> py_error + ('a pfunction_scheme \<times> tlp list)" where
  "handle_config_0_tlp rd wr t f =
     (if device (tlp_dest_id t) = device_num f \<and> func (tlp_dest_id t) = function_num f
      then let f = f\<lparr>bus_num := bus (tlp_dest_id t)\<rparr>
           in if fmt_type t = TLP_CFG_READ_0
              then try_bind (rd f (tlp_register_number t)) (\<lambda>v.
                     case v of
                       None \<Rightarrow> Inl TypeError
                     | Some d \<Rightarrow>
                         try_bind (upstream_send
                           ((set_completion_data t (get_id f) new_tlp)
                              \<lparr>tlp_data := [d], tlp_byte_count := 4, tlp_length := 1\<rparr>)) (\<lambda>out. Inr (f, out)))
              else if fmt_type t = TLP_CFG_WRITE_0
              then (case tlp_data t of
                      [] \<Rightarrow> Inl IndexError
                    | d # _ \<Rightarrow>
                        try_bind (wr (tlp_register_number t) d (tlp_first_be t) f) (\<lambda>f'.
                          try_bind (upstream_send (set_completion t (get_id f) False CPL_STATUS_SC new_tlp)) (\<lambda>out.
                            Inr (f', out))))
              else try_bind (upstream_send new_tlp) (\<lambda>out. Inr (f, out))
      else Inr (f, []))"

section \<open>Endpoints\<close>

record endpoint = pfunction +
  cardbus_cis :: int
  subsystem_vendor_id :: int
  subsystem_id :: int

text \<open>The registers 4 to 9 are the base address registers; a missing one raises IndexError.\<close>

definition read_bar :: "nat \<Rightarrow> 'a pfunction_scheme \<Rightarrow> py_error + int option" where
  "read_bar k f = (if k < length (bar f) then Inr (Some (bar f ! k)) else Inl IndexError)"

definition write_bar ::
  "nat \<Rightarrow> int \<Rightarrow> int \<Rightarrow> 'a pfunction_scheme \<Rightarrow> py_error + 'a pfunction_scheme" where
  "write_bar k d msk f =
     (if k < length (bar f) \<and> k < length (bar_mask f)
      then Inr (f\<lparr>bar := (bar f)[k := byte_mask_update (bar f ! k) msk d (bar_mask f ! k)]\<rparr>)
      else Inl IndexError)"

definition ep_read_config_register :: "'a endpoint_scheme \<Rightarrow> int \<Rightarrow> py_error + int option" where
  "ep_read_config_register f reg =
     (if 4 \<le> reg \<and> reg \<le> 9 then read_bar (nat (reg - 4)) f
      else if reg = 10 then Inr (Some (cardbus_cis f))
      else if reg = 11 then Inr (Some (push_bit 16 (subsystem_id f) OR subsystem_vendor_id f))
      else if reg = 12 then Inr (Some (expansion_rom_addr f))
      else if reg = 13 then Inr (Some (cap_ptr f))
      else if reg = 14 then Inr (Some 0)
      else if reg = 15 then Inr (Some (push_bit 8 (intr_pin f) OR intr_line f))
      else read_config_register f reg)"

definition ep_write_config_register ::
  "int \<Rightarrow> int \<Rightarrow> int \<Rightarrow> 'a endpoint_scheme \<Rightarrow> py_error + 'a endpoint_scheme" where
  "ep_write_config_register reg d msk f =
     (if 4 \<le> reg \<and> reg \<le> 9 then write_bar (nat (reg - 4)) d msk f
      else if reg = 12 then Inr (f\<lparr>expansion_rom_addr := byte_mask_update1 (expansion_rom_addr f) msk d\<rparr>)
      else if reg = 15 then Inr (write_interrupt d msk f)
      else write_config_register reg d msk f)"

section \<open>Construction\<close>

definition MSI_CAP_ID :: int where "MSI_CAP_ID = 0x05"
definition MSI_CAP_LEN :: int where "MSI_CAP_LEN = 6"
definition MSIX_CAP_ID :: int where "MSIX_CAP_ID = 0x11"
definition MSIX_CAP_LEN :: int where "MSIX_CAP_LEN = 3"
definition PM_CAP_ID :: int where "PM_CAP_ID = 0x01"
definition PM_CAP_LEN :: int where "PM_CAP_LEN = 2"
definition PCIE_CAP_ID :: int where "PCIE_CAP_ID = 0x10"
definition PCIE_CAP_LEN :: int where "PCIE_CAP_LEN = 15"

text \<open>The attributes that \<open>Function.__init__\<close> sets before it runs its parents, with the
  attributes of subclasses.\<close>

definition base_function :: "'a \<Rightarrow> 'a pfunction_scheme" where
  "base_function sub =
     \<lparr>bus_num = 0, device_num = 0, function_num = 0, current_tag = 0,
      rx_cpl_queues = replicate 256 [], capabilities = PcieCapList, ext_capabilities = PcieExtCapList,
      vendor_id = 0, device_id = 0, bus_master_enable = False, parity_error_response = False,
      serr_enable = False, interrupt_disable = False, interrupt_status = False,
      capabilities_list = True, master_data_parity_error = False, signaled_target_abort = False,
      received_target_abort = False, received_master_abort = False, signaled_system_error = False,
      detected_parity_error = False, rev_id = 0, class_code = 0, cache_ln = 0, lat_timer = 0,
      header_type = 0, bist = 0, bar = [], bar_mask = [], expansion_rom_addr = 0, cap_ptr = 0,
      intr_pin = 0, intr_line = 0, pm = init_pm_regs, pcie = init_pcie_regs, msi = init_msi_regs,
      msix = init_msix_regs, \<dots> = sub\<rparr>"

definition init_pm_capability :: "'a pfunction_scheme \<Rightarrow> py_error + 'a pfunction_scheme" where
  "init_pm_capability f =
     register_capability PM_CAP_ID (Some PM_CAP_LEN) (Some PMHandler) (Some PMHandler) None (f\<lparr>pm := init_pm_regs\<rparr>)"

definition init_pcie_capability :: "'a pfunction_scheme \<Rightarrow> py_error + 'a pfunction_scheme" where
  "init_pcie_capability f =
     register_capability PCIE_CAP_ID (Some PCIE_CAP_LEN) (Some PCIEHandler) (Some PCIEHandler) None
       (f\<lparr>pcie := init_pcie_regs\<rparr>)"

definition init_msi_capability :: "'a pfunction_scheme \<Rightarrow> py_error + 'a pfunction_scheme" where
  "init_msi_capability f =
     register_capability MSI_CAP_ID (Some MSI_CAP_LEN) (Some MSIHandler) (Some MSIHandler) None
       (f\<lparr>msi := init_msi_regs\<rparr>)"

definition init_msix_capability :: "'a pfunction_scheme \<Rightarrow> py_error + 'a pfunction_scheme" where
  "init_msix_capability f =
     register_capability MSIX_CAP_ID (Some MSIX_CAP_LEN) (Some MSIXHandler) (Some MSIXHandler) None
       (f\<lparr>msix := init_msix_regs\<rparr>)"

text \<open>
  Every capability class runs its parent first, so the registration follows the method
  resolution order backwards: PCI Express before power management, and for a class that also
  inherits MSI and MSI-X, MSI-X and MSI before these.
\<close>

definition init_function :: "'a pfunction_scheme \<Rightarrow> py_error + 'a pfunction_scheme" where
  "init_function f = try_bind (init_pcie_capability f) init_pm_capability"

definition init_msi_function :: "'a pfunction_scheme \<Rightarrow> py_error + 'a pfunction_scheme" where
  "init_msi_function f = try_bind (init_msix_capability f) (\<lambda>f. try_bind (init_msi_capability f) init_function)"

definition set_device_type :: "int \<Rightarrow> 'a pfunction_scheme \<Rightarrow> 'a pfunction_scheme" where
  "set_device_type t f = f\<lparr>pcie := (pcie f)\<lparr>pr_caps := (pr_caps (pcie f))\<lparr>pcie_device_type := t\<rparr>\<rparr>\<rparr>"

definition init_endpoint :: "'a endpoint_scheme \<Rightarrow> 'a endpoint_scheme" where
  "init_endpoint f =
     set_device_type 0
       (f\<lparr>header_type := 0, bar := replicate 6 0, bar_mask := replicate 6 0, cardbus_cis := 0,
          subsystem_vendor_id := 0, subsystem_id := 0\<rparr>)"

definition base_endpoint :: endpoint where
  "base_endpoint = base_function \<lparr>cardbus_cis = 0, subsystem_vendor_id = 0, subsystem_id = 0\<rparr>"

definition new_endpoint :: "py_error + endpoint" where
  "new_endpoint = try_bind (init_function base_endpoint) (\<lambda>f. Inr (init_endpoint f))"

text \<open>The functions of the UltraScale models: MSI options, then the final offsets.\<close>

definition move_capability :: "int \<Rightarrow> int \<Rightarrow> 'a pfunction_scheme \<Rightarrow> py_error + 'a pfunction_scheme" where
  "move_capability i off = register_capability i None None None (Some off)"

definition init_us_function :: "endpoint \<Rightarrow> py_error + endpoint" where
  "init_us_function f =
     (let f = f\<lparr>msi := (msi f)\<lparr>msi_64bit_address_capable := True, msi_per_vector_mask_capable := False\<rparr>\<rparr>
      in try_bind (move_capability PM_CAP_ID 0x20 f) (\<lambda>f.
         try_bind (move_capability MSI_CAP_ID 0x24 f) (\<lambda>f.
         try_bind (move_capability MSIX_CAP_ID 0x2c f) (move_capability PCIE_CAP_ID 0x30))))"

definition UltrascalePCIeFunction :: "py_error + endpoint" where
  "UltrascalePCIeFunction =
     try_bind (init_msi_function base_endpoint) (\<lambda>f. init_us_function (init_endpoint f))"

definition init_usp_function :: "endpoint \<Rightarrow> py_error + endpoint" where
  "init_usp_function f =
     (let f = f\<lparr>msi := (msi f)\<lparr>msi_64bit_address_capable := True, msi_per_vector_mask_capable := False\<rparr>\<rparr>
      in try_bind (move_capability PM_CAP_ID 0x10 f) (\<lambda>f.
         try_bind (move_capability MSI_CAP_ID 0x12 f) (\<lambda>f.
         try_bind (move_capability MSIX_CAP_ID 0x18 f) (move_capability PCIE_CAP_ID 0x1c))))"

definition UltrascalePlusPCIeFunction :: "py_error + endpoint" where
  "UltrascalePlusPCIeFunction =
     try_bind (init_msi_function base_endpoint) (\<lambda>f. init_usp_function (init_endpoint f))"

section \<open>Bridges\<close>

record bridge = pfunction +
  pri_bus_num :: int
  sec_bus_num :: int
  sub_bus_num :: int
  sec_lat_timer :: int
  io_base :: int
  io_limit :: int
  sec_status :: int
  mem_base :: int
  mem_limit :: int
  prefetchable_mem_base :: int
  prefetchable_mem_limit :: int
  bridge_control :: int
  is_root :: bool

definition init_bridge :: "'a bridge_scheme \<Rightarrow> 'a bridge_scheme" where
  "init_bridge f =
     set_device_type 0x6
       (f\<lparr>header_type := 1, bar := replicate 2 0, bar_mask := replicate 2 0, pri_bus_num := 0,
          sec_bus_num := 0, sub_bus_num := 0, sec_lat_timer := 0, io_base := 0x0000, io_limit := 0x0fff,
          sec_status := 0, mem_base := 0, mem_limit := 0x000fffff, prefetchable_mem_base := 0,
          prefetchable_mem_limit := 0x000fffff, bridge_control := 0, is_root := False\<rparr>)"

definition base_bridge :: bridge where
  "base_bridge = base_function \<lparr>pri_bus_num = 0, sec_bus_num = 0, sub_bus_num = 0, sec_lat_timer = 0,
     io_base = 0, io_limit = 0, sec_status = 0, mem_base = 0, mem_limit = 0, prefetchable_mem_base = 0,
     prefetchable_mem_limit = 0, bridge_control = 0, is_root = False\<rparr>"

definition new_bridge :: "py_error + bridge" where
  "new_bridge = try_bind (init_function base_bridge) (\<lambda>f. Inr (init_bridge f))"

definition br_read_config_register :: "'a bridge_scheme \<Rightarrow> int \<Rightarrow> py_error + int option" where
  "br_read_config_register f reg =
     (if reg = 4 then read_bar 0 f
      else if reg = 5 then read_bar 1 f
      else if reg = 6
      then Inr (Some (push_bit 24 (sec_lat_timer f) OR push_bit 16 (sub_bus_num f) OR
                      push_bit 8 (sec_bus_num f) OR pri_bus_num f))
      else if reg = 7
      then Inr (Some (push_bit 16 (sec_status f) OR (io_limit f AND 0xf000) OR drop_bit 8 (io_base f AND 0xf000)))
      else if reg = 8
      then Inr (Some ((mem_limit f AND 0xfff00000) OR drop_bit 16 (mem_base f AND 0xfff00000)))
      else if reg = 9
      then Inr (Some ((prefetchable_mem_limit f AND 0xfff00000) OR drop_bit 16 (prefetchable_mem_base f AND 0xfff00000)))
      else if reg = 10 then Inr (Some (drop_bit 32 (prefetchable_mem_base f)))
      else if reg = 11 then Inr (Some (drop_bit 32 (prefetchable_mem_limit f)))
      else if reg = 12
      then Inr (Some ((io_limit f AND 0xffff0000) OR drop_bit 16 (io_base f AND 0xffff0000)))
      else if reg = 13 then Inr (Some (cap_ptr f))
      else if reg = 14 then Inr (Some (expansion_rom_addr f))
      else if reg = 15 then Inr (Some (push_bit 16 (bridge_control f) OR push_bit 8 (intr_pin f) OR intr_line f))
      else read_config_register f reg)"

text \<open>
  The branch of register 4 is followed by a new chain of conditions, whose last branch passes
  the write on. Register 15 reads an attribute \<open>min_gnt\<close> that no class sets.
\<close>

definition br_write_config_register ::
  "int \<Rightarrow> int \<Rightarrow> int \<Rightarrow> 'a bridge_scheme \<Rightarrow> py_error + 'a bridge_scheme" where
  "br_write_config_register reg d msk f =
     (if reg = 4 then try_bind (write_bar 0 d msk f) (write_config_register reg d msk)
      else if reg = 5 then write_bar 1 d msk f
      else if reg = 6
      then Inr (f\<lparr>pri_bus_num := byte_mask_update1 (pri_bus_num f) (msk AND 0x1) d,
                  sec_bus_num := byte_mask_update1 (sec_bus_num f) (drop_bit 1 msk AND 1) (drop_bit 8 d),
                  sub_bus_num := byte_mask_update1 (sub_bus_num f) (drop_bit 2 msk AND 1) (drop_bit 16 d),
                  sec_lat_timer := byte_mask_update1 (sec_lat_timer f) (drop_bit 3 msk AND 1) (drop_bit 24 d)\<rparr>)
      else if reg = 7
      then Inr (f\<lparr>io_base := byte_mask_update (io_base f) (push_bit 1 (msk AND 0x1)) (push_bit 8 d) 0xf000,
                  io_limit := byte_mask_update (io_limit f) (msk AND 0x2) d 0xf000 OR 0xfff,
                  sec_status := byte_mask_update (sec_status f) (drop_bit 2 msk AND 1) 0 (drop_bit 16 d AND 0xf900)\<rparr>)
      else if reg = 8
      then Inr (f\<lparr>mem_base := byte_mask_update (mem_base f) (push_bit 2 (msk AND 0x3)) (push_bit 16 d) 0xfff00000,
                  mem_limit := byte_mask_update (mem_limit f) (msk AND 0xc) d 0xfff00000 OR 0xfffff\<rparr>)
      else if reg = 9
      then Inr (f\<lparr>prefetchable_mem_base :=
                    byte_mask_update (prefetchable_mem_base f) (push_bit 2 (msk AND 0x3)) (push_bit 16 d) 0xfff00000,
                  prefetchable_mem_limit :=
                    byte_mask_update (prefetchable_mem_limit f) (msk AND 0xc) d 0xfff00000 OR 0xfffff\<rparr>)
      else if reg = 10
      then Inr (f\<lparr>prefetchable_mem_base := byte_mask_update1 (prefetchable_mem_base f) (push_bit 4 msk) (push_bit 32 d)\<rparr>)
      else if reg = 11
      then Inr (f\<lparr>prefetchable_mem_limit := byte_mask_update1 (prefetchable_mem_limit f) (push_bit 4 msk) (push_bit 32 d)\<rparr>)
      else if reg = 12
      then Inr (f\<lparr>io_base := byte_mask_update1 (io_base f) (push_bit 2 (msk AND 0x3)) (push_bit 16 d),
                  io_limit := byte_mask_update1 (io_limit f) (msk AND 0xc) d\<rparr>)
      else if reg = 14 then Inr (f\<lparr>expansion_rom_addr := byte_mask_update1 (expansion_rom_addr f) msk d\<rparr>)
      else if reg = 15 then Inl AttributeError
      else write_config_register reg d msk f)"

end
