(* ===== verification/PCIE_CapRegs_Correct.thy ===== *)
theory PCIE_CapRegs_Correct
  imports PCIE_CapRegs
begin

text \<open>
  The contract of a register file: every register has bits that a write sets, bits that a
  write of 1 clears, and bits that it leaves alone, under the byte enables of the write, and
  no write changes another register. The capability registers keep it, apart from the link
  control registers.
\<close>

section \<open>Register updates\<close>

text \<open>The value of a register after a write.\<close>

definition csr_update :: "int \<Rightarrow> int \<Rightarrow> int \<Rightarrow> int \<Rightarrow> int \<Rightarrow> int" where
  "csr_update rw w1c old d msk =
     byte_mask_update1 old msk ((d AND rw) OR (old AND NOT rw AND NOT (w1c AND d)))"

lemma bit_csr_update:
  "0 \<le> msk \<Longrightarrow> bit (csr_update rw w1c old d msk) n \<longleftrightarrow>
     (if bit msk (n div 8)
      then (if bit rw n then bit d n else bit old n \<and> \<not> (bit w1c n \<and> bit d n))
      else bit old n)"
  by (auto simp: csr_update_def bit_byte_mask_update bit_or_iff bit_and_iff bit_not_iff)

lemma lanes:
  "msk AND 1 \<noteq> 0 \<longleftrightarrow> bit msk 0" "msk AND 2 \<noteq> 0 \<longleftrightarrow> bit msk 1" "msk AND 4 \<noteq> 0 \<longleftrightarrow> bit msk 2"
  "msk AND 8 \<noteq> 0 \<longleftrightarrow> bit msk 3" for msk :: int
  using tst_bit [of msk 0, unfolded tst_def] tst_bit [of msk 1, unfolded tst_def]
    tst_bit [of msk 2, unfolded tst_def] tst_bit [of msk 3, unfolded tst_def] by simp_all

text \<open>The value of one bit after a write, by the bit number and the lane it is in.\<close>

definition bit_after :: "int \<Rightarrow> int \<Rightarrow> int \<Rightarrow> int \<Rightarrow> bool \<Rightarrow> nat \<Rightarrow> bool" where
  "bit_after rw w1c old d en n \<longleftrightarrow>
     (if en then (if bit rw n then bit d n else bit old n \<and> \<not> (bit w1c n \<and> bit d n)) else bit old n)"

lemma csr_eqI:
  assumes "0 \<le> msk" and "0 \<le> rw" "rw < 2 ^ 32" and "take_bit 32 v = v" "take_bit 32 old = old"
    and "\<And>n. n < 8 \<Longrightarrow> bit v n = bit_after rw w1c old d (bit msk 0) n"
    and "\<And>n. 8 \<le> n \<Longrightarrow> n < 16 \<Longrightarrow> bit v n = bit_after rw w1c old d (bit msk 1) n"
    and "\<And>n. 16 \<le> n \<Longrightarrow> n < 24 \<Longrightarrow> bit v n = bit_after rw w1c old d (bit msk 2) n"
    and "\<And>n. 24 \<le> n \<Longrightarrow> n < 32 \<Longrightarrow> bit v n = bit_after rw w1c old d (bit msk 3) n"
  shows "v = csr_update rw w1c old d msk"
proof (rule bit_eqI)
  fix n
  have above: "\<not> bit rw n" "\<not> bit v n" "\<not> bit old n" if "32 \<le> n"
    using that bit_above_exp [OF assms(2,3)] arg_cong [OF assms(4), of "\<lambda>x. bit x n"]
      arg_cong [OF assms(5), of "\<lambda>x. bit x n"] by (auto simp: bit_take_bit_iff)
  consider "n < 8" "n div 8 = 0" | "8 \<le> n" "n < 16" "n div 8 = 1" | "16 \<le> n" "n < 24" "n div 8 = 2" |
    "24 \<le> n" "n < 32" "n div 8 = 3" | "32 \<le> n" by linarith
  then show "bit v n = bit (csr_update rw w1c old d msk) n"
    using above assms(6-9) by cases (auto simp: bit_csr_update [OF assms(1)] bit_after_def)
qed

lemma lane_cases:
  "n < 8 \<Longrightarrow> P 0 \<Longrightarrow> P 1 \<Longrightarrow> P 2 \<Longrightarrow> P 3 \<Longrightarrow> P 4 \<Longrightarrow> P 5 \<Longrightarrow> P 6 \<Longrightarrow> P 7 \<Longrightarrow> P (n :: nat)"
  "8 \<le> n \<Longrightarrow> n < 16 \<Longrightarrow> P 8 \<Longrightarrow> P 9 \<Longrightarrow> P 10 \<Longrightarrow> P 11 \<Longrightarrow> P 12 \<Longrightarrow> P 13 \<Longrightarrow> P 14 \<Longrightarrow> P 15 \<Longrightarrow> P n"
  "16 \<le> n \<Longrightarrow> n < 24 \<Longrightarrow> P 16 \<Longrightarrow> P 17 \<Longrightarrow> P 18 \<Longrightarrow> P 19 \<Longrightarrow> P 20 \<Longrightarrow> P 21 \<Longrightarrow> P 22 \<Longrightarrow> P 23 \<Longrightarrow> P n"
  "24 \<le> n \<Longrightarrow> n < 32 \<Longrightarrow> P 24 \<Longrightarrow> P 25 \<Longrightarrow> P 26 \<Longrightarrow> P 27 \<Longrightarrow> P 28 \<Longrightarrow> P 29 \<Longrightarrow> P 30 \<Longrightarrow> P 31 \<Longrightarrow> P n"
  by (auto simp: numeral_eq_Suc less_Suc_eq le_Suc_eq)

lemma bit_field: "bit (push_bit p (take_bit w x)) n \<longleftrightarrow> p \<le> n \<and> n < p + w \<and> bit (x :: int) (n - p)"
  by (auto simp: bit_simps)

lemmas field_bits = bit_or_iff bit_field bit_take_bit_iff bit_flag mask_simps

lemmas take_32I = take_bit_idI [of 32]

lemma take_one: "take_bit (Suc 0) x = 0 \<longleftrightarrow> \<not> bit (x :: int) 0"
  by (simp add: take_bit_Suc even_iff_mod_2_eq_zero bit_0)

lemmas write_bits = lanes mask_simps bit_take_bit_iff bit_drop_bit_eq take_one

section \<open>PCI Express capability\<close>

text \<open>
  The bits of a register are first reduced to the attribute that they show, then the write is
  evaluated for that attribute alone.
\<close>

lemma device_ctrl_32: "take_bit 32 (read_device_ctrl r) = read_device_ctrl r"
  by (rule take_32I) (simp add: read_device_ctrl_def field_bits)

lemma device_ctrl_csr:
  assumes "0 \<le> msk"
  shows "read_device_ctrl (write_device_ctrl d msk r) = csr_update 0x7fff 0x3f0000 (read_device_ctrl r) d msk"
  by (rule csr_eqI [OF assms _ _ device_ctrl_32 device_ctrl_32]; (erule lane_cases)?;
      simp add: bit_after_def read_device_ctrl_def field_bits; simp add: write_device_ctrl_def write_bits)

lemma slot_ctrl_32: "take_bit 32 (read_slot_ctrl r) = read_slot_ctrl r"
  by (rule take_32I) (simp add: read_slot_ctrl_def field_bits)

lemma slot_ctrl_csr:
  assumes "0 \<le> msk"
  shows "read_slot_ctrl (write_slot_ctrl d msk r) = csr_update 0x1fff 0x11f0000 (read_slot_ctrl r) d msk"
  by (rule csr_eqI [OF assms _ _ slot_ctrl_32 slot_ctrl_32]; (erule lane_cases)?;
      simp add: bit_after_def read_slot_ctrl_def field_bits; simp add: write_slot_ctrl_def write_bits)

lemma root_ctrl_32: "take_bit 32 (read_root_ctrl r) = read_root_ctrl r"
  by (rule take_32I) (simp add: read_root_ctrl_def field_bits)

lemma root_ctrl_csr:
  assumes "0 \<le> msk"
  shows "read_root_ctrl (write_root_ctrl d msk r) = csr_update 0x1f 0 (read_root_ctrl r) d msk"
  by (rule csr_eqI [OF assms _ _ root_ctrl_32 root_ctrl_32]; (erule lane_cases)?;
      simp add: bit_after_def read_root_ctrl_def field_bits; simp add: write_root_ctrl_def write_bits)

lemma root_status_32: "take_bit 32 (read_root_status r) = read_root_status r"
  by (rule take_32I) (simp add: read_root_status_def field_bits)

lemma root_status_csr:
  assumes "0 \<le> msk"
  shows "read_root_status (write_root_status d msk r) = csr_update 0 0x10000 (read_root_status r) d msk"
  by (rule csr_eqI [OF assms _ _ root_status_32 root_status_32]; (erule lane_cases)?;
      simp add: bit_after_def read_root_status_def field_bits; simp add: write_root_status_def write_bits)

lemma device_ctrl2_32: "take_bit 32 (read_device_ctrl2 r) = read_device_ctrl2 r"
  by (rule take_32I) (simp add: read_device_ctrl2_def field_bits)

lemma device_ctrl2_csr:
  assumes "0 \<le> msk"
  shows "read_device_ctrl2 (write_device_ctrl2 d msk r) = csr_update 0xe7ff 0 (read_device_ctrl2 r) d msk"
  by (rule csr_eqI [OF assms _ _ device_ctrl2_32 device_ctrl2_32]; (erule lane_cases)?;
      simp add: bit_after_def read_device_ctrl2_def field_bits; simp add: write_device_ctrl2_def write_bits)

lemma link_ctrl2_32: "take_bit 32 (read_link_ctrl2 r) = read_link_ctrl2 r"
  by (rule take_32I) (simp add: read_link_ctrl2_def field_bits)

lemma margin_bits:
  "bit (transmit_margin (write_link_ctrl2 d msk r)) 0 = (if bit msk 0 then bit d 7 else bit (transmit_margin r) 0)"
  "bit (transmit_margin (write_link_ctrl2 d msk r)) (Suc 0) = (if bit msk 1 then bit d 8 else bit (transmit_margin r) (Suc 0))"
  "bit (transmit_margin (write_link_ctrl2 d msk r)) 2 = (if bit msk 1 then bit d 9 else bit (transmit_margin r) 2)"
  by (simp_all add: write_link_ctrl2_def Let_def lanes bit_or_iff bit_and_iff bit_drop_bit_eq)

lemma link_ctrl2_csr:
  assumes "0 \<le> msk"
  shows "read_link_ctrl2 (write_link_ctrl2 d msk r) = csr_update 0xffbf 0 (read_link_ctrl2 r) d msk"
  by (rule csr_eqI [OF assms _ _ link_ctrl2_32 link_ctrl2_32]; (erule lane_cases)?;
      simp add: bit_after_def read_link_ctrl2_def field_bits;
      (simp add: margin_bits)?; simp add: write_link_ctrl2_def write_bits)

section \<open>The contract\<close>

text \<open>A sequence of writes: register, data and byte enables.\<close>

fun write_all :: "(int \<Rightarrow> int \<Rightarrow> int \<Rightarrow> 's \<Rightarrow> py_error + 's) \<Rightarrow> (int \<times> int \<times> int) list \<Rightarrow> 's \<Rightarrow> py_error + 's" where
  "write_all wr [] s = Inr s"
| "write_all wr ((reg, d, msk) # ws) s = try_bind (wr reg d msk s) (write_all wr ws)"

text \<open>The value of one register after a sequence of writes.\<close>

fun csr_run :: "(int \<Rightarrow> int) \<Rightarrow> (int \<Rightarrow> int) \<Rightarrow> int \<Rightarrow> (int \<times> int \<times> int) list \<Rightarrow> int \<Rightarrow> int" where
  "csr_run rw w1c r [] v = v"
| "csr_run rw w1c r ((reg, d, msk) # ws) v =
     csr_run rw w1c r ws (if reg = r then csr_update (rw r) (w1c r) v d msk else v)"

locale register_file =
  fixes rd :: "'s \<Rightarrow> int \<Rightarrow> int option"
    and wr :: "int \<Rightarrow> int \<Rightarrow> int \<Rightarrow> 's \<Rightarrow> py_error + 's"
    and rw w1c :: "int \<Rightarrow> int" and regs :: "int set" and ok :: "'s \<Rightarrow> bool"
  assumes wr_law: "ok s \<Longrightarrow> reg \<in> regs \<Longrightarrow> 0 \<le> msk \<Longrightarrow> msk < 16 \<Longrightarrow>
    \<exists>s'. wr reg d msk s = Inr s' \<and> ok s' \<and>
      (\<forall>r. rd s' r = (if r = reg then map_option (\<lambda>v. csr_update (rw r) (w1c r) v d msk) (rd s r) else rd s r))"
begin

lemma write_all_view:
  assumes "ok s" and "\<forall>(reg, d, msk) \<in> set ws. reg \<in> regs \<and> 0 \<le> msk \<and> msk < 16"
  shows "\<exists>s'. write_all wr ws s = Inr s' \<and> ok s' \<and> (\<forall>r. rd s' r = map_option (csr_run rw w1c r ws) (rd s r))"
  using assms
proof (induction ws arbitrary: s)
  case Nil
  then show ?case by (simp add: option.map_ident)
next
  case (Cons w ws)
  obtain reg d msk where w: "w = (reg, d, msk)" by (cases w)
  with Cons.prems obtain s1 where s1: "wr reg d msk s = Inr s1" "ok s1"
    "\<And>r. rd s1 r = (if r = reg then map_option (\<lambda>v. csr_update (rw r) (w1c r) v d msk) (rd s r) else rd s r)"
    using wr_law [of s reg msk d] by auto
  moreover obtain s' where "write_all wr ws s1 = Inr s'" "ok s'"
    "\<And>r. rd s' r = map_option (csr_run rw w1c r ws) (rd s1 r)"
    using Cons.IH [OF s1(2)] Cons.prems(2) by auto
  ultimately show ?case by (auto simp: w option.map_comp comp_def cong: map_option_cong)
qed

end

text \<open>Bits that are neither writable nor cleared by a write of 1 keep their value.\<close>

lemma csr_run_read_only:
  "\<forall>(reg, d, msk) \<in> set ws. 0 \<le> msk \<Longrightarrow> \<not> bit (rw r) n \<Longrightarrow> \<not> bit (w1c r) n \<Longrightarrow>
     bit (csr_run rw w1c r ws v) n = bit v n"
proof (induction ws arbitrary: v)
  case (Cons w ws)
  obtain reg d msk where w: "w = (reg, d, msk)" by (cases w)
  with Cons show ?case by (auto simp: bit_csr_update)
qed simp

lemma csr_update_none: "0 \<le> msk \<Longrightarrow> csr_update 0 0 v d msk = v"
  by (rule bit_eqI) (simp add: bit_csr_update)

section \<open>The capabilities keep the contract\<close>

definition pcie_rw :: "int \<Rightarrow> int" where
  "pcie_rw reg = (if reg = 2 then 0x7fff else if reg = 6 then 0x1fff else if reg = 7 then 0x1f
     else if reg = 10 then 0xe7ff else if reg = 12 then 0xffbf else 0)"

definition pcie_w1c :: "int \<Rightarrow> int" where
  "pcie_w1c reg = (if reg = 2 then 0x3f0000 else if reg = 6 then 0x11f0000 else if reg = 8 then 0x10000 else 0)"

definition pcie_idle :: "pcie_regs \<Rightarrow> bool" where
  "pcie_idle p \<longleftrightarrow> \<not> link_equalization_request (pr_link_ctrl2 p)"

lemma pcie_wr_law:
  assumes "pcie_idle p" and "reg \<noteq> 4" and "0 \<le> msk"
  shows "\<exists>p'. write_pcie_cap_register reg d msk p = Inr p' \<and> pcie_idle p' \<and>
     (\<forall>r. read_pcie_cap_register p' r =
       (if r = reg then csr_update (pcie_rw r) (pcie_w1c r) (read_pcie_cap_register p r) d msk
        else read_pcie_cap_register p r))"
proof -
  note defs = write_pcie_cap_register_def read_pcie_cap_register_def pcie_rw_def pcie_w1c_def pcie_idle_def
  consider "reg = 2" | "reg = 6" | "reg = 7" | "reg = 8" | "reg = 10" | "reg = 12" | "reg \<notin> {2, 6, 7, 8, 10, 12}"
    by blast
  then show ?thesis
  proof cases
    case 1
    then show ?thesis using assms
      by (simp add: defs device_ctrl_csr)
  next
    case 2
    then show ?thesis using assms
      by (simp add: defs slot_ctrl_csr)
  next
    case 3
    then show ?thesis using assms
      by (simp add: defs root_ctrl_csr)
  next
    case 4
    then show ?thesis using assms
      by (simp add: defs root_status_csr)
  next
    case 5
    then show ?thesis using assms
      by (simp add: defs device_ctrl2_csr)
  next
    case 6
    have "link_equalization_request (write_link_ctrl2 d msk r) = link_equalization_request r" for r
      by (simp add: write_link_ctrl2_def)
    with 6 show ?thesis using assms
      by (simp add: defs link_ctrl2_csr)
  next
    case 7
    then show ?thesis using assms
      by (simp add: write_pcie_cap_register_def pcie_rw_def pcie_w1c_def csr_update_none)
  qed
qed

interpretation pcie_file: register_file "\<lambda>p r. Some (read_pcie_cap_register p r)" write_pcie_cap_register
  pcie_rw pcie_w1c "- {4}" pcie_idle
proof (unfold_locales, goal_cases)
  case (1 p reg msk d)
  then have "reg \<noteq> 4" by simp
  from pcie_wr_law [OF 1(1) this 1(3), of d] obtain p' where
    "write_pcie_cap_register reg d msk p = Inr p'" "pcie_idle p'"
    "\<forall>r. read_pcie_cap_register p' r =
       (if r = reg then csr_update (pcie_rw r) (pcie_w1c r) (read_pcie_cap_register p r) d msk
        else read_pcie_cap_register p r)" by blast
  then show ?case by simp
qed

text \<open>The registers of the other capabilities, for fixed MSI options.\<close>

definition msi_rw :: "bool \<Rightarrow> bool \<Rightarrow> int \<Rightarrow> int" where
  "msi_rw b64 pvm reg = (if reg = 0 then 0x710000 else if reg = 1 then 0xfffffffc
     else if reg = 2 \<and> b64 then 0xffffffff
     else if reg = (if b64 then 3 else 2) then 0xffff
     else if reg = (if b64 then 4 else 3) \<and> pvm then 0xffffffff else 0)"

definition msi_opts :: "bool \<Rightarrow> bool \<Rightarrow> msi_regs \<Rightarrow> bool" where
  "msi_opts b64 pvm m \<longleftrightarrow> msi_64bit_address_capable m = b64 \<and> msi_per_vector_mask_capable m = pvm"

lemma msi_ctrl_csr:
  assumes "0 \<le> msk"
  shows "read_msi_cap_register (write_msi_cap_register 0 d msk m) 0 =
    map_option (\<lambda>v. csr_update 0x710000 0 v d msk) (read_msi_cap_register m 0)"
proof -
  let ?f = "\<lambda>m. flag 16 (msi_enable m) OR push_bit 17 (msi_multiple_message_capable m AND 0x7) OR
     push_bit 20 (msi_multiple_message_enable m AND 0x7) OR
     flag 23 (msi_64bit_address_capable m) OR flag 24 (msi_per_vector_mask_capable m)"
  have w: "take_bit 32 (?f m) = ?f m" for m by (rule take_32I) (simp add: field_bits)
  have "?f (write_msi_cap_register 0 d msk m) = csr_update 0x710000 0 (?f m) d msk"
    by (rule csr_eqI [OF assms _ _ w w]; (erule lane_cases)?; simp add: bit_after_def field_bits;
        simp add: write_msi_cap_register_def write_bits)
  then show ?thesis by (simp add: read_msi_cap_register_def)
qed

lemma bit_ones: "bit (push_bit p (mask w) :: int) n \<longleftrightarrow> p \<le> n \<and> n < p + w"
  by (auto simp: bit_push_bit_iff bit_mask_iff)

lemma ones:
  "(0xfffffffc :: int) = push_bit 2 (mask 30)" "(0xfffffffffffffffc :: int) = push_bit 2 (mask 62)"
  "(0xffffffff :: int) = push_bit 0 (mask 32)" "(0xffff :: int) = push_bit 0 (mask 16)"
  "(0xfffffff8 :: int) = push_bit 3 (mask 29)"
  by (simp_all add: push_bit_eq_mult mask_eq_exp_minus_1)

lemma bit_numeral_ones:
  "bit (0xfffffffc :: int) n \<longleftrightarrow> 2 \<le> n \<and> n < 32" "bit (0xfffffffffffffffc :: int) n \<longleftrightarrow> 2 \<le> n \<and> n < 64"
  "bit (0xffffffff :: int) n \<longleftrightarrow> n < 32" "bit (0xffff :: int) n \<longleftrightarrow> n < 16"
  "bit (0xfffffff8 :: int) n \<longleftrightarrow> 3 \<le> n \<and> n < 32"
  by (simp_all only: ones bit_ones) simp_all

lemma msi_bits:
  assumes "0 \<le> msk" "msk < 16"
  shows "n < 32 \<Longrightarrow> bit (byte_mask_update1 a msk d) n \<longleftrightarrow> (if bit msk (n div 8) then bit d n else bit a n)"
    "32 \<le> n \<Longrightarrow> bit (byte_mask_update1 a msk d) n = bit a n"
    "n < 32 \<Longrightarrow> bit (byte_mask_update1 a (push_bit 4 msk) (push_bit 32 d)) n = bit a n"
    "n < 32 \<Longrightarrow> bit (byte_mask_update1 a (push_bit 4 msk) (push_bit 32 d)) (n + 32) \<longleftrightarrow>
       (if bit msk (n div 8) then bit d n else bit a (n + 32))"
    "n < 16 \<Longrightarrow> bit (byte_mask_update1 a (msk AND 3) d) n \<longleftrightarrow> (if bit msk (n div 8) then bit d n else bit a n)"
proof -
  have shift: "(n + 32) div 8 - 4 = n div 8" by simp
  have "\<not> bit msk k" if "4 \<le> k" for k using assms that by (intro bit_above_exp [of _ 4]) auto
  then show "n < 32 \<Longrightarrow> bit (byte_mask_update1 a msk d) n \<longleftrightarrow> (if bit msk (n div 8) then bit d n else bit a n)"
    "32 \<le> n \<Longrightarrow> bit (byte_mask_update1 a msk d) n = bit a n"
    "n < 32 \<Longrightarrow> bit (byte_mask_update1 a (push_bit 4 msk) (push_bit 32 d)) n = bit a n"
    "n < 32 \<Longrightarrow> bit (byte_mask_update1 a (push_bit 4 msk) (push_bit 32 d)) (n + 32) \<longleftrightarrow>
       (if bit msk (n div 8) then bit d n else bit a (n + 32))"
    "n < 16 \<Longrightarrow> bit (byte_mask_update1 a (msk AND 3) d) n \<longleftrightarrow> (if bit msk (n div 8) then bit d n else bit a n)"
    using assms shift by (auto simp: bit_byte_mask_update mask_simps bit_simps)
qed

lemma csr_plain:
  assumes "0 \<le> msk" and "\<And>n. bit v n = (if bit msk (n div 8) \<and> bit rw n then bit d n else bit old n)"
  shows "v = csr_update rw 0 old d msk"
  by (rule bit_eqI) (auto simp: assms bit_csr_update)

lemma msi_addr_csr:
  assumes "0 \<le> msk" "msk < 16"
  shows "(byte_mask_update1 a msk d AND 0xfffffffffffffffc) AND 0xfffffffc =
      csr_update 0xfffffffc 0 (a AND 0xfffffffc) d msk"
    "drop_bit 32 (byte_mask_update1 a msk d AND 0xfffffffffffffffc) AND 0xffffffff = drop_bit 32 a AND 0xffffffff"
    "drop_bit 32 (byte_mask_update1 a (push_bit 4 msk) (push_bit 32 d) AND 0xfffffffffffffffc) AND 0xffffffff =
      csr_update 0xffffffff 0 (drop_bit 32 a AND 0xffffffff) d msk"
    "(byte_mask_update1 a (push_bit 4 msk) (push_bit 32 d) AND 0xfffffffffffffffc) AND 0xfffffffc = a AND 0xfffffffc"
    "(byte_mask_update1 a (msk AND 3) d AND 0xffff) AND 0xffff = csr_update 0xffff 0 (a AND 0xffff) d msk"
    "(byte_mask_update1 a msk d AND 0xffffffff) AND 0xffffffff = csr_update 0xffffffff 0 (a AND 0xffffffff) d msk"
proof -
  note b = msi_bits [OF assms] bit_and_iff bit_drop_bit_eq bit_numeral_ones
  show "(byte_mask_update1 a msk d AND 0xfffffffffffffffc) AND 0xfffffffc =
      csr_update 0xfffffffc 0 (a AND 0xfffffffc) d msk"
    by (rule csr_plain [OF assms(1)]) (auto simp: b)
  show "drop_bit 32 (byte_mask_update1 a msk d AND 0xfffffffffffffffc) AND 0xffffffff = drop_bit 32 a AND 0xffffffff"
    by (rule bit_eqI) (auto simp: b)
  show "drop_bit 32 (byte_mask_update1 a (push_bit 4 msk) (push_bit 32 d) AND 0xfffffffffffffffc) AND 0xffffffff =
      csr_update 0xffffffff 0 (drop_bit 32 a AND 0xffffffff) d msk"
    by (rule csr_plain [OF assms(1)]) (auto simp: b add.commute [of 32])
  show "(byte_mask_update1 a (push_bit 4 msk) (push_bit 32 d) AND 0xfffffffffffffffc) AND 0xfffffffc = a AND 0xfffffffc"
    by (rule bit_eqI) (auto simp: b)
  show "(byte_mask_update1 a (msk AND 3) d AND 0xffff) AND 0xffff = csr_update 0xffff 0 (a AND 0xffff) d msk"
    by (rule csr_plain [OF assms(1)]) (auto simp: b)
  show "(byte_mask_update1 a msk d AND 0xffffffff) AND 0xffffffff = csr_update 0xffffffff 0 (a AND 0xffffffff) d msk"
    by (rule csr_plain [OF assms(1)]) (auto simp: b)
qed

lemma csr_and: "0 \<le> msk \<Longrightarrow> csr_update rw 0 (v AND rw) d msk AND rw = csr_update rw 0 (v AND rw) d msk"
  by (rule bit_eqI) (auto simp: bit_csr_update bit_and_iff)

lemma msi_wr_law:
  assumes "msi_opts b64 pvm m" and "0 \<le> msk" "msk < 16"
  shows "msi_opts b64 pvm (write_msi_cap_register reg d msk m)"
    and "read_msi_cap_register (write_msi_cap_register reg d msk m) r =
       (if r = reg then map_option (\<lambda>v. csr_update (msi_rw b64 pvm r) 0 v d msk) (read_msi_cap_register m r)
        else read_msi_cap_register m r)"
proof -
  have o: "msi_64bit_address_capable m = b64" "msi_per_vector_mask_capable m = pvm"
    using assms(1) by (simp_all add: msi_opts_def)
  show "msi_opts b64 pvm (write_msi_cap_register reg d msk m)"
    using assms(1) by (simp add: msi_opts_def write_msi_cap_register_def)
  show "read_msi_cap_register (write_msi_cap_register reg d msk m) r =
       (if r = reg then map_option (\<lambda>v. csr_update (msi_rw b64 pvm r) 0 v d msk) (read_msi_cap_register m r)
        else read_msi_cap_register m r)"
  proof (cases "reg = 0")
    case True
    show ?thesis
    proof (cases "r = 0")
      case r: True
      then show ?thesis using True msi_ctrl_csr [OF assms(2), of d m] by (simp add: msi_rw_def)
    next
      case False
      then show ?thesis using True by (simp add: write_msi_cap_register_def read_msi_cap_register_def)
    qed
  next
    case False
    then show ?thesis using o
      by (cases b64; cases pvm; simp add: write_msi_cap_register_def read_msi_cap_register_def msi_rw_def
            msi_addr_csr [OF assms(2,3), simplified] csr_update_none csr_and assms(2))
  qed
qed

interpretation msi_file: register_file read_msi_cap_register "\<lambda>reg d msk m. Inr (write_msi_cap_register reg d msk m)"
  "msi_rw b64 pvm" "\<lambda>_. 0" UNIV "msi_opts b64 pvm" for b64 pvm
  by unfold_locales (simp add: msi_wr_law)

definition msix_rw :: "int \<Rightarrow> int" where
  "msix_rw reg = (if reg = 0 then 0xc0000000 else 0)"

lemma msix_wr_law:
  assumes "0 \<le> msk"
  shows "read_msix_cap_register (write_msix_cap_register reg d msk m) r =
       (if r = reg then map_option (\<lambda>v. csr_update (msix_rw r) 0 v d msk) (read_msix_cap_register m r)
        else read_msix_cap_register m r)"
proof -
  let ?f = "\<lambda>m. push_bit 16 (msix_table_size m AND 0x7ff) OR flag 30 (msix_function_mask m) OR flag 31 (msix_enable m)"
  have w: "take_bit 32 (?f m) = ?f m" for m by (rule take_32I) (simp add: field_bits)
  have "?f (write_msix_cap_register 0 d msk m) = csr_update 0xc0000000 0 (?f m) d msk"
    by (rule csr_eqI [OF assms _ _ w w]; (erule lane_cases)?; simp add: bit_after_def field_bits;
        simp add: write_msix_cap_register_def write_bits)
  then show ?thesis using assms
    by (auto simp: read_msix_cap_register_def msix_rw_def csr_update_none write_msix_cap_register_def split: if_splits)
qed

interpretation msix_file: register_file read_msix_cap_register "\<lambda>reg d msk m. Inr (write_msix_cap_register reg d msk m)"
  msix_rw "\<lambda>_. 0" UNIV "\<lambda>_. True"
  by unfold_locales (simp add: msix_wr_law)

interpretation pm_file: register_file read_pm_cap_register "\<lambda>reg d msk m. Inr (write_pm_cap_register reg d msk m)"
  "\<lambda>_. 0" "\<lambda>_. 0" UNIV "\<lambda>_. True"
  by unfold_locales (simp add: write_pm_cap_register_def csr_update_none option.map_ident)

section \<open>Properties\<close>

text \<open>C14. The registers of the PCI Express capability refine a register file. While no equalization
  request is pending, any sequence of writes to registers other than link control returns, and
  every register then reads as if the writes to it alone had been applied to its old value:
  writable bits take the data, status bits are cleared by a 1, all under the byte enables.\<close>

theorem pcie_cap_refines:
  assumes "pcie_idle p" and "\<forall>(reg, d, msk) \<in> set ws. reg \<noteq> 4 \<and> 0 \<le> msk \<and> msk < 16"
  shows "\<exists>p'. write_all write_pcie_cap_register ws p = Inr p' \<and> pcie_idle p' \<and>
     (\<forall>r. read_pcie_cap_register p' r = csr_run pcie_rw pcie_w1c r ws (read_pcie_cap_register p r))"
  using pcie_file.write_all_view [OF assms(1), of ws] assms(2) by auto

theorem pcie_cap_refines_witness:
  "\<exists>p'. write_all write_pcie_cap_register [(2, 0x2830, 0xf), (10, 0x5, 1)] init_pcie_regs = Inr p' \<and>
     read_pcie_cap_register p' 2 = csr_run pcie_rw pcie_w1c 2 [(2, 0x2830, 0xf), (10, 0x5, 1)] 0x2810 \<and>
     read_pcie_cap_register p' 4 = 0"
proof -
  have "pcie_idle init_pcie_regs"
    by (simp add: pcie_idle_def init_pcie_regs_def init_link_ctrl2_def)
  from pcie_cap_refines [OF this, of "[(2, 0x2830, 0xf), (10, 0x5, 1)]"] obtain p' where
    p': "write_all write_pcie_cap_register [(2, 0x2830, 0xf), (10, 0x5, 1)] init_pcie_regs = Inr p'"
    "\<forall>r. read_pcie_cap_register p' r =
       csr_run pcie_rw pcie_w1c r [(2, 0x2830, 0xf), (10, 0x5, 1)] (read_pcie_cap_register init_pcie_regs r)"
    by auto
  have "read_pcie_cap_register init_pcie_regs 2 = 0x2810" "read_pcie_cap_register init_pcie_regs 4 = 0" by code_simp+
  then show ?thesis using p'(1) p'(2) [THEN spec, of 2] p'(2) [THEN spec, of 4] by auto
qed

text \<open>C15. Writing the link control register sets the read completion boundary, which reads as bit 3,
  from bit 4 of the data, and never changes the link disable bit 4 itself.\<close>

theorem link_ctrl_boundary_bit:
  "\<exists>p'. write_pcie_cap_register 4 d msk p = Inr p' \<and>
     (bit msk 0 \<longrightarrow> bit (read_pcie_cap_register p' 4) 3 = bit d 4) \<and>
     bit (read_pcie_cap_register p' 4) 4 = bit (read_pcie_cap_register p 4) 4"
proof -
  have "bit (read_link_ctrl (write_link_ctrl d msk r)) 4 = bit (read_link_ctrl r) 4" for r
    by (simp add: read_link_ctrl_def field_bits) (simp add: write_link_ctrl_def)
  moreover have "bit msk 0 \<longrightarrow> bit (read_link_ctrl (write_link_ctrl d msk r)) 3 = bit d 4" for r
    by (simp add: read_link_ctrl_def field_bits) (simp add: write_link_ctrl_def write_bits)
  ultimately show ?thesis by (simp add: write_pcie_cap_register_def read_pcie_cap_register_def)
qed

theorem link_ctrl_boundary_bit_witness:
  "\<exists>p'. write_pcie_cap_register 4 0x10 1 init_pcie_regs = Inr p' \<and> bit (1 :: int) 0 \<and>
     bit (read_pcie_cap_register p' 4) 3 \<and> \<not> bit (read_pcie_cap_register p' 4) 4"
proof -
  have "read_pcie_cap_register init_pcie_regs 4 = 0" by code_simp
  then show ?thesis using link_ctrl_boundary_bit [of "0x10" 1 init_pcie_regs] by auto
qed

end
