(* ===== verification/PCIE_Function_Correct.thy ===== *)
theory PCIE_Function_Correct
  imports PCIE_Function PCIE_CapRegs_Correct PCIE_CapList_Correct
begin

text \<open>
  Properties of PCIe functions: the search for free tags, the decoding of base address
  registers, and what configuration writes keep of them.
\<close>

section \<open>Tags\<close>

lemma tag_loop_spec:
  assumes "tag_loop k n q tag = (t', r)"
  shows "case r of
      None \<Rightarrow> \<forall>j \<in> {1..int k}. q ! nat ((tag + j) mod n) \<noteq> []
    | Some t \<Rightarrow> t' = t \<and> q ! nat t = [] \<and>
        (\<exists>j \<in> {1..int k}. t = (tag + j) mod n \<and> (\<forall>i \<in> {1..<j}. q ! nat ((tag + i) mod n) \<noteq> []))"
  using assms
proof (induction k arbitrary: tag)
  case (Suc k)
  let ?t = "(tag + 1) mod n"
  have step: "(?t + (j - 1)) mod n = (tag + j) mod n" for j
    by (simp add: mod_simps ac_simps)
  show ?case
  proof (cases "q ! nat ?t = []")
    case True
    then show ?thesis using Suc.prems by (auto simp: Let_def intro!: bexI [of _ 1])
  next
    case False
    then have "tag_loop k n q ?t = (t', r)" using Suc.prems by (simp add: Let_def)
    note ih = Suc.IH [OF this]
    have shift: "q ! nat ((tag + j) mod n) \<noteq> []"
      if "\<forall>i \<in> {1..<m}. q ! nat ((?t + i) mod n) \<noteq> []" "j \<in> {1..<m + 1}" for j m
    proof (cases "j = 1")
      case j: False
      then have "j - 1 \<in> {1..<m}" using that(2) by auto
      then have "q ! nat ((?t + (j - 1)) mod n) \<noteq> []" using that(1) by blast
      then show ?thesis unfolding step .
    qed (use False in simp)
    show ?thesis
    proof (cases r)
      case None
      then have "\<forall>i \<in> {1..<int k + 1}. q ! nat ((?t + i) mod n) \<noteq> []" using ih by auto
      then have "q ! nat ((tag + j) mod n) \<noteq> []" if "j \<in> {1..int (Suc k)}" for j
        using that by (intro shift [of "int k + 1"]) auto
      then show ?thesis using None by simp
    next
      case (Some t)
      then obtain j where j: "j \<in> {1..int k}" "t = (?t + j) mod n" "t' = t" "q ! nat t = []"
        "\<forall>i \<in> {1..<j}. q ! nat ((?t + i) mod n) \<noteq> []" using ih by auto
      have "t = (tag + (j + 1)) mod n" using j(2) step [of "j + 1"] by simp
      moreover have "\<forall>i \<in> {1..<j + 1}. q ! nat ((tag + i) mod n) \<noteq> []" using shift [OF j(5)] by blast
      moreover have "j + 1 \<in> {1..int (Suc k)}" using j(1) by auto
      ultimately show ?thesis using Some j(3,4) by auto
    qed
  qed
qed simp

lemma residues: "0 < n \<Longrightarrow> 0 \<le> t \<Longrightarrow> t < n \<Longrightarrow> \<exists>j \<in> {1..n}. (tag + j) mod n = (t :: int)"
proof (rule bexI [of _ "(t - tag - 1) mod n + 1"])
  assume n: "0 < n" and t: "0 \<le> t" "t < n"
  have "(tag + ((t - tag - 1) mod n + 1)) mod n = ((tag + 1) + (t - tag - 1)) mod n"
    by (metis add.assoc add.commute mod_add_right_eq)
  then show "(tag + ((t - tag - 1) mod n + 1)) mod n = t" using t by simp
  show "(t - tag - 1) mod n + 1 \<in> {1..n}" using n by (simp add: add1_zle_eq)
qed

definition tag_count :: "'a pfunction_scheme \<Rightarrow> int" where
  "tag_count f = (if extended_tag_field_enable (pr_device_ctrl (pcie f)) then 256 else 32)"

text \<open>C16. The search for a free tag returns the first tag after the current one, in cyclic order, that has no completion waiting: the
  tags it passes all have one. It finds none exactly when every tag in range has one, and nothing but the search position
  changes.\<close>

theorem get_free_tag_correct:
  "\<exists>pos r. get_free_tag f = (f\<lparr>current_tag := pos\<rparr>, r) \<and>
     (r = None \<longleftrightarrow> (\<forall>t. 0 \<le> t \<and> t < tag_count f \<longrightarrow> rx_cpl_queues f ! nat t \<noteq> [])) \<and>
     (\<forall>t. r = Some t \<longrightarrow> pos = t \<and> 0 \<le> t \<and> t < tag_count f \<and> rx_cpl_queues f ! nat t = [] \<and>
        (\<exists>j \<in> {1..tag_count f}. t = (current_tag f + j) mod tag_count f \<and>
           (\<forall>i \<in> {1..<j}. rx_cpl_queues f ! nat ((current_tag f + i) mod tag_count f) \<noteq> [])))"
proof -
  have n: "0 < tag_count f" by (simp add: tag_count_def)
  obtain pos r where l: "tag_loop (nat (tag_count f)) (tag_count f) (rx_cpl_queues f) (current_tag f) = (pos, r)"
    by fastforce
  have k: "int (nat (tag_count f)) = tag_count f" using n by simp
  note s = tag_loop_spec [OF l, unfolded k]
  have g: "get_free_tag f = (f\<lparr>current_tag := pos\<rparr>, r)"
    using l by (simp add: get_free_tag_def tag_count_def Let_def)
  show ?thesis
  proof (cases r)
    case None
    have "rx_cpl_queues f ! nat t \<noteq> []" if "0 \<le> t" "t < tag_count f" for t
      using residues [OF n that, of "current_tag f"] s None by auto
    then show ?thesis using g None by blast
  next
    case (Some t)
    then have t: "pos = t" "rx_cpl_queues f ! nat t = []" and j: "\<exists>j \<in> {1..tag_count f}. t = (current_tag f + j) mod tag_count f \<and>
       (\<forall>i \<in> {1..<j}. rx_cpl_queues f ! nat ((current_tag f + i) mod tag_count f) \<noteq> [])" using s by auto
    then have "0 \<le> t" "t < tag_count f" using n by auto
    then show ?thesis using g Some t j by blast
  qed
qed

theorem get_free_tag_correct_witness:
  "\<exists>pos. get_free_tag ((base_function ())\<lparr>current_tag := 31\<rparr>) = ((base_function ())\<lparr>current_tag := pos\<rparr>, Some 0)"
proof -
  let ?f = "(base_function ())\<lparr>current_tag := 31\<rparr>"
  have c: "tag_count ?f = 32" "current_tag ?f = 31"
    by (simp_all add: tag_count_def base_function_def init_pcie_regs_def init_device_ctrl_def)
  have q: "rx_cpl_queues ?f ! nat 0 = []" by (simp add: base_function_def)
  obtain pos r where p: "get_free_tag ?f = (?f\<lparr>current_tag := pos\<rparr>, r)"
    "r = None \<longleftrightarrow> (\<forall>t. 0 \<le> t \<and> t < 32 \<longrightarrow> rx_cpl_queues ?f ! nat t \<noteq> [])"
    "\<forall>t. r = Some t \<longrightarrow> (\<exists>j \<in> {1..32}. t = (31 + j) mod 32 \<and> (\<forall>i \<in> {1..<j}. rx_cpl_queues ?f ! nat ((31 + i) mod 32) \<noteq> []))"
    using get_free_tag_correct [of ?f] unfolding c by blast
  have "r \<noteq> None" unfolding p(2) using q by (intro notI) (drule spec [of _ 0], simp)
  then obtain t where t: "r = Some t" by blast
  then obtain j where j: "j \<in> {1..32}" "t = (31 + j) mod 32" "\<forall>i \<in> {1..<j}. rx_cpl_queues ?f ! nat ((31 + i) mod 32) \<noteq> []"
    using p(3) by blast
  have "j = 1"
  proof (rule ccontr)
    assume "j \<noteq> 1"
    then have "rx_cpl_queues ?f ! nat ((31 + 1) mod 32) \<noteq> []" using j(1,3) by force
    then show False using q by simp
  qed
  then have "t = 0" using j(2) by simp
  then show ?thesis using p(1) t by auto
qed

section \<open>Base address registers\<close>

text \<open>A window of \<open>2 ^ k\<close> addresses in an address space of \<open>w\<close> bits.\<close>

definition win :: "nat \<Rightarrow> nat \<Rightarrow> int" where
  "win w k = push_bit k (mask (w - k))"

lemma and_win:
  assumes "k \<le> w"
  shows "a AND win w k = 2 ^ k * (a mod 2 ^ w div 2 ^ k)"
proof -
  have "a AND win w k = push_bit k (drop_bit k (take_bit w a))"
    by (rule bit_eqI) (use assms in \<open>auto simp: win_def bit_simps\<close>)
  then show ?thesis by (simp add: push_bit_eq_mult drop_bit_eq_div take_bit_eq_mod)
qed

lemma and_split: "(a AND m) + (a AND NOT m) = (a :: int)"
proof -
  have "(a AND m) + (a AND NOT m) = (a AND m) OR (a AND NOT m)"
    by (rule disjunctive_add) (auto simp: bit_and_iff bit_not_iff)
  also have "\<dots> = a" by (rule bit_eqI) (auto simp: bit_simps)
  finally show ?thesis .
qed

text \<open>The decoder of a register sees the low \<open>w\<close> bits of the address; the offset is taken from all of it.\<close>

lemma bar_hit_win:
  assumes "k \<le> w"
  shows "bar_hit a i v (win w k) =
     (let base = v AND win w k in if base \<le> a mod 2 ^ w \<and> a mod 2 ^ w < base + 2 ^ k then [(i, a - base)] else [])"
proof -
  obtain b where b: "v AND win w k = 2 ^ k * b" using and_win [OF assms] by blast
  let ?p = "2 ^ k :: int" and ?a = "a mod 2 ^ w"
  have "?a div ?p = b \<longleftrightarrow> ?p * b \<le> ?a \<and> ?a < ?p * b + ?p"
  proof
    assume d: "?a div ?p = b"
    have p: "0 < ?p" by simp
    show "?p * b \<le> ?a \<and> ?a < ?p * b + ?p"
      using mult_div_mod_eq [of ?p ?a, unfolded d] pos_mod_sign [OF p, of ?a] pos_mod_bound [OF p, of ?a]
      by (intro conjI; linarith)
  next
    assume r: "?p * b \<le> ?a \<and> ?a < ?p * b + ?p"
    then show "?a div ?p = b" by (intro int_div_pos_eq [of _ _ _ "?a - ?p * b"]) auto
  qed
  moreover have "a AND NOT (win w k) = a - (a AND win w k)" using and_split [of a "win w k"] by linarith
  ultimately show ?thesis using and_win [OF assms, of a] b by (simp add: bar_hit_def Let_def)
qed

text \<open>
  Well-formed registers: implemented IO and memory registers have a window of at least four
  and sixteen addresses, 64 bit registers one below four gigabytes whose extension register
  decodes all its bits.
\<close>

fun bars_ok :: "(int \<times> int) list \<Rightarrow> bool" where
  "bars_ok [] \<longleftrightarrow> True"
| "bars_ok [(v, m)] \<longleftrightarrow> 0 \<le> v \<and> v < 2 ^ 32 \<and>
     (m = 0 \<or> bit v 0 \<and> (\<exists>k\<in>{2..31}. m = win 32 k) \<or>
      \<not> bit v 0 \<and> \<not> bit v 2 \<and> (\<exists>k\<in>{4..31}. m = win 32 k))"
| "bars_ok ((v, m) # (v2, m2) # rest) \<longleftrightarrow> 0 \<le> v \<and> v < 2 ^ 32 \<and>
     (if m = 0 then bars_ok ((v2, m2) # rest)
      else if bit v 0 then (\<exists>k\<in>{2..31}. m = win 32 k) \<and> bars_ok ((v2, m2) # rest)
      else if bit v 2
      then (\<exists>k\<in>{4..31}. m = win 32 k) \<and> 0 \<le> v2 \<and> v2 < 2 ^ 32 \<and> m2 = mask 32 \<and> bars_ok rest
      else (\<exists>k\<in>{4..31}. m = win 32 k) \<and> bars_ok ((v2, m2) # rest))"

text \<open>The windows that the registers describe: index, kind, width of the decoder, base and size.\<close>

record region =
  reg_idx :: nat
  reg_io :: bool
  reg_width :: nat
  reg_base :: int
  reg_size :: int

fun regions :: "nat \<Rightarrow> (int \<times> int) list \<Rightarrow> region list" where
  "regions i [] = []"
| "regions i [(v, m)] =
     (if m = 0 then [] else [\<lparr>reg_idx = i, reg_io = bit v 0, reg_width = 32, reg_base = v AND m, reg_size = 2 ^ 32 - m\<rparr>])"
| "regions i ((v, m) # (v2, m2) # rest) =
     (if m = 0 then regions (i + 1) ((v2, m2) # rest)
      else if \<not> bit v 0 \<and> bit v 2
      then \<lparr>reg_idx = i, reg_io = False, reg_width = 64, reg_base = (v OR push_bit 32 v2) AND (m OR push_bit 32 m2),
            reg_size = 2 ^ 64 - (m OR push_bit 32 m2)\<rparr> # regions (i + 2) rest
      else \<lparr>reg_idx = i, reg_io = bit v 0, reg_width = 32, reg_base = v AND m, reg_size = 2 ^ 32 - m\<rparr>
        # regions (i + 1) ((v2, m2) # rest))"

definition region_hits :: "bool \<Rightarrow> int \<Rightarrow> region list \<Rightarrow> (nat \<times> int) list" where
  "region_hits io a rs =
     map (\<lambda>r. (reg_idx r, a - reg_base r))
       (filter (\<lambda>r. reg_io r = io \<and> reg_base r \<le> a mod 2 ^ reg_width r \<and> a mod 2 ^ reg_width r < reg_base r + reg_size r) rs)"

lemma win_value: "k \<le> w \<Longrightarrow> win w k = 2 ^ w - 2 ^ k"
  by (simp add: win_def push_bit_eq_mult mask_eq_exp_minus_1 left_diff_distrib flip: power_add)

lemma win_64: "k \<le> 32 \<Longrightarrow> win 32 k OR push_bit 32 (mask 32) = win 64 k"
  by (rule bit_eqI) (auto simp: win_def bit_simps)

lemma win_size: "k \<le> 32 \<Longrightarrow> 4294967296 - win 32 k = 2 ^ k" "k \<le> 64 \<Longrightarrow> 18446744073709551616 - win 64 k = 2 ^ k"
  by (simp_all add: win_value)

lemmas bar_hit_win32 = bar_hit_win [of _ 32, simplified]
  and bar_hit_win64 = bar_hit_win [of _ 64, simplified]

lemma win_nonzero: "k < w \<Longrightarrow> win w k \<noteq> 0"
  by (simp add: win_value)

lemma and_1_4: "v AND 1 \<noteq> 0 \<longleftrightarrow> bit v 0" "v AND 4 \<noteq> 0 \<longleftrightarrow> bit v 2" for v :: int
  using lanes [of v] by simp_all

lemma match_bars_spec:
  assumes "bars_ok bs"
  shows "match_bars a io i bs = Inr (region_hits io a (regions i bs))"
  using assms
proof (induction a io i bs rule: match_bars.induct)
  case (1 addr io k)
  then show ?case by (simp add: region_hits_def)
next
  case (2 addr io i v m)
  then show ?case
    by (auto simp: region_hits_def and_1_4 bar_hit_win32 win_nonzero win_size Let_def)
next
  case (3 addr io i v m v2 m2 rest)
  then show ?case
    by (auto simp: region_hits_def and_1_4 bar_hit_win32 bar_hit_win64 win_nonzero win_64 win_size Let_def)
qed

text \<open>C17. For well-formed base address registers, matching any address gives exactly the registers of the requested
  kind whose window contains the part of the address that their decoder sees, the low 32 or 64 bits, in order, each with
  the distance of the address from the base. So an address in the range of a decoder matches exactly when
  the window contains it, while a 32 bit register also answers above four gigabytes, with an offset
  outside of its window.\<close>

theorem match_bar_correct:
  assumes "bars_ok (zip (bar f) (bar_mask f))"
  shows "match_bar addr io f = Inr (region_hits io addr (regions 0 (zip (bar f) (bar_mask f)))) \<and>
     (\<forall>r \<in> set (regions 0 (zip (bar f) (bar_mask f))). \<forall>off. 0 \<le> addr \<and> addr < 2 ^ reg_width r \<longrightarrow>
        ((reg_idx r, off) \<in> set (region_hits io addr [r]) \<longleftrightarrow>
         reg_io r = io \<and> off = addr - reg_base r \<and> 0 \<le> off \<and> off < reg_size r))"
  using match_bars_spec [OF assms, of addr io 0] by (auto simp: match_bar_def region_hits_def)

theorem match_bar_correct_witness:
  "match_bar 0x80000104 False ((base_function ())\<lparr>bar := [0x80000000, 0xC000000C, 0x1], bar_mask := [0xfffff000, 0xff000000, 0xffffffff]\<rparr>) =
     Inr [(0, 0x104)] \<and>
   match_bar 0x1C0000010 False ((base_function ())\<lparr>bar := [0x80000000, 0xC000000C, 0x1], bar_mask := [0xfffff000, 0xff000000, 0xffffffff]\<rparr>) =
     Inr [(1, 0x10)] \<and>
   match_bar 0x180000010 False ((base_function ())\<lparr>bar := [0x80000000, 0xC000000C, 0x1], bar_mask := [0xfffff000, 0xff000000, 0xffffffff]\<rparr>) =
     Inr [(0, 0x100000010)]"
proof -
  let ?f = "(base_function ())\<lparr>bar := [0x80000000, 0xC000000C, 0x1], bar_mask := [0xfffff000, 0xff000000, 0xffffffff]\<rparr>"
  have w: "0xfffff000 = win 32 12" "0xff000000 = win 32 24" "0xffffffff = (mask 32 :: int)"
    by (simp_all add: win_value mask_eq_exp_minus_1)
  have ok: "bars_ok (zip (bar ?f) (bar_mask ?f))"
    unfolding w by (simp add: win_nonzero) (intro conjI bexI [of _ 12] bexI [of _ 24], simp_all)
  have "region_hits False 0x80000104 (regions 0 (zip (bar ?f) (bar_mask ?f))) = [(0, 0x104)]"
    "region_hits False 0x1C0000010 (regions 0 (zip (bar ?f) (bar_mask ?f))) = [(1, 0x10)]"
    "region_hits False 0x180000010 (regions 0 (zip (bar ?f) (bar_mask ?f))) = [(0, 0x100000010)]" by code_simp+
  then show ?thesis using match_bar_correct [OF ok, THEN conjunct1, of _ False] by simp
qed

text \<open>Writing a register keeps the bits that its mask does not cover.\<close>

lemma masked_write:
  assumes "0 \<le> msk" "0 \<le> v" "v < 2 ^ 32" "\<And>n. bit m n \<Longrightarrow> n < 32"
  shows "0 \<le> byte_mask_update v msk d m" "byte_mask_update v msk d m < 2 ^ 32"
    "\<not> bit m n \<Longrightarrow> bit (byte_mask_update v msk d m) n = bit v n"
proof -
  have "\<not> bit v n" if "32 \<le> n" for n using assms(2,3) that by (intro bit_above_exp)
  then have "0 \<le> byte_mask_update v msk d m \<and> byte_mask_update v msk d m < 2 ^ 32"
    by (intro bits_range) (auto simp: bit_byte_mask_update [OF assms(1)] dest: assms(4))
  then show "0 \<le> byte_mask_update v msk d m" "byte_mask_update v msk d m < 2 ^ 32" by simp_all
  show "\<not> bit m n \<Longrightarrow> bit (byte_mask_update v msk d m) n = bit v n"
    by (simp add: bit_byte_mask_update [OF assms(1)])
qed

lemma bit_win: "bit (win w k) n \<longleftrightarrow> k \<le> n \<and> n < w"
  by (auto simp: win_def bit_ones)

text \<open>Pairs with the same mask and the same bits outside of it.\<close>

definition same_kind :: "int \<times> int \<Rightarrow> int \<times> int \<Rightarrow> bool" where
  "same_kind p p' \<longleftrightarrow> snd p' = snd p \<and>
     (0 \<le> fst p \<and> fst p < 2 ^ 32 \<longrightarrow> 0 \<le> fst p' \<and> fst p' < 2 ^ 32) \<and>
     (\<forall>n. \<not> bit (snd p) n \<longrightarrow> bit (fst p') n = bit (fst p) n)"

definition shape :: "region \<Rightarrow> nat \<times> bool \<times> nat \<times> int" where
  "shape r = (reg_idx r, reg_io r, reg_width r, reg_size r)"

lemma bars_ok_same_kind:
  assumes "list_all2 same_kind bs bs'" "bars_ok bs"
  shows "bars_ok bs' \<and> map shape (regions i bs') = map shape (regions i bs)"
  using assms
proof (induction bs arbitrary: bs' i rule: bars_ok.induct)
  case (2 v m)
  then obtain v' where "bs' = [(v', m)]" "same_kind (v, m) (v', m)"
    by (auto simp: list_all2_Cons1 same_kind_def)
  then show ?case using 2(2) by (auto simp: same_kind_def bit_win shape_def)
next
  case (3 v m v2 m2 rest)
  from 3(5) obtain p p2 rest' where p: "bs' = p # p2 # rest'" "same_kind (v, m) p" "same_kind (v2, m2) p2"
    "list_all2 same_kind rest rest'" unfolding list_all2_Cons1 by blast
  moreover obtain v' v2' where "p = (v', m)" "p2 = (v2', m2)"
    using p(2,3) by (cases p; cases p2) (simp add: same_kind_def)
  ultimately have bs': "bs' = (v', m) # (v2', m2) # rest'"
    and k: "same_kind (v, m) (v', m)" "same_kind (v2, m2) (v2', m2)" "list_all2 same_kind rest rest'" by simp_all
  then have tl: "list_all2 same_kind ((v2, m2) # rest) ((v2', m2) # rest')" by simp
  have v: "0 \<le> v'" "v' < 2 ^ 32" using k(1) 3(6) by (auto simp: same_kind_def)
  consider (none) "m = 0" "bars_ok ((v2, m2) # rest)"
    | (io) k where "m = win 32 k" "2 \<le> k" "k \<le> 31" "bit v 0" "bars_ok ((v2, m2) # rest)"
    | (ext) k where "m = win 32 k" "4 \<le> k" "k \<le> 31" "\<not> bit v 0" "bit v 2" "0 \<le> v2" "v2 < 2 ^ 32"
        "m2 = mask 32" "bars_ok rest"
    | (mem) k where "m = win 32 k" "4 \<le> k" "k \<le> 31" "\<not> bit v 0" "\<not> bit v 2" "bars_ok ((v2, m2) # rest)"
    using 3(6) by (auto split: if_splits)
  then show ?case
  proof cases
    case none
    then show ?thesis using 3(1) [OF none(1) tl] v bs' by simp
  next
    case (io k)
    then have m: "m \<noteq> 0" by (simp add: win_nonzero)
    have "bit v' 0" using k(1) io by (auto simp: same_kind_def bit_win)
    then show ?thesis using 3(2) [OF m io(4) tl io(5)] v bs' m io by (auto simp: shape_def)
  next
    case (ext k)
    then have m: "m \<noteq> 0" by (simp add: win_nonzero)
    have "\<not> bit v' 0" "bit v' 2" using k(1) ext by (auto simp: same_kind_def bit_win)
    moreover have "0 \<le> v2'" "v2' < 2 ^ 32" using k(2) ext by (auto simp: same_kind_def)
    ultimately show ?thesis using 3(3) [OF m ext(4,5) k(3) ext(9)] v bs' m ext by (auto simp: shape_def)
  next
    case (mem k)
    then have m: "m \<noteq> 0" by (simp add: win_nonzero)
    have "\<not> bit v' 0" "\<not> bit v' 2" using k(1) mem by (auto simp: same_kind_def bit_win)
    then show ?thesis using 3(4) [OF m mem(4,5) tl mem(6)] v bs' m mem by (auto simp: shape_def)
  qed
qed simp

lemma mask_below: "bars_ok bs \<Longrightarrow> p \<in> set bs \<Longrightarrow> bit (snd p) n \<Longrightarrow> n < 32"
  by (induction bs rule: bars_ok.induct) (auto simp: bit_win bit_mask_iff split: if_splits)

lemma same_kind_write:
  assumes "bars_ok bs" "j < length bs" "0 \<le> msk"
  shows "list_all2 same_kind bs (bs[j := (byte_mask_update (fst (bs ! j)) msk d (snd (bs ! j)), snd (bs ! j))])"
proof -
  have "same_kind (bs ! j) (byte_mask_update (fst (bs ! j)) msk d (snd (bs ! j)), snd (bs ! j))"
    using masked_write [OF assms(3), of "fst (bs ! j)" "snd (bs ! j)"] mask_below [OF assms(1) nth_mem [OF assms(2)]] assms(3)
    by (auto simp: same_kind_def bit_byte_mask_update)
  moreover have "same_kind p p" for p by (simp add: same_kind_def)
  ultimately show ?thesis using assms(2) by (simp add: list_all2_conv_all_nth nth_list_update)
qed

definition same_bars :: "'a pfunction_scheme \<Rightarrow> 'a pfunction_scheme \<Rightarrow> bool" where
  "same_bars f f' \<longleftrightarrow> bar f' = bar f \<and> bar_mask f' = bar_mask f \<and> capabilities f' = capabilities f"

lemma same_bars_call: "call_write h reg d msk f = Inr f' \<Longrightarrow> same_bars f f'"
  by (cases h) (auto simp: call_write_def same_bars_def)

lemma same_bars_list: "cl_write_register call_write cl reg d msk f = Inr f' \<Longrightarrow> same_bars f f'"
  by (auto simp: cl_write_register_def same_bars_call split: option.splits) (simp add: same_bars_def)

lemma same_bars_config: 
  assumes "write_config_register reg d msk f = Inr f'" shows "same_bars f f'"
proof -
  have "same_bars f (write_status_command d msk f)" "same_bars f (write_interrupt d msk f)" "same_bars f f"
    "same_bars f (f\<lparr>cache_ln := a, lat_timer := b, bist := c\<rparr>)" for a b c
    by (simp_all add: same_bars_def write_status_command_def write_interrupt_def)
  then show ?thesis using assms
    unfolding write_config_register_def write_capability_register_def write_extended_capability_register_def
    by (metis same_bars_list sum.inject(2))
qed

lemma write_bar_zip:
  assumes "write_bar k d msk f = Inr f'"
  shows "bar_mask f' = bar_mask f" "length (bar f') = length (bar f)"
    "zip (bar f') (bar_mask f') = (zip (bar f) (bar_mask f))
       [k := (byte_mask_update (fst (zip (bar f) (bar_mask f) ! k)) msk d (snd (zip (bar f) (bar_mask f) ! k)),
              snd (zip (bar f) (bar_mask f) ! k))]"
    "k < length (zip (bar f) (bar_mask f))"
proof -
  have k: "k < length (bar f)" "k < length (bar_mask f)"
    and f': "f' = f\<lparr>bar := (bar f)[k := byte_mask_update (bar f ! k) msk d (bar_mask f ! k)]\<rparr>"
    using assms by (auto simp: write_bar_def split: if_splits)
  show "bar_mask f' = bar_mask f" "length (bar f') = length (bar f)" using f' by simp_all
  show "k < length (zip (bar f) (bar_mask f))" using k by simp
  show "zip (bar f') (bar_mask f') = (zip (bar f) (bar_mask f))
       [k := (byte_mask_update (fst (zip (bar f) (bar_mask f) ! k)) msk d (snd (zip (bar f) (bar_mask f) ! k)),
              snd (zip (bar f) (bar_mask f) ! k))]"
    using k f' update_zip [of "bar f" "bar_mask f" k "(byte_mask_update (bar f ! k) msk d (bar_mask f ! k), bar_mask f ! k)"]
    by simp
qed

lemma regions_aligned: "bars_ok bs \<Longrightarrow> r \<in> set (regions i bs) \<Longrightarrow> reg_base r mod reg_size r = 0"
proof (induction i bs rule: regions.induct)
  case (2 i v m)
  then show ?case by (auto simp: and_win win_size split: if_splits)
next
  case (3 i v m v2 m2 rest)
  then show ?case by (auto simp: and_win win_size win_64 split: if_splits)
qed simp

text \<open>C18. Under every configuration write, well-formed base address registers stay well-formed: no window changes its kind or
  size, and every base stays a multiple of the size of its window. A write reaches one register only, and in it exactly the bits
  that the mask of the register lets through, in the bytes that are enabled: the type bits and the bits below the
  window keep their values, so the register reads back as an aligned base.\<close>

theorem config_write_keeps_bars:
  assumes "bars_ok (zip (bar f) (bar_mask f))" and "0 \<le> msk"
    and "ep_write_config_register reg d msk f = Inr f'"
  shows "bars_ok (zip (bar f') (bar_mask f')) \<and> bar_mask f' = bar_mask f \<and>
     map shape (regions 0 (zip (bar f') (bar_mask f'))) = map shape (regions 0 (zip (bar f) (bar_mask f))) \<and>
     (\<forall>r \<in> set (regions 0 (zip (bar f') (bar_mask f'))). reg_base r mod reg_size r = 0) \<and>
     (\<forall>i < length (bar f). \<forall>n. bit (bar f' ! i) n =
        (if reg = 4 + int i \<and> reg \<le> 9 \<and> bit (bar_mask f ! i) n \<and> bit msk (n div 8) then bit d n else bit (bar f ! i) n))"
proof (cases "4 \<le> reg \<and> reg \<le> 9")
  case True
  then have w: "write_bar (nat (reg - 4)) d msk f = Inr f'" using assms(3) by (simp add: ep_write_config_register_def)
  have ok: "bars_ok (zip (bar f') (bar_mask f')) \<and>
      map shape (regions 0 (zip (bar f') (bar_mask f'))) = map shape (regions 0 (zip (bar f) (bar_mask f)))"
    using bars_ok_same_kind [OF same_kind_write [OF assms(1) write_bar_zip(4) [OF w] assms(2)] assms(1)]
      write_bar_zip [OF w] by simp
  have "bit (bar f' ! i) n =
      (if reg = 4 + int i \<and> reg \<le> 9 \<and> bit (bar_mask f ! i) n \<and> bit msk (n div 8) then bit d n else bit (bar f ! i) n)"
    if "i < length (bar f)" for i n
    using w True that by (auto simp: write_bar_def nth_list_update bit_byte_mask_update [OF assms(2)] split: if_splits)
  then show ?thesis using ok regions_aligned write_bar_zip(1) [OF w] by blast
next
  case False
  have "same_bars f f'"
  proof (cases "reg = 12 \<or> reg = 15")
    case True
    then show ?thesis using False assms(3)
      by (auto simp: ep_write_config_register_def same_bars_def write_interrupt_def)
  next
    case other: False
    then show ?thesis using False assms(3) same_bars_config by (auto simp: ep_write_config_register_def)
  qed
  then show ?thesis using assms(1) False regions_aligned [OF assms(1)] by (auto simp: same_bars_def)
qed

theorem config_write_keeps_bars_witness:
  "\<exists>f'. ep_write_config_register 4 0xabcdef01 0xf (base_endpoint\<lparr>bar := [8], bar_mask := [0xfffff000]\<rparr>) = Inr f' \<and>
     bars_ok (zip (bar f') (bar_mask f')) \<and> bit (bar f' ! 0) 3 \<and> \<not> bit (bar f' ! 0) 0 \<and> bit (bar f' ! 0) 14"
proof -
  let ?f = "base_endpoint\<lparr>bar := [8], bar_mask := [0xfffff000]\<rparr>"
  have w: "0xfffff000 = win 32 12" by (simp add: win_value)
  have ok: "bars_ok (zip (bar ?f) (bar_mask ?f))" unfolding w by simp (rule disjI2, rule bexI [of _ 12], simp_all)
  obtain f' where f': "ep_write_config_register 4 0xabcdef01 0xf ?f = Inr f'"
    by (simp add: ep_write_config_register_def write_bar_def)
  have m: "(0 :: int) \<le> 0xf" by simp
  note c = config_write_keeps_bars [OF ok m f']
  have b: "bit (bar f' ! 0) n =
      (if bit (0xfffff000 :: int) n \<and> bit (0xf :: int) (n div 8) then bit (0xabcdef01 :: int) n else bit (8 :: int) n)" for n
    using c by simp
  have "bit (bar f' ! 0) 3 \<and> \<not> bit (bar f' ! 0) 0 \<and> bit (bar f' ! 0) 14" unfolding b by code_simp
  then show ?thesis using f' c by blast
qed






end
