(* ===== verification/PCIE_ConfigSpace.thy ===== *)
theory PCIE_ConfigSpace
  imports PCIE_Function_Correct
begin

text \<open>
  The configuration space of an UltraScale function as a register file: the header, the base
  address registers and the registers of its four capabilities, routed through the capability
  list to the capability classes.
\<close>

section \<open>Layout\<close>

definition cap_summary :: "'a pfunction_scheme \<Rightarrow> (int \<times> int option \<times> int option \<times> int option) list" where
  "cap_summary f = map (\<lambda>c. (cap_id c, cap_offset c, cap_length c, next_cap c)) (cl_list (capabilities f))"

text \<open>The constructors of the two UltraScale models evaluated: their four capabilities end up at the offsets asked for,
  although the registrations displace each other on the way.\<close>

lemma us_function_layout:
  "(case UltrascalePCIeFunction of
      Inl e \<Rightarrow> False
    | Inr f \<Rightarrow> cap_ptr f = 0x80 \<and> cap_summary f =
        [(PM_CAP_ID, Some 0x20, Some 2, Some 0x90), (MSI_CAP_ID, Some 0x24, Some 6, Some 0xb0),
         (MSIX_CAP_ID, Some 0x2c, Some 3, Some 0xc0), (PCIE_CAP_ID, Some 0x30, Some 15, Some 0)]) \<and>
   (case UltrascalePlusPCIeFunction of
      Inl e \<Rightarrow> False
    | Inr f \<Rightarrow> cap_ptr f = 0x40 \<and> cap_summary f =
        [(PM_CAP_ID, Some 0x10, Some 2, Some 0x48), (MSI_CAP_ID, Some 0x12, Some 6, Some 0x60),
         (MSIX_CAP_ID, Some 0x18, Some 3, Some 0x70), (PCIE_CAP_ID, Some 0x1c, Some 15, Some 0)])"
  by code_simp

section \<open>Reads\<close>

definition us_caps :: "cap_handler cap_list" where
  "us_caps = PcieCapList\<lparr>cl_list :=
     [\<lparr>cap_id = 0x01, cap_ver = Some 0, cap_length = Some 2, cap_read = Some PMHandler,
       cap_write = Some PMHandler, cap_offset = Some 0x20, next_cap = Some 0x90\<rparr>,
      \<lparr>cap_id = 0x05, cap_ver = Some 0, cap_length = Some 6, cap_read = Some MSIHandler,
       cap_write = Some MSIHandler, cap_offset = Some 0x24, next_cap = Some 0xb0\<rparr>,
      \<lparr>cap_id = 0x11, cap_ver = Some 0, cap_length = Some 3, cap_read = Some MSIXHandler,
       cap_write = Some MSIXHandler, cap_offset = Some 0x2c, next_cap = Some 0xc0\<rparr>,
      \<lparr>cap_id = 0x10, cap_ver = Some 0, cap_length = Some 15, cap_read = Some PCIEHandler,
       cap_write = Some PCIEHandler, cap_offset = Some 0x30, next_cap = Some 0\<rparr>]\<rparr>"

lemma us_function_caps:
  "case UltrascalePCIeFunction of Inl e \<Rightarrow> False | Inr f \<Rightarrow> capabilities f = us_caps"
  by code_simp

definition us_find :: "int \<Rightarrow> (cap_handler \<times> int) option" where
  "us_find r =
     (if 0x20 \<le> r \<and> r < 0x22 then Some (PMHandler, r - 0x20)
      else if 0x24 \<le> r \<and> r < 0x2a then Some (MSIHandler, r - 0x24)
      else if 0x2c \<le> r \<and> r < 0x2f then Some (MSIXHandler, r - 0x2c)
      else if 0x30 \<le> r \<and> r < 0x3f then Some (PCIEHandler, r - 0x30)
      else None)"

text \<open>The identifier and the link in the first register of a capability.\<close>

definition us_link :: "int \<Rightarrow> int option \<Rightarrow> int option" where
  "us_link r v =
     (if r = 0x20 then map_option (\<lambda>v. (v AND 0xffff0000) OR 0x9001) v
      else if r = 0x24 then map_option (\<lambda>v. (v AND 0xffff0000) OR 0xb005) v
      else if r = 0x2c then map_option (\<lambda>v. (v AND 0xffff0000) OR 0xc011) v
      else if r = 0x30 then map_option (\<lambda>v. (v AND 0xffff0000) OR 0x0010) v
      else v)"

definition cfg_rd :: "'a endpoint_scheme \<Rightarrow> int \<Rightarrow> int option" where
  "cfg_rd f r = (case ep_read_config_register f r of Inr v \<Rightarrow> v | Inl e \<Rightarrow> None)"

definition handler_rd :: "'a pfunction_scheme \<Rightarrow> cap_handler \<Rightarrow> int \<Rightarrow> int option" where
  "handler_rd f h k = (case call_read f h k of Inr v \<Rightarrow> v | Inl e \<Rightarrow> None)"

lemma call_read_Inr: "call_read f h k = Inr (handler_rd f h k)"
  by (cases h) (simp_all add: call_read_def handler_rd_def)

lemma us_read_capability:
  assumes "capabilities f = us_caps"
  shows "(case read_capability_register f r of Inr v \<Rightarrow> v | Inl e \<Rightarrow> None) =
     (case us_find r of None \<Rightarrow> Some 0 | Some (h, k) \<Rightarrow> us_link r (handler_rd f h k))"
  by (cases "handler_rd f PMHandler 0"; cases "handler_rd f MSIHandler 0"; cases "handler_rd f MSIXHandler 0"; cases "handler_rd f PCIEHandler 0")
     (simp_all add: read_capability_register_def assms us_caps_def cl_read_register_def find_by_reg_def
      cap_covers_def us_find_def us_link_def cap_read_register_def call_read_Inr PcieCapList_def)

section \<open>Writes\<close>

definition is_u8 :: "int \<Rightarrow> bool" where "is_u8 x \<longleftrightarrow> 0 \<le> x \<and> x < 256"

text \<open>The states of such a function, for fixed masks of its base address registers.\<close>

definition us_ok :: "int list \<Rightarrow> endpoint \<Rightarrow> bool" where
  "us_ok bm f \<longleftrightarrow> capabilities f = us_caps \<and> ext_capabilities f = PcieExtCapList \<and>
     pcie_idle (pcie f) \<and> msi_opts True False (msi f) \<and>
     length (bar f) = 6 \<and> bar_mask f = bm \<and> length bm = 6 \<and>
     is_u8 (cache_ln f) \<and> is_u8 (lat_timer f) \<and> is_u8 (header_type f) \<and> is_u8 (bist f) \<and>
     is_u8 (intr_line f) \<and> is_u8 (intr_pin f)"

definition us_rw :: "int list \<Rightarrow> int \<Rightarrow> int" where
  "us_rw bm r =
     (if r = 1 then 0x544 else if r = 3 then 0xff00ffff
      else if 4 \<le> r \<and> r \<le> 9 then bm ! nat (r - 4)
      else if r = 12 then 0xffffffff else if r = 15 then 0xffff
      else case us_find r of
             Some (MSIHandler, k) \<Rightarrow> msi_rw True False k
           | Some (MSIXHandler, k) \<Rightarrow> msix_rw k
           | Some (PCIEHandler, k) \<Rightarrow> pcie_rw k
           | _ \<Rightarrow> 0)"

definition us_w1c :: "int \<Rightarrow> int" where
  "us_w1c r =
     (if r = 1 then 0xf9000000
      else case us_find r of Some (PCIEHandler, k) \<Rightarrow> pcie_w1c k | _ \<Rightarrow> 0)"

lemma u8_bits: "is_u8 x \<Longrightarrow> 8 \<le> n \<Longrightarrow> \<not> bit x n"
  using bit_above_exp [of x 8 n] by (simp add: is_u8_def)

lemma u8_lane:
  assumes "is_u8 x" "0 \<le> msk"
  shows "is_u8 (byte_mask_update1 x (msk AND 1) d)"
    "bit (byte_mask_update1 x (msk AND 1) d) n \<longleftrightarrow> (if n < 8 \<and> bit msk 0 then bit d n else bit x n)"
proof -
  show b: "bit (byte_mask_update1 x (msk AND 1) d) n \<longleftrightarrow> (if n < 8 \<and> bit msk 0 then bit d n else bit x n)" for n
    using assms(2) by (auto simp: bit_byte_mask_update bit_and_iff bit_1_iff)
  have "0 \<le> byte_mask_update1 x (msk AND 1) d \<and> byte_mask_update1 x (msk AND 1) d < 2 ^ 8"
    by (rule bits_range) (use u8_bits [OF assms(1)] in \<open>simp add: b\<close>)
  then show "is_u8 (byte_mask_update1 x (msk AND 1) d)" by (simp add: is_u8_def)
qed

lemma status_command_csr:
  assumes "0 \<le> msk"
  shows "read_status_command (write_status_command d msk f) =
     csr_update 0x544 0xf9000000 (read_status_command f) d msk"
proof -
  have w: "take_bit 32 (read_status_command f) = read_status_command f" for f :: "'a pfunction_scheme"
    by (rule take_32I) (simp add: read_status_command_def field_bits)
  show ?thesis
    by (rule csr_eqI [OF assms _ _ w w]; (erule lane_cases)?; simp add: bit_after_def read_status_command_def field_bits;
        simp add: write_status_command_def write_bits)
qed

text \<open>Registers made of bytes.\<close>

definition four :: "int \<Rightarrow> int \<Rightarrow> int \<Rightarrow> int \<Rightarrow> int" where
  "four a b c d = push_bit 24 a OR push_bit 16 b OR push_bit 8 c OR d"

lemma bit_four:
  assumes "is_u8 a" "is_u8 b" "is_u8 c" "is_u8 d"
  shows "bit (four a b c d) n \<longleftrightarrow>
     (if n < 8 then bit d n else if n < 16 then bit c (n - 8) else if n < 24 then bit b (n - 16)
      else bit a (n - 24))"
  using assms by (auto simp: four_def bit_or_iff bit_push_bit_iff u8_bits)

lemma four_csr:
  assumes u: "is_u8 a" "is_u8 b" "is_u8 c" "is_u8 e" and m: "0 \<le> msk"
  shows "four (byte_mask_update1 a (drop_bit 3 msk AND 1) (drop_bit 24 d)) b
       (byte_mask_update1 c (drop_bit 1 msk AND 1) (drop_bit 8 d)) (byte_mask_update1 e (msk AND 1) d) =
     csr_update 0xff00ffff 0 (four a b c e) d msk"
    "four a b (byte_mask_update1 c (drop_bit 1 msk AND 1) (drop_bit 8 d)) (byte_mask_update1 e (msk AND 1) d) =
     csr_update 0xffff 0 (four a b c e) d msk"
proof -
  have s: "0 \<le> drop_bit 1 msk" "0 \<le> drop_bit 3 msk" using m by simp_all
  note l = u8_lane [OF u(1) s(2)] u8_lane [OF u(3) s(1), simplified] u8_lane [OF u(4) m]
  have rw: "bit (0xff00ffff :: int) n \<longleftrightarrow> n < 16 \<or> 24 \<le> n \<and> n < 32" for n
  proof -
    have "(0xff00ffff :: int) = push_bit 24 (mask 8) OR mask 16" by (simp add: mask_eq_exp_minus_1 push_bit_eq_mult)
    then show ?thesis by (simp only: bit_or_iff bit_ones bit_mask_iff) auto
  qed
  have d: "n div 8 = 0 \<longleftrightarrow> n < 8" "8 \<le> n \<Longrightarrow> n < 16 \<Longrightarrow> n div 8 = 1" "24 \<le> n \<Longrightarrow> n < 32 \<Longrightarrow> n div 8 = 3" for n :: nat
    by auto
  show "four (byte_mask_update1 a (drop_bit 3 msk AND 1) (drop_bit 24 d)) b
       (byte_mask_update1 c (drop_bit 1 msk AND 1) (drop_bit 8 d)) (byte_mask_update1 e (msk AND 1) d) =
     csr_update 0xff00ffff 0 (four a b c e) d msk"
    by (rule csr_plain [OF m])
       (use u in \<open>auto simp: bit_four l rw d bit_drop_bit_eq split: if_splits\<close>)
  show "four a b (byte_mask_update1 c (drop_bit 1 msk AND 1) (drop_bit 8 d)) (byte_mask_update1 e (msk AND 1) d) =
     csr_update 0xffff 0 (four a b c e) d msk"
    by (rule csr_plain [OF m])
       (use u in \<open>auto simp: bit_four l bit_numeral_ones d bit_drop_bit_eq split: if_splits\<close>)
qed

lemma cfg_rd_us:
  assumes "us_ok bm f"
  shows "cfg_rd f r =
     (if r = 0 then Some (push_bit 16 (device_id f) OR vendor_id f)
      else if r = 1 then Some (read_status_command f)
      else if r = 2 then Some (push_bit 8 (class_code f) OR rev_id f)
      else if r = 3 then Some (four (bist f) (header_type f) (lat_timer f) (cache_ln f))
      else if 4 \<le> r \<and> r \<le> 9 then Some (bar f ! nat (r - 4))
      else if r = 10 then Some (cardbus_cis f)
      else if r = 11 then Some (push_bit 16 (subsystem_id f) OR subsystem_vendor_id f)
      else if r = 12 then Some (expansion_rom_addr f)
      else if r = 13 then Some (cap_ptr f)
      else if r = 15 then Some (four 0 0 (intr_pin f) (intr_line f))
      else case us_find r of None \<Rightarrow> Some 0 | Some (h, k) \<Rightarrow> us_link r (handler_rd f h k))"
proof -
  have c: "capabilities f = us_caps" "ext_capabilities f = PcieExtCapList" "length (bar f) = 6"
    using assms by (simp_all add: us_ok_def)
  have none: "us_find r = None" if "r < 16 \<or> 256 \<le> r" using that by (auto simp: us_find_def)
  have ext: "read_extended_capability_register f r = Inr (Some 0)"
    by (simp add: read_extended_capability_register_def c PcieExtCapList_def cl_read_register_def find_by_reg_def)
  consider "r < 16" | "16 \<le> r" "r < 256" | "256 \<le> r" by linarith
  then show ?thesis
  proof cases
    case 1
    then show ?thesis
      by (auto simp: cfg_rd_def ep_read_config_register_def read_config_register_def read_bar_def c none four_def)
  next
    case 2
    then show ?thesis using us_read_capability [OF c(1), of r]
      by (simp add: cfg_rd_def ep_read_config_register_def read_config_register_def)
  next
    case 3
    then show ?thesis
      by (simp add: cfg_rd_def ep_read_config_register_def read_config_register_def ext none)
  qed
qed

lemma us_write_capability:
  assumes "capabilities f = us_caps"
  shows "write_capability_register r d msk f =
     (case us_find r of None \<Rightarrow> Inr f | Some (h, k) \<Rightarrow> call_write h k d msk f)"
  by (simp add: write_capability_register_def assms us_caps_def cl_write_register_def find_by_reg_def
      cap_covers_def us_find_def PcieCapList_def)

definition cap_rw :: "cap_handler \<Rightarrow> int \<Rightarrow> int" where
  "cap_rw h k = (case h of PMHandler \<Rightarrow> 0 | PCIEHandler \<Rightarrow> pcie_rw k
     | MSIHandler \<Rightarrow> msi_rw True False k | MSIXHandler \<Rightarrow> msix_rw k)"

definition cap_w1c :: "cap_handler \<Rightarrow> int \<Rightarrow> int" where
  "cap_w1c h k = (case h of PCIEHandler \<Rightarrow> pcie_w1c k | _ \<Rightarrow> 0)"

text \<open>Writing through a capability changes one register of one capability and no other attribute.\<close>

lemma cap_law:
  assumes "us_ok bm f" "0 \<le> msk" "msk < 16" "h = PCIEHandler \<Longrightarrow> k \<noteq> 4"
  shows "\<exists>f'. call_write h k d msk f = Inr f' \<and> us_ok bm f' \<and>
     f' = f\<lparr>pm := pm f', pcie := pcie f', msi := msi f', msix := msix f'\<rparr> \<and>
     (\<forall>h' k'. handler_rd f' h' k' =
       (if h' = h \<and> k' = k then map_option (\<lambda>v. csr_update (cap_rw h k) (cap_w1c h k) v d msk) (handler_rd f h' k')
        else handler_rd f h' k'))"
proof (cases h)
  case PMHandler
  then show ?thesis using assms
    by (auto simp: call_write_def write_pm_cap_register_def cap_rw_def cap_w1c_def csr_update_none option.map_ident)
next
  case PCIEHandler
  have "pcie_idle (pcie f)" using assms(1) by (simp add: us_ok_def)
  from pcie_wr_law [OF this _ assms(2), of k d] obtain p' where
    p': "write_pcie_cap_register k d msk (pcie f) = Inr p'" "pcie_idle p'"
    "\<forall>r. read_pcie_cap_register p' r = (if r = k then csr_update (pcie_rw r) (pcie_w1c r) (read_pcie_cap_register (pcie f) r) d msk
        else read_pcie_cap_register (pcie f) r)" using assms(4) PCIEHandler by blast
  have "handler_rd (f\<lparr>pcie := p'\<rparr>) h' k' =
       (if h' = h \<and> k' = k then map_option (\<lambda>v. csr_update (cap_rw h k) (cap_w1c h k) v d msk) (handler_rd f h' k')
        else handler_rd f h' k')" for h' k'
    using p'(3) PCIEHandler by (cases h') (simp_all add: handler_rd_def call_read_def cap_rw_def cap_w1c_def)
  moreover have "us_ok bm (f\<lparr>pcie := p'\<rparr>)" using assms(1) p'(2) by (simp add: us_ok_def)
  ultimately show ?thesis using p'(1) PCIEHandler by (simp add: call_write_def)
next
  case MSIHandler
  have o: "msi_opts True False (msi f)" using assms(1) by (simp add: us_ok_def)
  note l = msi_wr_law [OF o assms(2,3), of k d]
  have "handler_rd (f\<lparr>msi := write_msi_cap_register k d msk (msi f)\<rparr>) h' k' =
       (if h' = h \<and> k' = k then map_option (\<lambda>v. csr_update (cap_rw h k) (cap_w1c h k) v d msk) (handler_rd f h' k')
        else handler_rd f h' k')" for h' k'
    using l(2) MSIHandler by (cases h') (simp_all add: handler_rd_def call_read_def cap_rw_def cap_w1c_def)
  moreover have "us_ok bm (f\<lparr>msi := write_msi_cap_register k d msk (msi f)\<rparr>)"
    using assms(1) l(1) by (simp add: us_ok_def)
  ultimately show ?thesis using MSIHandler by (simp add: call_write_def)
next
  case MSIXHandler
  note l = msix_wr_law [OF assms(2), of k d "msix f"]
  have "handler_rd (f\<lparr>msix := write_msix_cap_register k d msk (msix f)\<rparr>) h' k' =
       (if h' = h \<and> k' = k then map_option (\<lambda>v. csr_update (cap_rw h k) (cap_w1c h k) v d msk) (handler_rd f h' k')
        else handler_rd f h' k')" for h' k'
    using l MSIXHandler by (cases h') (simp_all add: handler_rd_def call_read_def cap_rw_def cap_w1c_def)
  moreover have "us_ok bm (f\<lparr>msix := write_msix_cap_register k d msk (msix f)\<rparr>)"
    using assms(1) by (simp add: us_ok_def)
  ultimately show ?thesis using MSIXHandler by (simp add: call_write_def)
qed

lemma csr_link:
  assumes "0 \<le> msk" "\<And>n. bit rw n \<Longrightarrow> 16 \<le> n \<and> n < 32" "0 \<le> c" "c < 2 ^ 16"
  shows "csr_update rw 0 ((v AND 0xffff0000) OR c) d msk = (csr_update rw 0 v d msk AND 0xffff0000) OR c"
proof (rule bit_eqI)
  fix n
  have "(0xffff0000 :: int) = push_bit 16 (mask 16)" by (simp add: mask_eq_exp_minus_1 push_bit_eq_mult)
  then have m: "bit (0xffff0000 :: int) n \<longleftrightarrow> 16 \<le> n \<and> n < 32" by (simp only: bit_ones) simp
  have c: "16 \<le> n \<Longrightarrow> \<not> bit c n" using assms(3,4) by (intro bit_above_exp)
  show "bit (csr_update rw 0 ((v AND 0xffff0000) OR c) d msk) n =
      bit ((csr_update rw 0 v d msk AND 0xffff0000) OR c) n"
    using assms(2) [of n] c by (auto simp: bit_csr_update [OF assms(1)] bit_or_iff bit_and_iff m)
qed

lemma us_link_csr:
  assumes "us_find r = Some (h, k)" "0 \<le> msk"
  shows "us_link r (map_option (\<lambda>v. csr_update (cap_rw h k) (cap_w1c h k) v d msk) v) =
     map_option (\<lambda>v. csr_update (cap_rw h k) (cap_w1c h k) v d msk) (us_link r v)"
proof (cases "r \<in> {0x20, 0x24, 0x2c, 0x30}")
  case True
  have b: "bit x n \<Longrightarrow> 16 \<le> n \<and> n < 32" if "x = push_bit 16 y" "0 \<le> x" "x < 2 ^ 32" for x y :: int and n
    using that bit_above_exp [OF that(2,3), of n] linorder_not_less [of n 32] by (auto simp: bit_push_bit_iff)
  have b: "bit (0x710000 :: int) n \<Longrightarrow> 16 \<le> n \<and> n < 32" "bit (0xc0000000 :: int) n \<Longrightarrow> 16 \<le> n \<and> n < 32" for n
    by (rule b [of _ "0x71"], simp_all add: push_bit_eq_mult) (rule b [of _ "0xc000"], simp_all add: push_bit_eq_mult)
  from True assms(1) have "cap_w1c h k = 0" "k = 0" "cap_rw h k = 0 \<or> cap_rw h k = 0x710000 \<or> cap_rw h k = 0xc0000000"
    by (auto simp: us_find_def cap_w1c_def cap_rw_def pcie_rw_def pcie_w1c_def msi_rw_def msix_rw_def)
  then show ?thesis using True
    by (cases v) (auto simp: us_link_def csr_link [OF assms(2)] b csr_update_none assms(2))
qed (auto simp: us_link_def)

lemma us_find_inj: "us_find r = Some x \<Longrightarrow> us_find r' = Some x \<Longrightarrow> r = r'"
  by (auto simp: us_find_def split: if_splits)

lemma us_rw_cap: "us_find r = Some (h, k) \<Longrightarrow> us_rw bm r = cap_rw h k \<and> us_w1c r = cap_w1c h k"
  by (cases h) (auto simp: us_rw_def us_w1c_def cap_rw_def cap_w1c_def us_find_def split: if_splits)

lemma us_cap_law:
  assumes ok: "us_ok bm f" and r: "us_find reg = Some (h, k)" "reg \<noteq> 0x34" and m: "0 \<le> msk" "msk < 16"
  shows "\<exists>f'. ep_write_config_register reg d msk f = Inr f' \<and> us_ok bm f' \<and>
     (\<forall>r. cfg_rd f' r = (if r = reg then map_option (\<lambda>v. csr_update (us_rw bm r) (us_w1c r) v d msk) (cfg_rd f r)
                         else cfg_rd f r))"
proof -
  have k: "h = PCIEHandler \<Longrightarrow> k \<noteq> 4" and reg: "16 \<le> reg" "reg < 256"
    using r by (auto simp: us_find_def split: if_splits)
  from cap_law [OF ok m k, of h d] obtain f' where f': "call_write h k d msk f = Inr f'" "us_ok bm f'"
    "f' = f\<lparr>pm := pm f', pcie := pcie f', msi := msi f', msix := msix f'\<rparr>"
    "\<And>h' k'. handler_rd f' h' k' =
       (if h' = h \<and> k' = k then map_option (\<lambda>v. csr_update (cap_rw h k) (cap_w1c h k) v d msk) (handler_rd f h' k')
        else handler_rd f h' k')" by blast
  have c: "capabilities f = us_caps" using ok by (simp add: us_ok_def)
  have w: "ep_write_config_register reg d msk f = Inr f'"
    using reg r(1) f'(1) us_write_capability [OF c] by (simp add: ep_write_config_register_def write_config_register_def)
  have hdr: "cfg_rd f' r = cfg_rd f r" if "us_find r = None" for r
    unfolding cfg_rd_us [OF f'(2)] cfg_rd_us [OF ok] that
    by (subst (1 2 3 4 5 6 7 8 9 10 11 12 13 14 15 16 17 18) f'(3)) (simp add: read_status_command_def)
  have "cfg_rd f' r = (if r = reg then map_option (\<lambda>v. csr_update (us_rw bm r) (us_w1c r) v d msk) (cfg_rd f r)
                         else cfg_rd f r)" for r
  proof (cases "us_find r")
    case None
    then show ?thesis using hdr r(1) by auto
  next
    case (Some x)
    obtain h' k' where x: "x = (h', k')" by (cases x)
    have big: "16 \<le> r" using Some by (auto simp: us_find_def split: if_splits)
    have e: "cfg_rd f' r = us_link r (handler_rd f' h' k')" "cfg_rd f r = us_link r (handler_rd f h' k')"
      using Some x big by (simp_all add: cfg_rd_us [OF f'(2)] cfg_rd_us [OF ok])
    show ?thesis
    proof (cases "r = reg")
      case True
      then have "h' = h" "k' = k" using Some x r(1) by auto
      then show ?thesis using e f'(4) [of h k] us_link_csr [OF r(1) m(1)] us_rw_cap [OF r(1)] True by simp
    next
      case False
      then have "\<not> (h' = h \<and> k' = k)" using us_find_inj [OF r(1)] Some x by auto
      then have "handler_rd f' h' k' = handler_rd f h' k'" by (simp only: f'(4) if_False)
      then show ?thesis using e False by simp
    qed
  qed
  then show ?thesis using w f'(2) by blast
qed

text \<open>A write that changes only header attributes is seen in its own register.\<close>

lemma header_case:
  assumes ok: "us_ok bm f" and ok': "us_ok bm f'" and w: "ep_write_config_register reg d msk f = Inr f'"
    and caps: "pm f' = pm f" "pcie f' = pcie f" "msi f' = msi f" "msix f' = msix f"
    and same: "\<And>r. r \<noteq> reg \<Longrightarrow> us_find r = None \<Longrightarrow> cfg_rd f' r = cfg_rd f r"
    and upd: "cfg_rd f' reg = map_option (\<lambda>v. csr_update (us_rw bm reg) (us_w1c reg) v d msk) (cfg_rd f reg)"
  shows "\<exists>f'. ep_write_config_register reg d msk f = Inr f' \<and> us_ok bm f' \<and>
     (\<forall>r. cfg_rd f' r = (if r = reg then map_option (\<lambda>v. csr_update (us_rw bm r) (us_w1c r) v d msk) (cfg_rd f r)
                         else cfg_rd f r))"
proof -
  have "cfg_rd f' r = cfg_rd f r" if "r \<noteq> reg" for r
  proof (cases "us_find r")
    case (Some x)
    then have "16 \<le> r" by (auto simp: us_find_def split: if_splits)
    moreover have "handler_rd f' h k = handler_rd f h k" for h k by (cases h) (simp_all add: handler_rd_def call_read_def caps)
    ultimately show ?thesis using Some by (simp add: cfg_rd_us [OF ok] cfg_rd_us [OF ok'])
  qed (use same that in simp)
  then show ?thesis using w ok' upd by auto
qed

lemma write_status_keeps:
  shows "capabilities (write_status_command d msk f) = capabilities f"
    "ext_capabilities (write_status_command d msk f) = ext_capabilities f"
    "vendor_id (write_status_command d msk f) = vendor_id f"
    "device_id (write_status_command d msk f) = device_id f"
    "rev_id (write_status_command d msk f) = rev_id f"
    "class_code (write_status_command d msk f) = class_code f"
    "cache_ln (write_status_command d msk f) = cache_ln f"
    "lat_timer (write_status_command d msk f) = lat_timer f"
    "header_type (write_status_command d msk f) = header_type f"
    "bist (write_status_command d msk f) = bist f"
    "bar (write_status_command d msk f) = bar f"
    "bar_mask (write_status_command d msk f) = bar_mask f"
    "expansion_rom_addr (write_status_command d msk f) = expansion_rom_addr f"
    "cap_ptr (write_status_command d msk f) = cap_ptr f"
    "intr_pin (write_status_command d msk f) = intr_pin f"
    "intr_line (write_status_command d msk f) = intr_line f"
    "pm (write_status_command d msk f) = pm f"
    "pcie (write_status_command d msk f) = pcie f"
    "msi (write_status_command d msk f) = msi f"
    "msix (write_status_command d msk f) = msix f"
    "pfunction.more (write_status_command d msk f) = pfunction.more f"
  by (simp_all add: write_status_command_def)

lemma write_status_keeps_endpoint:
  fixes f :: endpoint
  shows "subsystem_id (write_status_command d msk f) = subsystem_id f"
    "subsystem_vendor_id (write_status_command d msk f) = subsystem_vendor_id f"
    "cardbus_cis (write_status_command d msk f) = cardbus_cis f"
  by (simp_all add: write_status_command_def)

lemma us_header_law:
  assumes ok: "us_ok bm f" and r: "us_find reg = None" and m: "0 \<le> msk" "msk < 16"
  shows "\<exists>f'. ep_write_config_register reg d msk f = Inr f' \<and> us_ok bm f' \<and>
     (\<forall>r. cfg_rd f' r = (if r = reg then map_option (\<lambda>v. csr_update (us_rw bm r) (us_w1c r) v d msk) (cfg_rd f r)
                         else cfg_rd f r))"
proof -
  have u: "is_u8 (bist f)" "is_u8 (header_type f)" "is_u8 (lat_timer f)" "is_u8 (cache_ln f)"
    "is_u8 (intr_pin f)" "is_u8 (intr_line f)" "is_u8 0" "length (bar f) = 6" "bar_mask f = bm" "length bm = 6"
    and caps: "capabilities f = us_caps" "ext_capabilities f = PcieExtCapList"
    using ok by (simp_all add: us_ok_def is_u8_def)
  have s: "0 \<le> drop_bit 1 msk" "0 \<le> drop_bit 3 msk" using m by simp_all
  note lanes8 = u8_lane(1) [OF u(4) m(1)] u8_lane(1) [OF u(3) s(1)] u8_lane(1) [OF u(1) s(2)]
    u8_lane(1) [OF u(6) m(1)] u8_lane(1) [OF u(5) s(1)]
  note w = ep_write_config_register_def write_config_register_def
  consider (status) "reg = 1" | (line) "reg = 3" | (bars) "4 \<le> reg" "reg \<le> 9" | (rom) "reg = 12" | (intr) "reg = 15"
    | (other) "reg \<notin> {1, 3, 12, 15}" "\<not> (4 \<le> reg \<and> reg \<le> 9)" by auto
  then show ?thesis
  proof cases
    case status
    let ?f = "write_status_command d msk f"
    have ok': "us_ok bm ?f" using ok by (simp add: us_ok_def write_status_keeps)
    show ?thesis
    proof (rule header_case [OF ok ok'])
      show "cfg_rd ?f reg = map_option (\<lambda>v. csr_update (us_rw bm reg) (us_w1c reg) v d msk) (cfg_rd f reg)"
        using status by (simp add: cfg_rd_us [OF ok] cfg_rd_us [OF ok'] status_command_csr m us_rw_def us_w1c_def)
      show "cfg_rd ?f r = cfg_rd f r" if "r \<noteq> reg" "us_find r = None" for r
        using that status by (simp add: cfg_rd_us [OF ok] cfg_rd_us [OF ok'] write_status_keeps write_status_keeps_endpoint)
    qed (use status r in \<open>simp_all add: w write_status_keeps\<close>)
  next
    case line
    let ?f = "f\<lparr>cache_ln := byte_mask_update1 (cache_ln f) (msk AND 1) d,
      lat_timer := byte_mask_update1 (lat_timer f) (drop_bit (Suc 0) msk AND 1) (drop_bit 8 d),
      bist := byte_mask_update1 (bist f) (drop_bit 3 msk AND 1) (drop_bit 24 d)\<rparr>"
    have ok': "us_ok bm ?f" using ok lanes8 by (simp add: us_ok_def)
    show ?thesis
    proof (rule header_case [OF ok ok'])
      show "cfg_rd ?f reg = map_option (\<lambda>v. csr_update (us_rw bm reg) (us_w1c reg) v d msk) (cfg_rd f reg)"
        using line four_csr(1) [OF u(1-4) m(1), of d]
        by (simp add: cfg_rd_us [OF ok] cfg_rd_us [OF ok'] us_rw_def us_w1c_def us_find_def)
      show "cfg_rd ?f r = cfg_rd f r" if "r \<noteq> reg" "us_find r = None" for r
        using that line by (simp add: cfg_rd_us [OF ok] cfg_rd_us [OF ok'] read_status_command_def)
    qed (use line r in \<open>simp_all add: w\<close>)
  next
    case bars
    let ?k = "nat (reg - 4)"
    let ?f = "f\<lparr>bar := (bar f)[?k := byte_mask_update (bar f ! ?k) msk d (bm ! ?k)]\<rparr>"
    have k: "?k < 6" using bars by auto
    have ok': "us_ok bm ?f" using ok by (simp add: us_ok_def)
    have csr: "byte_mask_update v msk d x = csr_update x 0 v d msk" for v x
      by (rule csr_plain [OF m(1)]) (simp add: bit_byte_mask_update m)
    have "us_rw bm reg = bm ! ?k" "us_w1c reg = 0" using bars by (auto simp: us_rw_def us_w1c_def us_find_def)
    moreover have "cfg_rd ?f reg = Some (byte_mask_update (bar f ! ?k) msk d (bm ! ?k))" "cfg_rd f reg = Some (bar f ! ?k)"
      using bars k u by (simp_all add: cfg_rd_us [OF ok] cfg_rd_us [OF ok'])
    ultimately have "cfg_rd ?f reg = map_option (\<lambda>v. csr_update (us_rw bm reg) (us_w1c reg) v d msk) (cfg_rd f reg)"
      by (simp add: csr)
    moreover have "cfg_rd ?f r = cfg_rd f r" if "r \<noteq> reg" "us_find r = None" for r
    proof -
      have "?k \<noteq> nat (r - 4)" if "4 \<le> r" using that bars \<open>r \<noteq> reg\<close> by auto
      then have "(bar f)[?k := x] ! nat (r - 4) = bar f ! nat (r - 4)" if "4 \<le> r" for x using that by simp
      then show ?thesis using that by (simp add: cfg_rd_us [OF ok] cfg_rd_us [OF ok'] read_status_command_def)
    qed
    ultimately show ?thesis
      by (intro header_case [OF ok ok']) (use bars r k u in \<open>simp_all add: w write_bar_def\<close>)
  next
    case rom
    let ?f = "f\<lparr>expansion_rom_addr := csr_update 0xffffffff 0 (expansion_rom_addr f) d msk\<rparr>"
    have ok': "us_ok bm ?f" using ok by (simp add: us_ok_def)
    have csr: "byte_mask_update1 v msk d = csr_update 0xffffffff 0 v d msk" for v
    proof (rule csr_plain [OF m(1)])
      fix n
      show "bit (byte_mask_update1 v msk d) n = (if bit msk (n div 8) \<and> bit (0xffffffff :: int) n then bit d n else bit v n)"
        using msi_bits(1,2) [OF m, of n v d] bit_above_exp [of msk 4 "n div 8"] m
        by (cases "n < 32") (auto simp: bit_numeral_ones)
    qed
    show ?thesis
    proof (rule header_case [OF ok ok'])
      show "cfg_rd ?f reg = map_option (\<lambda>v. csr_update (us_rw bm reg) (us_w1c reg) v d msk) (cfg_rd f reg)"
        using rom by (simp add: cfg_rd_us [OF ok] cfg_rd_us [OF ok'] us_rw_def us_w1c_def us_find_def)
      show "cfg_rd ?f r = cfg_rd f r" if "r \<noteq> reg" "us_find r = None" for r
        using that rom by (simp add: cfg_rd_us [OF ok] cfg_rd_us [OF ok'] read_status_command_def)
    qed (use rom r in \<open>simp_all add: w csr\<close>)
  next
    case intr
    let ?f = "f\<lparr>intr_line := byte_mask_update1 (intr_line f) (msk AND 1) d,
      intr_pin := byte_mask_update1 (intr_pin f) (drop_bit (Suc 0) msk AND 1) (drop_bit 8 d)\<rparr>"
    have ok': "us_ok bm ?f" using ok lanes8 by (simp add: us_ok_def write_interrupt_def)
    show ?thesis
    proof (rule header_case [OF ok ok'])
      show "cfg_rd ?f reg = map_option (\<lambda>v. csr_update (us_rw bm reg) (us_w1c reg) v d msk) (cfg_rd f reg)"
        using intr four_csr(2) [OF u(7) u(7) u(5,6) m(1), of d]
        by (simp add: cfg_rd_us [OF ok] cfg_rd_us [OF ok'] us_rw_def us_w1c_def us_find_def)
      show "cfg_rd ?f r = cfg_rd f r" if "r \<noteq> reg" "us_find r = None" for r
        using that intr by (simp add: cfg_rd_us [OF ok] cfg_rd_us [OF ok'] read_status_command_def write_interrupt_def)
    qed (use intr r in \<open>simp_all add: w write_interrupt_def\<close>)
  next
    case other
    have "us_rw bm reg = 0" "us_w1c reg = 0" using other r by (auto simp: us_rw_def us_w1c_def)
    then have "map_option (\<lambda>v. csr_update (us_rw bm reg) (us_w1c reg) v d msk) (cfg_rd f reg) = cfg_rd f reg"
      by (simp add: csr_update_none m option.map_ident)
    moreover have "ep_write_config_register reg d msk f = Inr f"
      using other r us_write_capability [OF caps(1), of reg d msk]
      by (auto simp: w write_extended_capability_register_def caps(2) PcieExtCapList_def cl_write_register_def find_by_reg_def)
    ultimately show ?thesis using ok by simp
  qed
qed

text \<open>The whole configuration space, Link Control excepted, is a register file.\<close>

interpretation us_file: register_file cfg_rd ep_write_config_register "us_rw bm" us_w1c "- {0x34}" "us_ok bm" for bm
proof (unfold_locales, goal_cases)
  case (1 f reg msk d)
  show ?case
  proof (cases "us_find reg")
    case None
    then show ?thesis using us_header_law [OF 1(1) None 1(3,4)] by simp
  next
    case (Some x)
    obtain h k where x: "x = (h, k)" by (cases x)
    have "reg \<noteq> 0x34" using 1(2) by simp
    then show ?thesis using us_cap_law [OF 1(1) Some [unfolded x] _ 1(3,4)] by simp
  qed
qed

section \<open>Refinement\<close>

text \<open>C20. The configuration space of an UltraScale function refines one flat register file. From any
  state with the constructor's capability layout, any sequence of byte-enabled configuration
  writes outside link control returns without raising, and afterwards every register of the
  space, header and capabilities alike, reads as if only the writes addressed to it had been
  applied to its old value: no write leaks into another register, the base address registers take only the bits of
  their size masks, and everything that is not writable keeps its value.\<close>

theorem us_config_space_refines:
  assumes "us_ok bm f" and "\<forall>(reg, d, msk) \<in> set ws. reg \<noteq> 0x34 \<and> 0 \<le> msk \<and> msk < 16"
  shows "\<exists>f'. write_all ep_write_config_register ws f = Inr f' \<and> us_ok bm f' \<and>
     (\<forall>r. cfg_rd f' r = map_option (csr_run (us_rw bm) us_w1c r ws) (cfg_rd f r))"
  using us_file.write_all_view [OF assms(1), of ws] assms(2) by auto

theorem us_config_space_refines_witness:
  "\<exists>f f'. UltrascalePCIeFunction = Inr f \<and>
     write_all ep_write_config_register [(1, 0x4, 1), (4, 0xffffffff, 0xf), (0x24, 0x10000, 4)] f = Inr f' \<and>
     cfg_rd f' 1 = Some 0x100004 \<and> cfg_rd f' 4 = Some 0 \<and> cfg_rd f' 0x25 = cfg_rd f 0x25"
proof -
  have "case UltrascalePCIeFunction of
      Inl e \<Rightarrow> False
    | Inr f \<Rightarrow> us_ok [0, 0, 0, 0, 0, 0] f \<and> cfg_rd f 1 = Some 0x100000 \<and> cfg_rd f 4 = Some 0"
    by code_simp
  then obtain f where f: "UltrascalePCIeFunction = Inr f" "us_ok [0, 0, 0, 0, 0, 0] f"
    "cfg_rd f 1 = Some 0x100000" "cfg_rd f 4 = Some 0" by (auto split: sum.splits)
  from us_config_space_refines [OF f(2), of "[(1, 0x4, 1), (4, 0xffffffff, 0xf), (0x24, 0x10000, 4)]"] obtain f' where
    f': "write_all ep_write_config_register [(1, 0x4, 1), (4, 0xffffffff, 0xf), (0x24, 0x10000, 4)] f = Inr f'"
    "\<forall>r. cfg_rd f' r = map_option (csr_run (us_rw [0, 0, 0, 0, 0, 0]) us_w1c r
       [(1, 0x4, 1), (4, 0xffffffff, 0xf), (0x24, 0x10000, 4)]) (cfg_rd f r)" by auto
  have "csr_run (us_rw [0, 0, 0, 0, 0, 0]) us_w1c 1 [(1, 0x4, 1), (4, 0xffffffff, 0xf), (0x24, 0x10000, 4)] 0x100000 = 0x100004"
    "csr_run (us_rw [0, 0, 0, 0, 0, 0]) us_w1c 4 [(1, 0x4, 1), (4, 0xffffffff, 0xf), (0x24, 0x10000, 4)] 0 = 0"
    by code_simp+
  then have "cfg_rd f' 1 = Some 0x100004" "cfg_rd f' 4 = Some 0"
    using f(3,4) f'(2) [THEN spec, of 1] f'(2) [THEN spec, of 4] by simp_all
  moreover have "cfg_rd f' 0x25 = cfg_rd f 0x25"
    using f'(2) [THEN spec, of "0x25"] by (cases "cfg_rd f 0x25") simp_all
  ultimately show ?thesis using f(1) f'(1) by blast
qed

end
