(* ===== verification/PCIE_Memory.thy ===== *)
theory PCIE_Memory
  imports PCIE_Function
begin

text \<open>
  Memory behind functions and behind the root complex: the regions, the access to them and the
  handlers of IO and memory requests (classes \<open>MemoryEndpoint\<close> and \<open>RootComplex\<close> of
  \<open>pcie.py\<close>).

  \<^item> A region of an endpoint is a bytearray or a pair of callables. A bytearray grows when a slice
    beyond its end is assigned. The read callable is a function of the offset and the length;
    the write callable is never reached, because its call names an undefined variable.
  \<^item> A region of the root complex is a memory map, which refuses an assignment that would change
    its size, or a pair of callables. A callable supplied from outside is a token, and its calls
    are recorded in the order they happen.
  \<^item> A handler gives the packets it sends, in order, and the new state. The packets that were
    sent before an exception are not part of its value.
\<close>

section \<open>Runs of enabled bytes\<close>

text \<open>
  All handlers scan byte enables the same way: a run of enabled bytes is handed to an action when
  the first disabled byte after it, or the end, is reached.
\<close>

definition be_flush :: "(int \<Rightarrow> int \<Rightarrow> 's \<Rightarrow> py_error + 's) \<Rightarrow> int option \<Rightarrow> int \<Rightarrow> 's \<Rightarrow> py_error + 's" where
  "be_flush act start offset s =
     (case start of None \<Rightarrow> Inr s | Some a \<Rightarrow> if offset \<noteq> a then act a offset s else Inr s)"

fun be_loop ::
  "(int \<Rightarrow> int \<Rightarrow> 's \<Rightarrow> py_error + 's) \<Rightarrow> int \<Rightarrow> nat list \<Rightarrow> int option \<Rightarrow> int \<Rightarrow> 's \<Rightarrow>
   py_error + (int option \<times> int \<times> 's)" where
  "be_loop act msk [] start offset s = Inr (start, offset, s)"
| "be_loop act msk (k # ks) start offset s =
     (if tst msk k
      then be_loop act msk ks (Some (case start of None \<Rightarrow> offset | Some a \<Rightarrow> a)) (offset + 1) s
      else try_bind (be_flush act start offset s) (\<lambda>s'. be_loop act msk ks None (offset + 1) s'))"

definition be_dword ::
  "(int \<Rightarrow> int \<Rightarrow> 's \<Rightarrow> py_error + 's) \<Rightarrow> int \<Rightarrow> 's \<Rightarrow> py_error + 's" where
  "be_dword act msk s =
     try_bind (be_loop act msk [0, 1, 2, 3] None 0 s) (\<lambda>(start, offset, s'). be_flush act start offset s')"

text \<open>The scan of a memory write: the first double word, the middle ones, the last one.\<close>

definition be_dwords ::
  "(int \<Rightarrow> int \<Rightarrow> 's \<Rightarrow> py_error + 's) \<Rightarrow> tlp \<Rightarrow> 's \<Rightarrow> py_error + 's" where
  "be_dwords act t s =
     try_bind (be_loop act (tlp_first_be t) [0, 1, 2, 3] None 0 s) (\<lambda>(start, offset, s1).
       case (if tlp_length t > 2
             then (Some (case start of None \<Rightarrow> offset | Some a \<Rightarrow> a), offset + (tlp_length t - 2) * 4)
             else (start, offset)) of
         (start, offset) \<Rightarrow>
           try_bind
             (if tlp_length t > 1 then be_loop act (tlp_last_be t) [0, 1, 2, 3] start offset s1
              else Inr (start, offset, s1))
             (\<lambda>(start, offset, s2). be_flush act start offset s2))"

text \<open>The bytes of an IO read: a buffer of four bytes whose enabled runs are overwritten.\<close>

definition be_read :: "(int \<Rightarrow> int \<Rightarrow> py_error + int list) \<Rightarrow> int \<Rightarrow> py_error + int list" where
  "be_read rd msk =
     be_dword (\<lambda>a b data. try_bind (rd a (b - a)) (\<lambda>d. Inr (py_slice_set a b d data))) msk (replicate 4 0)"

section \<open>Completions of a memory read\<close>

text \<open>
  The loop that cuts the data into completions. \<open>m\<close> counts the double words and \<open>n\<close> the
  bytes that have been sent.
\<close>

definition cpl_dw :: "int \<Rightarrow> int \<Rightarrow> int \<Rightarrow> int" where
  "cpl_dw mps left addr =
     (if left > push_bit (nat mps) 32 then push_bit (nat mps) 32 - drop_bit 2 (addr AND 0x7c) else left)"

lemma cpl_dw_pos: "0 < left \<Longrightarrow> 0 < cpl_dw mps left addr"
proof -
  have "addr AND 0x7c \<le> (0x7c :: int)" by (rule AND_upper2) simp
  then have "drop_bit 2 (addr AND 0x7c) \<le> (31 :: int)"
    unfolding drop_bit_eq_div using zdiv_mono1 [of "addr AND 0x7c" "0x7c" 4] by simp
  moreover have "(32 :: int) \<le> push_bit (nat mps) 32" by (simp add: push_bit_eq_mult)
  ultimately show "0 < left \<Longrightarrow> 0 < cpl_dw mps left addr" by (simp add: cpl_dw_def)
qed

function cpl_loop ::
  "tlp \<Rightarrow> pcie_id \<Rightarrow> int \<Rightarrow> int list \<Rightarrow> int \<Rightarrow> int \<Rightarrow> int \<Rightarrow> int \<Rightarrow> int \<Rightarrow> py_error + tlp list" where
  "cpl_loop t cid mps data dw_length byte_length m n addr =
     (if m < dw_length
      then let k = cpl_dw mps (dw_length - m) addr
           in try_bind (set_data (py_slice (m * 4) ((m + k) * 4) data)
                 ((set_completion_data t cid new_tlp)
                    \<lparr>tlp_byte_count := byte_length - n, tlp_lower_address := addr AND 0x7f\<rparr>)) (\<lambda>c.
              try_bind (upstream_send c) (\<lambda>out.
              try_bind (cpl_loop t cid mps data dw_length byte_length (m + k)
                 (n + (k * 4 - (addr AND 3))) (addr + (k * 4 - (addr AND 3)))) (\<lambda>rest.
              Inr (out @ rest))))
      else Inr [])"
  by pat_completeness auto
termination
  by (relation "measure (\<lambda>(t, cid, mps, data, dw_length, byte_length, m, n, addr). nat (dw_length - m))")
    (use cpl_dw_pos in \<open>force+\<close>)

declare cpl_loop.simps [simp del]

definition mem_completions :: "tlp \<Rightarrow> pcie_id \<Rightarrow> int \<Rightarrow> int list \<Rightarrow> py_error + tlp list" where
  "mem_completions t cid mps data =
     cpl_loop t cid mps data (tlp_length t) (get_be_byte_count t) 0 0 (tlp_address t + get_first_be_offset t)"

text \<open>A request that runs over a boundary of 4096 bytes is discarded.\<close>

definition crosses_4k :: "tlp \<Rightarrow> int \<Rightarrow> bool" where
  "crosses_4k t addr \<longleftrightarrow> tlp_length t * 4 > 0x1000 - (addr AND 0xfff)"

section \<open>Regions of an endpoint\<close>

datatype mem_region =
    NoRegion
  | ByteArray "int list"
  | Callables "(int \<Rightarrow> int \<Rightarrow> int list) option"

record memory_endpoint = endpoint +
  mem_regions :: "mem_region list"
  bar_ptr :: nat

definition init_memory_endpoint :: "endpoint \<Rightarrow> memory_endpoint" where
  "init_memory_endpoint f = endpoint.extend f \<lparr>mem_regions = replicate 6 NoRegion, bar_ptr = 0\<rparr>"

definition new_memory_endpoint :: "py_error + memory_endpoint" where
  "new_memory_endpoint = try_bind new_endpoint (\<lambda>f. Inr (init_memory_endpoint f))"

text \<open>The argument \<open>wr\<close> says whether a write callable is given.\<close>

definition add_region ::
  "(int \<Rightarrow> nat) \<Rightarrow> int \<Rightarrow> (int \<Rightarrow> int \<Rightarrow> int list) option \<Rightarrow> bool \<Rightarrow> bool \<Rightarrow> bool \<Rightarrow> bool \<Rightarrow>
   'a memory_endpoint_scheme \<Rightarrow> py_error + 'a memory_endpoint_scheme" where
  "add_region clog2 sz rd wr ext prefetch io f =
     (if bar_ptr f > 5 \<or> (ext \<and> bar_ptr f > 4) then Inl (OtherException ''No more BARs available'')
      else try_bind (configure_bar clog2 (bar_ptr f) sz ext prefetch io f) (\<lambda>f1.
             Inr (f1\<lparr>mem_regions := (mem_regions f)[bar_ptr f :=
                       (if rd = None \<and> \<not> wr then ByteArray (replicate (nat sz) 0) else Callables rd)],
                     bar_ptr := bar_ptr f + (if ext then 2 else 1)\<rparr>)))"

definition add_io_region ::
  "(int \<Rightarrow> nat) \<Rightarrow> int \<Rightarrow> (int \<Rightarrow> int \<Rightarrow> int list) option \<Rightarrow> bool \<Rightarrow>
   'a memory_endpoint_scheme \<Rightarrow> py_error + 'a memory_endpoint_scheme" where
  "add_io_region clog2 sz rd wr = add_region clog2 sz rd wr False False True"

definition add_mem_region ::
  "(int \<Rightarrow> nat) \<Rightarrow> int \<Rightarrow> (int \<Rightarrow> int \<Rightarrow> int list) option \<Rightarrow> bool \<Rightarrow>
   'a memory_endpoint_scheme \<Rightarrow> py_error + 'a memory_endpoint_scheme" where
  "add_mem_region clog2 sz rd wr = add_region clog2 sz rd wr False False False"

definition add_prefetchable_mem_region ::
  "(int \<Rightarrow> nat) \<Rightarrow> int \<Rightarrow> (int \<Rightarrow> int \<Rightarrow> int list) option \<Rightarrow> bool \<Rightarrow>
   'a memory_endpoint_scheme \<Rightarrow> py_error + 'a memory_endpoint_scheme" where
  "add_prefetchable_mem_region clog2 sz rd wr = add_region clog2 sz rd wr True True False"

definition read_region :: "nat \<Rightarrow> int \<Rightarrow> int \<Rightarrow> 'a memory_endpoint_scheme \<Rightarrow> py_error + int list" where
  "read_region r addr len f =
     (if r < length (mem_regions f)
      then case mem_regions f ! r of
             NoRegion \<Rightarrow> Inl (OtherException ''Invalid region'')
           | ByteArray bs \<Rightarrow>
               if bs = [] then Inl (OtherException ''Invalid region'') else Inr (py_slice addr (addr + len) bs)
           | Callables rd \<Rightarrow> (case rd of None \<Rightarrow> Inl TypeError | Some g \<Rightarrow> Inr (g addr len))
      else Inl IndexError)"

definition write_region ::
  "nat \<Rightarrow> int \<Rightarrow> int list \<Rightarrow> 'a memory_endpoint_scheme \<Rightarrow> py_error + 'a memory_endpoint_scheme" where
  "write_region r addr data f =
     (if r < length (mem_regions f)
      then case mem_regions f ! r of
             NoRegion \<Rightarrow> Inl (OtherException ''Invalid region'')
           | ByteArray bs \<Rightarrow>
               if bs = [] then Inl (OtherException ''Invalid region'')
               else Inr (f\<lparr>mem_regions := (mem_regions f)[r :=
                       ByteArray (py_slice_set addr (addr + int (length data)) data bs)]\<rparr>)
           | Callables rd \<Rightarrow> Inl NameError
      else Inl IndexError)"

section \<open>Requests to an endpoint\<close>

definition handle_io_read_tlp :: "tlp \<Rightarrow> 'a memory_endpoint_scheme \<Rightarrow> py_error + tlp list" where
  "handle_io_read_tlp t f =
     try_bind (match_bar (tlp_address t) True f) (\<lambda>m.
       case m of
         [(r, addr)] \<Rightarrow>
           if tlp_length t \<noteq> 1 then Inl AssertionError
           else try_bind (be_read (\<lambda>a n. read_region r (addr + a) n f) (tlp_first_be t)) (\<lambda>data.
                try_bind (set_data data (set_completion_data t (get_id f) new_tlp)) (\<lambda>c.
                upstream_send (c\<lparr>tlp_byte_count := 4, tlp_length := 1\<rparr>)))
       | _ \<Rightarrow> upstream_send (set_ur_completion t (get_id f) new_tlp))"

definition handle_io_write_tlp ::
  "tlp \<Rightarrow> 'a memory_endpoint_scheme \<Rightarrow> py_error + ('a memory_endpoint_scheme \<times> tlp list)" where
  "handle_io_write_tlp t f =
     try_bind (match_bar (tlp_address t) True f) (\<lambda>m.
       case m of
         [(r, addr)] \<Rightarrow>
           if tlp_length t \<noteq> 1 then Inl AssertionError
           else try_bind (get_data t) (\<lambda>data.
                try_bind (be_dword (\<lambda>a b. write_region r (addr + a) (py_slice a b data)) (tlp_first_be t) f) (\<lambda>f'.
                try_bind (upstream_send
                  ((set_completion t (get_id f) False CPL_STATUS_SC new_tlp)\<lparr>tlp_byte_count := 4\<rparr>)) (\<lambda>out.
                Inr (f', out))))
       | _ \<Rightarrow> try_bind (upstream_send (set_ur_completion t (get_id f) new_tlp)) (\<lambda>out. Inr (f, out)))"

definition handle_mem_read_tlp :: "tlp \<Rightarrow> 'a memory_endpoint_scheme \<Rightarrow> py_error + tlp list" where
  "handle_mem_read_tlp t f =
     try_bind (match_bar (tlp_address t) False f) (\<lambda>m.
       case m of
         [(r, addr)] \<Rightarrow>
           if crosses_4k t addr then Inr []
           else try_bind (read_region r addr (tlp_length t * 4) f) (\<lambda>data.
                mem_completions t (get_id f) (max_payload_size (pr_device_ctrl (pcie f))) data)
       | _ \<Rightarrow> upstream_send (set_ur_completion t (get_id f) new_tlp))"

definition handle_mem_write_tlp ::
  "tlp \<Rightarrow> 'a memory_endpoint_scheme \<Rightarrow> py_error + 'a memory_endpoint_scheme" where
  "handle_mem_write_tlp t f =
     try_bind (match_bar (tlp_address t) False f) (\<lambda>m.
       case m of
         [(r, addr)] \<Rightarrow>
           if crosses_4k t addr then Inr f
           else try_bind (get_data t) (\<lambda>data.
                be_dwords (\<lambda>a b. write_region r (addr + a) (py_slice a b data)) t f)
       | _ \<Rightarrow> Inr f)"

text \<open>
  Dispatch of a packet that reached the function: completions are queued, the other requests go
  to the handler registered for their format and type.
\<close>

definition me_handle_tlp ::
  "tlp \<Rightarrow> 'a memory_endpoint_scheme \<Rightarrow> py_error + ('a memory_endpoint_scheme \<times> tlp list)" where
  "me_handle_tlp t f =
     (if is_completion t
      then try_bind (queue_cpl t (rx_cpl_queues f)) (\<lambda>q. Inr (f\<lparr>rx_cpl_queues := q\<rparr>, []))
      else if fmt_type t = TLP_CFG_READ_0 \<or> fmt_type t = TLP_CFG_WRITE_0
      then handle_config_0_tlp ep_read_config_register ep_write_config_register t f
      else if fmt_type t = TLP_IO_READ then try_bind (handle_io_read_tlp t f) (\<lambda>out. Inr (f, out))
      else if fmt_type t = TLP_IO_WRITE then handle_io_write_tlp t f
      else if fmt_type t = TLP_MEM_READ \<or> fmt_type t = TLP_MEM_READ_64
      then try_bind (handle_mem_read_tlp t f) (\<lambda>out. Inr (f, out))
      else if fmt_type t = TLP_MEM_WRITE \<or> fmt_type t = TLP_MEM_WRITE_64
      then try_bind (handle_mem_write_tlp t f) (\<lambda>f'. Inr (f', []))
      else Inl (OtherException ''Unhandled TLP''))"

definition me_upstream_recv ::
  "tlp \<Rightarrow> 'a memory_endpoint_scheme \<Rightarrow> py_error + ('a memory_endpoint_scheme \<times> tlp list)" where
  "me_upstream_recv t f = (if check t then me_handle_tlp t f else Inl AssertionError)"

end
