(* ===== verification/PCIE_RootComplex.thy ===== *)
theory PCIE_RootComplex
  imports PCIE_Memory
begin

text \<open>
  The state of the root complex and the requests it answers (class \<open>RootComplex\<close> of
  \<open>pcie.py\<close>): its regions, the allocation of them, the region that receives message
  signalled interrupts, tags and completions, and the handlers of IO and memory requests.

  Signals are numbered; \<open>sig_val\<close> holds their values. Assigning \<open>sig.next = not sig\<close> to
  every signal of a list inverts each of them once, however often it is in the list.
\<close>

section \<open>State\<close>

datatype region_body =
    MMap "int list"
  | MSIRegion
  | UserRegion nat bool bool

record rc_region =
  reg_addr :: int
  reg_size :: int
  reg_body :: region_body

datatype rc_call =
    RegionRead nat int int
  | RegionWrite nat int "int list"
  | MSICallback nat

record root_complex =
  rc_current_tag :: int
  rc_cpl_queues :: "tlp list list"
  rc_max_payload_size :: int
  rc_max_read_request_size :: int
  rc_extended_tag_field_enable :: bool
  region_limit :: int
  io_region_limit :: int
  rc_regions :: "rc_region list"
  rc_io_regions :: "rc_region list"
  rc_msi_addr :: "int option"
  msi_msg_limit :: int
  msi_signals :: "int \<Rightarrow> nat list option"
  msi_callbacks :: "int \<Rightarrow> nat list option"
  sig_count :: nat
  sig_val :: "nat \<Rightarrow> bool"
  rc_calls :: "rc_call list"

definition init_root_complex :: root_complex where
  "init_root_complex = \<lparr>rc_current_tag = 0, rc_cpl_queues = replicate 256 [],
     rc_max_payload_size = 0, rc_max_read_request_size = 2, rc_extended_tag_field_enable = True,
     region_limit = 0, io_region_limit = 0, rc_regions = [], rc_io_regions = [],
     rc_msi_addr = None, msi_msg_limit = 0, msi_signals = (\<lambda>_. None), msi_callbacks = (\<lambda>_. None),
     sig_count = 0, sig_val = (\<lambda>_. False), rc_calls = []\<rparr>"

section \<open>Allocation\<close>

text \<open>
  The body of a new region: a zeroed memory map when no callable is given. A size that is not
  positive has no logarithm.
\<close>

definition new_region :: "int \<Rightarrow> int \<Rightarrow> region_body option \<Rightarrow> rc_region" where
  "new_region addr sz body =
     \<lparr>reg_addr = addr, reg_size = sz,
      reg_body = (case body of None \<Rightarrow> MMap (replicate (nat sz) 0) | Some b \<Rightarrow> b)\<rparr>"

definition alloc_region ::
  "(int \<Rightarrow> nat) \<Rightarrow> int \<Rightarrow> region_body option \<Rightarrow> 'a root_complex_scheme \<Rightarrow>
   py_error + ('a root_complex_scheme \<times> int)" where
  "alloc_region clog2 sz body s =
     (if sz \<le> 0 then Inl ValueError
      else let addr = align (region_limit s) (2 ^ clog2 sz - 1)
           in Inr (s\<lparr>region_limit := addr + sz - 1,
                     rc_regions := rc_regions s @ [new_region addr sz body]\<rparr>, addr))"

definition alloc_io_region ::
  "(int \<Rightarrow> nat) \<Rightarrow> int \<Rightarrow> region_body option \<Rightarrow> 'a root_complex_scheme \<Rightarrow>
   py_error + ('a root_complex_scheme \<times> int)" where
  "alloc_io_region clog2 sz body s =
     (if sz \<le> 0 then Inl ValueError
      else let addr = align (io_region_limit s) (2 ^ clog2 sz - 1)
           in Inr (s\<lparr>io_region_limit := addr + sz - 1,
                     rc_io_regions := rc_io_regions s @ [new_region addr sz body]\<rparr>, addr))"

fun find_in :: "int \<Rightarrow> nat \<Rightarrow> rc_region list \<Rightarrow> nat option" where
  "find_in addr k [] = None"
| "find_in addr k (r # rs) =
     (if reg_addr r \<le> addr \<and> addr < reg_addr r + reg_size r then Some k else find_in addr (k + 1) rs)"

definition find_region :: "int \<Rightarrow> 'a root_complex_scheme \<Rightarrow> nat option" where
  "find_region addr s = find_in addr 0 (rc_regions s)"

definition find_io_region :: "int \<Rightarrow> 'a root_complex_scheme \<Rightarrow> nat option" where
  "find_io_region addr s = find_in addr 0 (rc_io_regions s)"

section \<open>Access\<close>

definition log_call :: "rc_call \<Rightarrow> 'a root_complex_scheme \<Rightarrow> 'a root_complex_scheme" where
  "log_call c s = s\<lparr>rc_calls := rc_calls s @ [c]\<rparr>"

text \<open>The write callable of the interrupt region.\<close>

definition msi_region_write ::
  "int \<Rightarrow> int list \<Rightarrow> 'a root_complex_scheme \<Rightarrow> py_error + 'a root_complex_scheme" where
  "msi_region_write addr data s =
     (if addr \<noteq> 0 \<or> length data \<noteq> 4 then Inl AssertionError
      else let number = le_value data
           in case msi_signals s number of
                None \<Rightarrow> Inl AssertionError
              | Some sigs \<Rightarrow>
                  let s1 = s\<lparr>sig_val := (\<lambda>i. if i \<in> set sigs then \<not> sig_val s i else sig_val s i)\<rparr>
                  in case msi_callbacks s number of
                       None \<Rightarrow> Inl KeyError
                     | Some cbs \<Rightarrow> Inr (fold (\<lambda>c. log_call (MSICallback c)) cbs s1))"

text \<open>A read through a callable drops what the callable returns: its value is None.\<close>

definition rc_read_region ::
  "int \<Rightarrow> int \<Rightarrow> 'a root_complex_scheme \<Rightarrow> py_error + ('a root_complex_scheme \<times> int list option)" where
  "rc_read_region addr len s =
     (case find_region addr s of
        None \<Rightarrow> Inl (OtherException ''Invalid address'')
      | Some k \<Rightarrow>
          let r = rc_regions s ! k; offset = addr - reg_addr r
          in case reg_body r of
               MMap bs \<Rightarrow> Inr (s, Some (py_slice offset (offset + len) bs))
             | MSIRegion \<Rightarrow> Inr (s, None)
             | UserRegion c rd wr \<Rightarrow>
                 if rd then Inr (log_call (RegionRead c offset len) s, None) else Inl TypeError)"

text \<open>A memory map raises IndexError when the slice is shorter than the data.\<close>

definition mmap_set :: "int \<Rightarrow> int list \<Rightarrow> int list \<Rightarrow> py_error + int list" where
  "mmap_set offset data bs =
     (if length (py_slice offset (offset + int (length data)) bs) \<noteq> length data then Inl IndexError
      else Inr (py_slice_set offset (offset + int (length data)) data bs))"

definition rc_write_region ::
  "int \<Rightarrow> int list \<Rightarrow> 'a root_complex_scheme \<Rightarrow> py_error + 'a root_complex_scheme" where
  "rc_write_region addr data s =
     (case find_region addr s of
        None \<Rightarrow> Inl (OtherException ''Invalid address'')
      | Some k \<Rightarrow>
          let r = rc_regions s ! k; offset = addr - reg_addr r
          in case reg_body r of
               MMap bs \<Rightarrow>
                 try_bind (mmap_set offset data bs) (\<lambda>bs'.
                   Inr (s\<lparr>rc_regions := (rc_regions s)[k := r\<lparr>reg_body := MMap bs'\<rparr>]\<rparr>))
             | MSIRegion \<Rightarrow> msi_region_write offset data s
             | UserRegion c rd wr \<Rightarrow>
                 if wr then Inr (log_call (RegionWrite c offset data) s) else Inl TypeError)"

text \<open>The IO variant of the read names an undefined variable when it calls a callable.\<close>

definition read_io_region :: "int \<Rightarrow> int \<Rightarrow> 'a root_complex_scheme \<Rightarrow> py_error + int list" where
  "read_io_region addr len s =
     (case find_io_region addr s of
        None \<Rightarrow> Inl (OtherException ''Invalid address'')
      | Some k \<Rightarrow>
          let r = rc_io_regions s ! k; offset = addr - reg_addr r
          in case reg_body r of
               MMap bs \<Rightarrow> Inr (py_slice offset (offset + len) bs)
             | _ \<Rightarrow> Inl NameError)"

definition write_io_region ::
  "int \<Rightarrow> int list \<Rightarrow> 'a root_complex_scheme \<Rightarrow> py_error + 'a root_complex_scheme" where
  "write_io_region addr data s =
     (case find_io_region addr s of
        None \<Rightarrow> Inl (OtherException ''Invalid address'')
      | Some k \<Rightarrow>
          let r = rc_io_regions s ! k; offset = addr - reg_addr r
          in case reg_body r of
               MMap bs \<Rightarrow>
                 try_bind (mmap_set offset data bs) (\<lambda>bs'.
                   Inr (s\<lparr>rc_io_regions := (rc_io_regions s)[k := r\<lparr>reg_body := MMap bs'\<rparr>]\<rparr>))
             | MSIRegion \<Rightarrow> msi_region_write offset data s
             | UserRegion c rd wr \<Rightarrow>
                 if wr then Inr (log_call (RegionWrite c offset data) s) else Inl TypeError)"

section \<open>Tags and completions\<close>

definition rc_get_free_tag :: "'a root_complex_scheme \<Rightarrow> 'a root_complex_scheme \<times> int option" where
  "rc_get_free_tag s =
     (case tag_loop 32 32 (rc_cpl_queues s) (rc_current_tag s) of (t, r) \<Rightarrow> (s\<lparr>rc_current_tag := t\<rparr>, r))"

definition rc_recv_cpl ::
  "int \<Rightarrow> 'a root_complex_scheme \<Rightarrow> py_error + ('a root_complex_scheme \<times> tlp option)" where
  "rc_recv_cpl tag s =
     try_bind (recv_cpl tag (rc_cpl_queues s)) (\<lambda>(q, c). Inr (s\<lparr>rc_cpl_queues := q\<rparr>, c))"

section \<open>Requests to the root complex\<close>

definition downstream_send :: "tlp \<Rightarrow> py_error + tlp list" where
  "downstream_send t = (if check t then Inr [t] else Inl AssertionError)"

definition rc_handle_io_read_tlp :: "tlp \<Rightarrow> 'a root_complex_scheme \<Rightarrow> py_error + tlp list" where
  "rc_handle_io_read_tlp t s =
     (if find_io_region (tlp_address t) s \<noteq> None
      then if tlp_length t \<noteq> 1 then Inl AssertionError
           else try_bind (be_read (\<lambda>a n. read_io_region (tlp_address t + a) n s) (tlp_first_be t)) (\<lambda>data.
                try_bind (set_data data (set_completion_data t (PcieId 0 0 0) new_tlp)) (\<lambda>c.
                downstream_send (c\<lparr>tlp_byte_count := 4, tlp_length := 1\<rparr>)))
      else downstream_send (set_ur_completion t (PcieId 0 0 0) new_tlp))"

definition rc_handle_io_write_tlp ::
  "tlp \<Rightarrow> 'a root_complex_scheme \<Rightarrow> py_error + ('a root_complex_scheme \<times> tlp list)" where
  "rc_handle_io_write_tlp t s =
     (if find_io_region (tlp_address t) s \<noteq> None
      then if tlp_length t \<noteq> 1 then Inl AssertionError
           else try_bind (get_data t) (\<lambda>data.
                try_bind (be_dword (\<lambda>a b. write_io_region (tlp_address t + a) (py_slice a b data)) (tlp_first_be t) s) (\<lambda>s'.
                try_bind (downstream_send
                  ((set_completion t (PcieId 0 0 0) False CPL_STATUS_SC new_tlp)\<lparr>tlp_byte_count := 4\<rparr>)) (\<lambda>out.
                Inr (s', out))))
      else try_bind (downstream_send (set_ur_completion t (PcieId 0 0 0) new_tlp)) (\<lambda>out. Inr (s, out)))"

text \<open>Without data the first slice raises TypeError; an empty request sends nothing.\<close>

definition rc_handle_mem_read_tlp ::
  "tlp \<Rightarrow> 'a root_complex_scheme \<Rightarrow> py_error + ('a root_complex_scheme \<times> tlp list)" where
  "rc_handle_mem_read_tlp t s =
     (if find_region (tlp_address t) s \<noteq> None
      then if crosses_4k t (tlp_address t) then Inr (s, [])
           else try_bind (rc_read_region (tlp_address t) (tlp_length t * 4) s) (\<lambda>(s', data).
                case data of
                  None \<Rightarrow> if 0 < tlp_length t then Inl TypeError else Inr (s', [])
                | Some bs \<Rightarrow>
                    try_bind (mem_completions t (PcieId 0 0 0) (rc_max_payload_size s) bs) (\<lambda>out. Inr (s', out)))
      else try_bind (downstream_send (set_ur_completion t (PcieId 0 0 0) new_tlp)) (\<lambda>out. Inr (s, out)))"

definition rc_handle_mem_write_tlp ::
  "tlp \<Rightarrow> 'a root_complex_scheme \<Rightarrow> py_error + 'a root_complex_scheme" where
  "rc_handle_mem_write_tlp t s =
     (if find_region (tlp_address t) s \<noteq> None
      then if crosses_4k t (tlp_address t) then Inr s
           else try_bind (get_data t) (\<lambda>data.
                be_dwords (\<lambda>a b. rc_write_region (tlp_address t + a) (py_slice a b data)) t s)
      else Inr s)"

text \<open>Dispatch by format and type.\<close>

definition rc_handle_tlp ::
  "tlp \<Rightarrow> 'a root_complex_scheme \<Rightarrow> py_error + ('a root_complex_scheme \<times> tlp list)" where
  "rc_handle_tlp t s =
     (if is_completion t
      then try_bind (queue_cpl t (rc_cpl_queues s)) (\<lambda>q. Inr (s\<lparr>rc_cpl_queues := q\<rparr>, []))
      else if fmt_type t = TLP_IO_READ
      then try_bind (rc_handle_io_read_tlp t s) (\<lambda>out. Inr (s, out))
      else if fmt_type t = TLP_IO_WRITE then rc_handle_io_write_tlp t s
      else if fmt_type t = TLP_MEM_READ \<or> fmt_type t = TLP_MEM_READ_64 then rc_handle_mem_read_tlp t s
      else if fmt_type t = TLP_MEM_WRITE \<or> fmt_type t = TLP_MEM_WRITE_64
      then try_bind (rc_handle_mem_write_tlp t s) (\<lambda>s'. Inr (s', []))
      else Inl (OtherException ''Unhandled TLP''))"

definition rc_downstream_recv ::
  "tlp \<Rightarrow> 'a root_complex_scheme \<Rightarrow> py_error + ('a root_complex_scheme \<times> tlp list)" where
  "rc_downstream_recv t s = (if check t then rc_handle_tlp t s else Inl AssertionError)"

end
