(* ===== verification/PCIE_Memory_Correct.thy ===== *)
theory PCIE_Memory_Correct
  imports PCIE_RootComplex PCIE_TLP_Correct
begin

text \<open>
  Correctness of the memory accesses. The scan over byte enables is proved once, over the
  interface \<open>byte_mover\<close>: whatever moves a run of bytes correctly is driven to move exactly the
  enabled bytes. It is interpreted for the writes to endpoints, to memory and IO regions
  of the root complex, and for the buffer of an IO read. The completions of a memory read are
  shown to carry the data in order, within the payload limit and cut at the read completion
  boundary.
\<close>

section \<open>Slices inside a list\<close>

lemma slice_pos_in [simp]: "0 \<le> i \<Longrightarrow> i \<le> int (length xs) \<Longrightarrow> slice_pos i xs = nat i"
  by (simp add: slice_pos_def)

lemma length_py_slice: "0 \<le> i \<Longrightarrow> i \<le> j \<Longrightarrow> j \<le> int (length xs) \<Longrightarrow> length (py_slice i j xs) = nat (j - i)"
  by (simp add: py_slice_def nat_diff_distrib')

lemma nth_py_slice:
  "0 \<le> i \<Longrightarrow> i \<le> j \<Longrightarrow> j \<le> int (length xs) \<Longrightarrow> k < nat (j - i) \<Longrightarrow> py_slice i j xs ! k = xs ! (nat i + k)"
  by (simp add: py_slice_def nat_diff_distrib')

lemma length_py_slice_set:
  "0 \<le> i \<Longrightarrow> i \<le> j \<Longrightarrow> j \<le> int (length xs) \<Longrightarrow> length ys = nat (j - i) \<Longrightarrow> length (py_slice_set i j ys xs) = length xs"
  by (simp add: py_slice_set_def)

lemma nth_py_slice_set:
  assumes "0 \<le> i" "i \<le> j" "j \<le> int (length xs)" "length ys = nat (j - i)" "k < length xs"
  shows "py_slice_set i j ys xs ! k = (if i \<le> int k \<and> int k < j then ys ! (k - nat i) else xs ! k)"
  using assms by (auto simp: py_slice_set_def nth_append min_def intro!: arg_cong [of _ _ "nth xs"])

section \<open>Runs of enabled bytes\<close>

declare be_loop.simps [simp del]

text \<open>The bytes of a request that its byte enables select.\<close>

definition be_enabled :: "tlp \<Rightarrow> int \<Rightarrow> bool" where
  "be_enabled t i \<longleftrightarrow> 0 \<le> i \<and> i < tlp_length t * 4 \<and>
     (if i < 4 then bit (tlp_first_be t) (nat i)
      else if i < (tlp_length t - 1) * 4 then True
      else bit (tlp_last_be t) (nat (i - (tlp_length t - 1) * 4)))"

lemma four_index:
  "a \<le> j \<and> j < a + 4 \<and> bit m ([0, 1, 2, 3] ! nat (j - a)) \<longleftrightarrow> a \<le> j \<and> j < a + (4 :: int) \<and> bit m (nat (j - a))"
proof -
  have "[0, 1, 2, 3] ! k = k" if "k < 4" for k :: nat
    using that by (auto simp: less_Suc_eq numeral_eq_Suc)
  then show ?thesis by auto
qed

locale byte_mover =
  fixes act :: "int \<Rightarrow> int \<Rightarrow> 's \<Rightarrow> py_error + 's"
    and view :: "'s \<Rightarrow> int \<Rightarrow> int option"
    and src :: "int \<Rightarrow> int option"
    and bound :: int
    and ok :: "'s \<Rightarrow> bool"
  assumes act_law: "ok s \<Longrightarrow> 0 \<le> a \<Longrightarrow> a < b \<Longrightarrow> b \<le> bound \<Longrightarrow>
    \<exists>s'. act a b s = Inr s' \<and> ok s' \<and> (\<forall>i. view s' i = (if a \<le> i \<and> i < b then src i else view s i))"
begin

text \<open>The view once the pending run has been moved.\<close>

definition pend :: "int option \<Rightarrow> int \<Rightarrow> 's \<Rightarrow> int \<Rightarrow> int option" where
  "pend start off s i = (case start of None \<Rightarrow> view s i | Some a \<Rightarrow> if a \<le> i \<and> i < off then src i else view s i)"

definition start_ok :: "int option \<Rightarrow> int \<Rightarrow> bool" where
  "start_ok start off \<longleftrightarrow> (case start of None \<Rightarrow> True | Some a \<Rightarrow> 0 \<le> a \<and> a \<le> off)"

lemma flush_view:
  assumes "ok s" "start_ok start off" "off \<le> bound"
  shows "\<exists>s'. be_flush act start off s = Inr s' \<and> ok s' \<and> (\<forall>i. view s' i = pend start off s i)"
proof (cases start)
  case (Some a)
  show ?thesis
  proof (cases "off = a")
    case False
    then show ?thesis using act_law [of s a off] assms Some by (simp add: be_flush_def pend_def start_ok_def)
  qed (use assms Some in \<open>auto simp: be_flush_def pend_def\<close>)
qed (use assms in \<open>simp add: be_flush_def pend_def\<close>)

lemma loop_view:
  assumes "ok s" "start_ok start off" "0 \<le> off" "off + int (length ks) \<le> bound"
  shows "\<exists>start' s'. be_loop act msk ks start off s = Inr (start', off + int (length ks), s') \<and> ok s' \<and>
     start_ok start' (off + int (length ks)) \<and>
     (\<forall>i. pend start' (off + int (length ks)) s' i =
        (if off \<le> i \<and> i < off + int (length ks) \<and> bit msk (ks ! nat (i - off)) then src i else pend start off s i))"
  using assms
proof (induction ks arbitrary: start off s)
  case (Cons k ks)
  have sel: "(k # ks) ! nat (i - off) = (if i = off then k else ks ! nat (i - (off + 1)))" if "off \<le> i" for i
    using that by (cases "i = off") (auto simp: nth_Cons' nat_diff_distrib intro!: arg_cong [of _ _ "nth ks"])
  have len: "off + int (length (k # ks)) = off + 1 + int (length ks)" by simp
  show ?case
  proof (cases "bit msk k")
    case True
    let ?st = "Some (case start of None \<Rightarrow> off | Some a \<Rightarrow> a)"
    have "start_ok ?st (off + 1)" using Cons.prems(2,3) by (auto simp: start_ok_def split: option.splits)
    from Cons.IH [OF Cons.prems(1) this] Cons.prems(3,4) obtain start' s' where r:
      "be_loop act msk ks ?st (off + 1) s = Inr (start', off + 1 + int (length ks), s')" "ok s'"
      "start_ok start' (off + 1 + int (length ks))"
      "\<And>i. pend start' (off + 1 + int (length ks)) s' i =
        (if off + 1 \<le> i \<and> i < off + 1 + int (length ks) \<and> bit msk (ks ! nat (i - (off + 1))) then src i
         else pend ?st (off + 1) s i)" by (simp, metis)
    have "pend ?st (off + 1) s i = (if i = off then src i else pend start off s i)" for i
      using Cons.prems(2) by (auto simp: pend_def start_ok_def split: option.splits)
    then have "pend start' (off + 1 + int (length ks)) s' i =
        (if off \<le> i \<and> i < off + 1 + int (length ks) \<and> bit msk ((k # ks) ! nat (i - off)) then src i
         else pend start off s i)" for i
      unfolding r(4) using sel [of i] True by (cases "i = off") (simp_all only: if_True if_False, auto)
    then show ?thesis unfolding len using r(1-3) True by (auto simp: be_loop.simps)
  next
    case False
    from flush_view [OF Cons.prems(1,2)] Cons.prems(4) obtain s1 where s1: "be_flush act start off s = Inr s1" "ok s1"
      "\<And>i. view s1 i = pend start off s i" by auto
    have "start_ok None (off + 1)" by (simp add: start_ok_def)
    from Cons.IH [OF s1(2) this] Cons.prems(3,4) obtain start' s' where r:
      "be_loop act msk ks None (off + 1) s1 = Inr (start', off + 1 + int (length ks), s')" "ok s'"
      "start_ok start' (off + 1 + int (length ks))"
      "\<And>i. pend start' (off + 1 + int (length ks)) s' i =
        (if off + 1 \<le> i \<and> i < off + 1 + int (length ks) \<and> bit msk (ks ! nat (i - (off + 1))) then src i
         else pend None (off + 1) s1 i)" by (simp, metis)
    have "pend None (off + 1) s1 i = pend start off s i" for i by (simp add: pend_def s1(3))
    then have "pend start' (off + 1 + int (length ks)) s' i =
        (if off \<le> i \<and> i < off + 1 + int (length ks) \<and> bit msk ((k # ks) ! nat (i - off)) then src i
         else pend start off s i)" for i
      unfolding r(4) using sel [of i] False by (cases "i = off") (simp_all only: if_True if_False, auto)
    then show ?thesis unfolding len using r(1-3) False s1(1) by (auto simp: be_loop.simps)
  qed
qed (auto simp: pend_def be_loop.simps)

lemma pend_None: "pend None off s i = view s i"
  by (simp add: pend_def)

lemma loop4:
  assumes "ok s" "start_ok start off" "0 \<le> off" "off + 4 \<le> bound"
  obtains start' s' where "be_loop act msk [0, 1, 2, 3] start off s = Inr (start', off + 4, s')" "ok s'"
    "start_ok start' (off + 4)"
    "\<And>i. pend start' (off + 4) s' i =
       (if off \<le> i \<and> i < off + 4 \<and> bit msk (nat (i - off)) then src i else pend start off s i)"
proof -
  have l: "int (length [0, 1, 2, 3 :: nat]) = 4" by simp
  show thesis
    using loop_view [OF assms(1-3), of "[0, 1, 2, 3]" msk, unfolded l four_index, OF assms(4)] that by blast
qed

lemma dword_view:
  assumes "ok s" "4 \<le> bound"
  shows "\<exists>s'. be_dword act msk s = Inr s' \<and> ok s' \<and>
     (\<forall>i. view s' i = (if 0 \<le> i \<and> i < 4 \<and> bit msk (nat i) then src i else view s i))"
proof -
  obtain start s1 where "be_loop act msk [0, 1, 2, 3] None 0 s = Inr (start, 0 + 4, s1)" "ok s1" "start_ok start (0 + 4)"
    "\<And>i. pend start (0 + 4) s1 i = (if 0 \<le> i \<and> i < 0 + 4 \<and> bit msk (nat (i - 0)) then src i else pend None 0 s i)"
    by (rule loop4 [OF assms(1), of None 0 msk]) (use assms(2) in \<open>auto simp: start_ok_def\<close>)
  note s1 = this [unfolded add_0_left diff_zero pend_None]
  from flush_view [OF s1(2,3) assms(2)] obtain s' where s': "be_flush act start 4 s1 = Inr s'" "ok s'"
    "\<And>i. view s' i = pend start 4 s1 i" by blast
  then show ?thesis using s1(1) by (auto simp: be_dword_def s1(4))
qed

lemma dwords_view:
  assumes "ok s" "1 \<le> tlp_length t" "tlp_length t * 4 \<le> bound"
  shows "\<exists>s'. be_dwords act t s = Inr s' \<and> ok s' \<and> (\<forall>i. view s' i = (if be_enabled t i then src i else view s i))"
proof -
  let ?n = "tlp_length t"
  obtain start s1 where "be_loop act (tlp_first_be t) [0, 1, 2, 3] None 0 s = Inr (start, 0 + 4, s1)" "ok s1" "start_ok start (0 + 4)"
    "\<And>i. pend start (0 + 4) s1 i = (if 0 \<le> i \<and> i < 0 + 4 \<and> bit (tlp_first_be t) (nat (i - 0)) then src i else pend None 0 s i)"
    by (rule loop4 [OF assms(1), of None 0 "tlp_first_be t"]) (use assms(2,3) in \<open>auto simp: start_ok_def\<close>)
  note s1 = this [unfolded add_0_left diff_zero pend_None]
  show ?thesis
  proof (cases "?n = 1")
    case True
    from flush_view [OF s1(2,3)] assms(2,3) obtain s' where "be_flush act start 4 s1 = Inr s'" "ok s'"
      "\<And>i. view s' i = pend start 4 s1 i" by auto
    then show ?thesis using s1(1) True by (auto simp: be_dwords_def s1(4) be_enabled_def)
  next
    case False
    define st where "st = (if ?n > 2 then Some (case start of None \<Rightarrow> 4 | Some a \<Rightarrow> a) else start)"
    define off where "off = (?n - 1) * 4"
    have off: "(if ?n > 2 then 4 + (?n - 2) * 4 else 4) = off" using False assms(2) by (auto simp: off_def)
    have p: "pend st off s1 i = (if 4 \<le> i \<and> i < off then src i else pend start 4 s1 i)" for i
      using s1(3) False assms(2) by (auto simp: pend_def st_def off_def start_ok_def split: option.splits)
    have "start_ok st off" using s1(3) False assms(2)
      by (auto simp: st_def off_def start_ok_def split: option.splits)
    then obtain start2 s2 where
      s2: "be_loop act (tlp_last_be t) [0, 1, 2, 3] st off s1 = Inr (start2, off + 4, s2)" "ok s2" "start_ok start2 (off + 4)"
      "\<And>i. pend start2 (off + 4) s2 i =
        (if off \<le> i \<and> i < off + 4 \<and> bit (tlp_last_be t) (nat (i - off)) then src i else pend st off s1 i)"
      by (rule loop4 [OF s1(2), of st off "tlp_last_be t"]) (use assms(2,3) in \<open>auto simp: off_def\<close>)
    from flush_view [OF s2(2,3)] assms(2,3) obtain s' where s': "be_flush act start2 (off + 4) s2 = Inr s'" "ok s'"
      "\<And>i. view s' i = pend start2 (off + 4) s2 i" by (auto simp: off_def)
    have "be_dwords act t s = Inr s'"
      using s1(1) s2(1) s'(1) False assms(2) off by (auto simp: be_dwords_def st_def split: if_splits)
    moreover have "view s' i = (if be_enabled t i then src i else view s i)" for i
      unfolding s'(3) s2(4) p s1(4) using False assms(2) by (auto simp: be_enabled_def off_def)
    ultimately show ?thesis using s'(2) by auto
  qed
qed

end

section \<open>Bytes by position\<close>

definition byte_at :: "int list \<Rightarrow> int \<Rightarrow> int option" where
  "byte_at xs i = (if 0 \<le> i \<and> i < int (length xs) then Some (xs ! nat i) else None)"

lemma byte_at_slice:
  assumes "0 \<le> a" "a \<le> b" "b \<le> int (length xs)"
  shows "byte_at (py_slice a b xs) i = (if 0 \<le> i \<and> i < b - a then byte_at xs (a + i) else None)"
  using assms nth_py_slice [OF assms, of "nat i"]
  by (auto simp: byte_at_def length_py_slice nat_add_distrib)

lemma byte_at_slice_set:
  assumes "0 \<le> a" "a \<le> b" "b \<le> int (length xs)" "length ys = nat (b - a)"
  shows "byte_at (py_slice_set a b ys xs) i = (if a \<le> i \<and> i < b then byte_at ys (i - a) else byte_at xs i)"
  using assms nth_py_slice_set [OF assms, of "nat i"]
  by (auto simp: byte_at_def length_py_slice_set nat_diff_distrib)

text \<open>What a write of a run of the data does to the bytes at an offset.\<close>

lemma byte_at_write:
  assumes "0 \<le> addr" "0 \<le> a" "a < b" "b \<le> int (length data)" "addr + b \<le> int (length bs)"
  shows "length (py_slice_set (addr + a) (addr + a + int (length (py_slice a b data))) (py_slice a b data) bs) = length bs"
    "byte_at (py_slice_set (addr + a) (addr + a + int (length (py_slice a b data))) (py_slice a b data) bs) (addr + i) =
       (if a \<le> i \<and> i < b then byte_at data i else byte_at bs (addr + i))"
proof -
  have l: "length (py_slice a b data) = nat (b - a)" using assms by (simp add: length_py_slice)
  show "length (py_slice_set (addr + a) (addr + a + int (length (py_slice a b data))) (py_slice a b data) bs) = length bs"
    using assms l by (simp add: length_py_slice_set)
  show "byte_at (py_slice_set (addr + a) (addr + a + int (length (py_slice a b data))) (py_slice a b data) bs) (addr + i) =
       (if a \<le> i \<and> i < b then byte_at data i else byte_at bs (addr + i))"
    using assms l by (simp add: byte_at_slice_set byte_at_slice)
qed

section \<open>Writes to an endpoint\<close>

definition me_with :: "'a memory_endpoint_scheme \<Rightarrow> nat \<Rightarrow> int list \<Rightarrow> 'a memory_endpoint_scheme" where
  "me_with f r bs = f\<lparr>mem_regions := (mem_regions f)[r := ByteArray bs]\<rparr>"

definition me_ok :: "'a memory_endpoint_scheme \<Rightarrow> nat \<Rightarrow> nat \<Rightarrow> 'a memory_endpoint_scheme \<Rightarrow> bool" where
  "me_ok f0 r n f \<longleftrightarrow> r < length (mem_regions f0) \<and> (\<exists>bs. f = me_with f0 r bs \<and> length bs = n)"

definition me_view :: "nat \<Rightarrow> int \<Rightarrow> 'a memory_endpoint_scheme \<Rightarrow> int \<Rightarrow> int option" where
  "me_view r addr f i = (case mem_regions f ! r of ByteArray bs \<Rightarrow> byte_at bs (addr + i) | _ \<Rightarrow> None)"

definition room :: "int \<Rightarrow> int list \<Rightarrow> nat \<Rightarrow> int" where
  "room addr data n = (if 0 \<le> addr then min (int (length data)) (int n - addr) else 0)"

interpretation me_write: byte_mover "\<lambda>a b. write_region r (addr + a) (py_slice a b data)" "me_view r addr"
  "byte_at data" "room addr data n" "me_ok f0 r n" for r addr data n f0
proof (unfold_locales, goal_cases)
  case (1 f a b)
  then obtain bs where bs: "f = me_with f0 r bs" "length bs = n" "r < length (mem_regions f0)" by (auto simp: me_ok_def)
  have c: "0 \<le> addr" "0 \<le> a" "a < b" "b \<le> int (length data)" "addr + b \<le> int (length bs)"
    using 1 bs(2) by (auto simp: room_def split: if_splits)
  define bs' where "bs' = py_slice_set (addr + a) (addr + a + int (length (py_slice a b data))) (py_slice a b data) bs"
  have "write_region r (addr + a) (py_slice a b data) f = Inr (me_with f0 r bs')"
    using bs c by (auto simp: write_region_def me_with_def bs'_def)
  moreover have "me_ok f0 r n (me_with f0 r bs')" using bs byte_at_write(1) [OF c] by (auto simp: me_ok_def bs'_def)
  moreover have "me_view r addr (me_with f0 r bs') i = (if a \<le> i \<and> i < b then byte_at data i else me_view r addr f i)" for i
    using bs byte_at_write(2) [OF c] by (simp add: me_view_def me_with_def bs'_def)
  ultimately show ?case by blast
qed

section \<open>Reads from an endpoint\<close>

definition buf_ok :: "'a memory_endpoint_scheme \<Rightarrow> nat \<Rightarrow> int \<Rightarrow> int list \<Rightarrow> int list \<Rightarrow> bool" where
  "buf_ok f r addr bs data \<longleftrightarrow> r < length (mem_regions f) \<and> mem_regions f ! r = ByteArray bs \<and>
     0 \<le> addr \<and> addr + 4 \<le> int (length bs) \<and> length data = 4"

interpretation me_read: byte_mover
  "\<lambda>a b data. try_bind (read_region r (addr + a) (b - a) f) (\<lambda>d. Inr (py_slice_set a b d data))"
  byte_at "\<lambda>i. byte_at bs (addr + i)" 4 "buf_ok f r addr bs" for r addr f bs
proof (unfold_locales, goal_cases)
  case (1 data a b)
  let ?d = "py_slice (addr + a) (addr + b) bs"
  have c: "0 \<le> a" "a \<le> b" "b \<le> int (length data)" "0 \<le> addr + a" "addr + a \<le> addr + b" "addr + b \<le> int (length bs)"
    using 1 by (auto simp: buf_ok_def)
  have l: "length ?d = nat (b - a)" using c by (simp add: length_py_slice)
  have "read_region r (addr + a) (b - a) f = Inr ?d" using 1 by (auto simp: read_region_def buf_ok_def)
  moreover have "buf_ok f r addr bs (py_slice_set a b ?d data)"
    using 1 c l by (simp add: buf_ok_def length_py_slice_set)
  moreover have "byte_at (py_slice_set a b ?d data) i = (if a \<le> i \<and> i < b then byte_at bs (addr + i) else byte_at data i)" for i
    using c l by (simp add: byte_at_slice_set byte_at_slice)
  ultimately show ?case by auto
qed

section \<open>Writes to the root complex\<close>

lemma find_in_body [simp]: "find_in addr m (rs[k := (rs ! k)\<lparr>reg_body := x\<rparr>]) = find_in addr m rs"
proof (induction rs arbitrary: k m)
  case (Cons r rs)
  then show ?case by (cases k) simp_all
qed simp

lemma find_in_bound: "find_in addr m rs = Some k \<Longrightarrow> m \<le> k \<and> k < m + length rs"
  by (induction rs arbitrary: m) (fastforce split: if_splits)+

lemma mmap_set_run:
  assumes "0 \<le> addr" "0 \<le> a" "a < b" "b \<le> int (length data)" "addr + b \<le> int (length bs)"
  shows "mmap_set (addr + a) (py_slice a b data) bs =
     Inr (py_slice_set (addr + a) (addr + a + int (length (py_slice a b data))) (py_slice a b data) bs)"
  using assms by (simp add: mmap_set_def length_py_slice)

text \<open>The room for data at an address: it ends with the data, with the region and where another region begins.\<close>

definition rc_room :: "int \<Rightarrow> int list \<Rightarrow> nat \<Rightarrow> int \<Rightarrow> int \<Rightarrow> int" where
  "rc_room addr data n base lim = min (room (addr - base) data n) (lim - addr)"

definition rc_with :: "'a root_complex_scheme \<Rightarrow> nat \<Rightarrow> int list \<Rightarrow> 'a root_complex_scheme" where
  "rc_with s k bs = s\<lparr>rc_regions := (rc_regions s)[k := (rc_regions s ! k)\<lparr>reg_body := MMap bs\<rparr>]\<rparr>"

definition rc_ok ::
  "'a root_complex_scheme \<Rightarrow> nat \<Rightarrow> nat \<Rightarrow> int \<Rightarrow> int \<Rightarrow> int \<Rightarrow> 'a root_complex_scheme \<Rightarrow> bool" where
  "rc_ok s0 k n base addr lim s \<longleftrightarrow> k < length (rc_regions s0) \<and> reg_addr (rc_regions s0 ! k) = base \<and>
     (\<forall>x. addr \<le> x \<and> x < lim \<longrightarrow> find_region x s0 = Some k) \<and> (\<exists>bs. s = rc_with s0 k bs \<and> length bs = n)"

definition rc_view :: "nat \<Rightarrow> int \<Rightarrow> 'a root_complex_scheme \<Rightarrow> int \<Rightarrow> int option" where
  "rc_view k addr s i =
     (case reg_body (rc_regions s ! k) of MMap bs \<Rightarrow> byte_at bs (addr - reg_addr (rc_regions s ! k) + i) | _ \<Rightarrow> None)"

interpretation rc_write: byte_mover "\<lambda>a b. rc_write_region (addr + a) (py_slice a b data)" "rc_view k addr"
  "byte_at data" "rc_room addr data n base lim" "rc_ok s0 k n base addr lim" for addr data k n base lim s0
proof (unfold_locales, goal_cases)
  case (1 s a b)
  let ?r = "rc_regions s0 ! k"
  from 1 obtain bs where bs: "s = rc_with s0 k bs" "length bs = n" "k < length (rc_regions s0)" "reg_addr ?r = base"
    and lim: "\<And>x. addr \<le> x \<Longrightarrow> x < lim \<Longrightarrow> find_region x s0 = Some k" by (auto simp: rc_ok_def)
  have c: "0 \<le> addr - base" "0 \<le> a" "a < b" "b \<le> int (length data)" "addr - base + b \<le> int (length bs)"
    using 1 bs(2) by (auto simp: rc_room_def room_def split: if_splits)
  have off: "addr + a - base = addr - base + a" by simp
  define bs' where "bs' = py_slice_set (addr - base + a) (addr - base + a + int (length (py_slice a b data))) (py_slice a b data) bs"
  have "find_region (addr + a) s0 = Some k" using lim 1 by (simp add: rc_room_def)
  then have "rc_write_region (addr + a) (py_slice a b data) s = Inr (rc_with s0 k bs')"
    using bs mmap_set_run [OF c] by (simp add: rc_write_region_def rc_with_def bs'_def find_region_def off)
  moreover have "rc_ok s0 k n base addr lim (rc_with s0 k bs')"
    using bs lim byte_at_write(1) [OF c] by (auto simp: rc_ok_def bs'_def)
  moreover have "rc_view k addr (rc_with s0 k bs') i = (if a \<le> i \<and> i < b then byte_at data i else rc_view k addr s i)" for i
    using bs byte_at_write(2) [OF c] by (simp add: rc_view_def rc_with_def bs'_def)
  ultimately show ?case by blast
qed

definition rc_io_with :: "'a root_complex_scheme \<Rightarrow> nat \<Rightarrow> int list \<Rightarrow> 'a root_complex_scheme" where
  "rc_io_with s k bs = s\<lparr>rc_io_regions := (rc_io_regions s)[k := (rc_io_regions s ! k)\<lparr>reg_body := MMap bs\<rparr>]\<rparr>"

definition rc_io_ok ::
  "'a root_complex_scheme \<Rightarrow> nat \<Rightarrow> nat \<Rightarrow> int \<Rightarrow> int \<Rightarrow> int \<Rightarrow> 'a root_complex_scheme \<Rightarrow> bool" where
  "rc_io_ok s0 k n base addr lim s \<longleftrightarrow> k < length (rc_io_regions s0) \<and> reg_addr (rc_io_regions s0 ! k) = base \<and>
     (\<forall>x. addr \<le> x \<and> x < lim \<longrightarrow> find_io_region x s0 = Some k) \<and> (\<exists>bs. s = rc_io_with s0 k bs \<and> length bs = n)"

definition rc_io_view :: "nat \<Rightarrow> int \<Rightarrow> 'a root_complex_scheme \<Rightarrow> int \<Rightarrow> int option" where
  "rc_io_view k addr s i =
     (case reg_body (rc_io_regions s ! k) of MMap bs \<Rightarrow> byte_at bs (addr - reg_addr (rc_io_regions s ! k) + i) | _ \<Rightarrow> None)"

interpretation rc_io_write: byte_mover "\<lambda>a b. write_io_region (addr + a) (py_slice a b data)" "rc_io_view k addr"
  "byte_at data" "rc_room addr data n base lim" "rc_io_ok s0 k n base addr lim" for addr data k n base lim s0
proof (unfold_locales, goal_cases)
  case (1 s a b)
  let ?r = "rc_io_regions s0 ! k"
  from 1 obtain bs where bs: "s = rc_io_with s0 k bs" "length bs = n" "k < length (rc_io_regions s0)" "reg_addr ?r = base"
    and lim: "\<And>x. addr \<le> x \<Longrightarrow> x < lim \<Longrightarrow> find_io_region x s0 = Some k" by (auto simp: rc_io_ok_def)
  have c: "0 \<le> addr - base" "0 \<le> a" "a < b" "b \<le> int (length data)" "addr - base + b \<le> int (length bs)"
    using 1 bs(2) by (auto simp: rc_room_def room_def split: if_splits)
  have off: "addr + a - base = addr - base + a" by simp
  define bs' where "bs' = py_slice_set (addr - base + a) (addr - base + a + int (length (py_slice a b data))) (py_slice a b data) bs"
  have "find_io_region (addr + a) s0 = Some k" using lim 1 by (simp add: rc_room_def)
  then have "write_io_region (addr + a) (py_slice a b data) s = Inr (rc_io_with s0 k bs')"
    using bs mmap_set_run [OF c] by (simp add: write_io_region_def rc_io_with_def bs'_def find_io_region_def off)
  moreover have "rc_io_ok s0 k n base addr lim (rc_io_with s0 k bs')"
    using bs lim byte_at_write(1) [OF c] by (auto simp: rc_io_ok_def bs'_def)
  moreover have "rc_io_view k addr (rc_io_with s0 k bs') i = (if a \<le> i \<and> i < b then byte_at data i else rc_io_view k addr s i)" for i
    using bs byte_at_write(2) [OF c] by (simp add: rc_io_view_def rc_io_with_def bs'_def)
  ultimately show ?case by blast
qed

section \<open>Completions\<close>

text \<open>
  What a requester expects of the completions of a read of \<open>data\<close> from an address on: each
  carries the next double words, none is larger than the limit, all but the last end on a
  boundary of 128 bytes, and byte count and lower address describe what is still to come.
\<close>

fun cpls_ok :: "int \<Rightarrow> int \<Rightarrow> int \<Rightarrow> int list \<Rightarrow> tlp list \<Rightarrow> bool" where
  "cpls_ok lim addr bytes data [] \<longleftrightarrow> data = []"
| "cpls_ok lim addr bytes data (c # cs) \<longleftrightarrow>
     0 < tlp_length c \<and> tlp_length c \<le> lim \<and> check c \<and> tlp_length c * 4 \<le> int (length data) \<and>
     get_data c = Inr (take (nat (tlp_length c * 4)) data) \<and>
     tlp_byte_count c = bytes \<and> tlp_lower_address c = addr mod 128 \<and>
     (cs \<noteq> [] \<longrightarrow> (addr - addr mod 4 + tlp_length c * 4) mod 128 = 0) \<and>
     cpls_ok lim (addr - addr mod 4 + tlp_length c * 4) (bytes - (tlp_length c * 4 - addr mod 4))
       (drop (nat (tlp_length c * 4)) data) cs"

definition answers :: "tlp \<Rightarrow> pcie_id \<Rightarrow> tlp \<Rightarrow> bool" where
  "answers t cid c \<longleftrightarrow> fmt_type c = TLP_CPL_DATA \<and> tlp_status c = CPL_STATUS_SC \<and> tlp_completer_id c = cid \<and>
     tlp_tag c = tlp_tag t \<and> tlp_requester_id c = tlp_requester_id t \<and> tlp_tc c = tlp_tc t \<and> tlp_attr c = tlp_attr t"

lemma and_masks: "x AND 3 = x mod 4" "x AND 0x7f = x mod 128" "drop_bit 2 (x AND 0x7c) = x mod 128 div 4" for x :: int
proof -
  show "x AND 3 = x mod 4" "x AND 0x7f = x mod 128" by (simp_all add: mask_simps take_bit_eq_mod)
  have m: "(0x7c :: int) = push_bit 2 (mask 5)" by (simp add: push_bit_eq_mult mask_eq_exp_minus_1)
  have "drop_bit 2 (x AND 0x7c) = drop_bit 2 (take_bit 7 x)"
    unfolding m by (rule bit_eqI) (auto simp: bit_simps)
  then show "drop_bit 2 (x AND 0x7c) = x mod 128 div 4" by (simp add: take_bit_eq_mod drop_bit_eq_div)
qed

lemma cpl_dw_bounds:
  assumes "0 < left"
  shows "cpl_dw mps left addr \<le> left" "cpl_dw mps left addr \<le> 32 * 2 ^ nat mps"
    "cpl_dw mps left addr < left \<Longrightarrow> (addr - addr mod 4 + cpl_dw mps left addr * 4) mod 128 = 0"
proof -
  have p: "push_bit (nat mps) 32 = (32 * 2 ^ nat mps :: int)" by (simp add: push_bit_eq_mult)
  have e: "cpl_dw mps left addr = (if left > 32 * 2 ^ nat mps then 32 * 2 ^ nat mps - addr mod 128 div 4 else left)"
    unfolding cpl_dw_def p and_masks ..
  have "0 \<le> addr mod 128 div 4" by simp
  then show "cpl_dw mps left addr \<le> left" "cpl_dw mps left addr \<le> 32 * 2 ^ nat mps"
    using assms by (auto simp: e)
  assume "cpl_dw mps left addr < left"
  then have "cpl_dw mps left addr = 32 * 2 ^ nat mps - addr mod 128 div 4"
    by (simp add: e split: if_splits)
  then have "addr - addr mod 4 + cpl_dw mps left addr * 4 =
      128 * 2 ^ nat mps + (addr - addr mod 4 - addr mod 128 div 4 * 4)" by simp
  also have "addr mod 128 div 4 * 4 = addr mod 128 - addr mod 4"
    using minus_mod_eq_div_mult [of "addr mod 128" 4] by (simp add: mod_mod_cancel)
  finally have "addr - addr mod 4 + cpl_dw mps left addr * 4 = 128 * 2 ^ nat mps + (addr - addr mod 128)" by simp
  then have "addr - addr mod 4 + cpl_dw mps left addr * 4 = 128 * (2 ^ nat mps + addr div 128)"
    by (simp add: minus_mod_eq_mult_div algebra_simps)
  then show "(addr - addr mod 4 + cpl_dw mps left addr * 4) mod 128 = 0" by simp
qed

lemma slice_drop_take:
  "0 \<le> m \<Longrightarrow> 0 \<le> k \<Longrightarrow> (m + k) * 4 \<le> int (length data) \<Longrightarrow>
     py_slice (m * 4) ((m + k) * 4) data = take (nat (k * 4)) (drop (nat (m * 4)) data)"
  by (simp add: py_slice_def take_drop nat_add_distrib algebra_simps)

text \<open>One completion with data is accepted by the check of the sender.\<close>

lemma send_completion:
  assumes "length bs = 4 * nat k" "0 < k" "\<forall>b\<in>set bs. is_byte b" "bytes + addr mod 4 + 3 \<ge> k * 4"
  obtains c where
    "set_data bs ((set_completion_data t cid new_tlp)\<lparr>tlp_byte_count := bytes, tlp_lower_address := addr AND 0x7f\<rparr>) = Inr c"
    "upstream_send c = Inr [c]" "answers t cid c" "tlp_length c = k" "get_data c = Inr bs"
    "tlp_byte_count c = bytes" "tlp_lower_address c = addr mod 128" "check c"
proof -
  from dwords_ok [OF assms(1,3)] obtain ds where ds: "dwords bs = Inr ds" "length ds = nat k" "pack_dwords ds = Inr bs" by blast
  let ?c = "(set_completion_data t cid new_tlp)\<lparr>tlp_byte_count := bytes, tlp_lower_address := addr AND 0x7f,
    tlp_data := ds, tlp_length := int (length ds)\<rparr>"
  have m: "addr mod 128 mod 4 = addr mod 4" by (simp add: mod_mod_cancel)
  have "check ?c" using assms(2,4) ds(2) m
    by (simp add: check_def set_completion_data_def set_completion_def set_fmt_type_def fmt_type_def tlp_type_defs
        has_data_def is_mem_def is_io_def and_masks)
  then show thesis
    by (intro that [of ?c]) (use ds assms(2) in \<open>simp_all add: set_data_def upstream_send_def get_data_def and_masks
        answers_def set_completion_data_def set_completion_def set_fmt_type_def fmt_type_def\<close>)
qed

lemma cpl_loop_ok:
  assumes "0 \<le> m" "length data = 4 * nat dw_length" "m \<le> dw_length" "\<forall>b\<in>set data. is_byte b"
    "byte_length - n + addr mod 4 + 3 \<ge> (dw_length - m) * 4"
  shows "\<exists>cs. cpl_loop t cid mps data dw_length byte_length m n addr = Inr cs \<and> (\<forall>c\<in>set cs. answers t cid c) \<and>
     cpls_ok (32 * 2 ^ nat mps) addr (byte_length - n) (drop (nat (m * 4)) data) cs"
  using assms
proof (induction t cid mps data dw_length byte_length m n addr rule: cpl_loop.induct)
  case (1 t cid mps data dw_length byte_length m n addr)
  note IH = "1.IH" and p = "1.prems"
  show ?case
  proof (cases "m < dw_length")
    case False
    then show ?thesis using p by (subst cpl_loop.simps) simp
  next
    case True
    let ?k = "cpl_dw mps (dw_length - m) addr"
    let ?bs = "take (nat (?k * 4)) (drop (nat (m * 4)) data)"
    have left: "0 < dw_length - m" using True by simp
    note k = cpl_dw_pos [OF left, of mps addr] cpl_dw_bounds [OF left, of mps addr]
    have sl: "py_slice (m * 4) ((m + ?k) * 4) data = ?bs" by (rule slice_drop_take) (use k p in auto)
    have "length ?bs = 4 * nat ?k" "\<forall>b\<in>set ?bs. is_byte b" "byte_length - n + addr mod 4 + 3 \<ge> ?k * 4"
      using k p by (auto dest!: in_set_takeD in_set_dropD)
    then obtain c where c:
      "set_data ?bs ((set_completion_data t cid new_tlp)\<lparr>tlp_byte_count := byte_length - n, tlp_lower_address := addr AND 0x7f\<rparr>) = Inr c"
      "upstream_send c = Inr [c]" "answers t cid c" "tlp_length c = ?k" "get_data c = Inr ?bs"
      "tlp_byte_count c = byte_length - n" "tlp_lower_address c = addr mod 128" "check c"
      using send_completion [of ?bs ?k "byte_length - n" addr t cid] k(1) by metis
    have a: "addr + (?k * 4 - (addr AND 3)) = addr - addr mod 4 + ?k * 4" "n + (?k * 4 - (addr AND 3)) = n + (?k * 4 - addr mod 4)"
      unfolding and_masks by simp_all
    have "(addr - addr mod 4 + ?k * 4) mod 4 = 0" by presburger
    then obtain cs where cs: "cpl_loop t cid mps data dw_length byte_length (m + ?k)
        (n + (?k * 4 - (addr AND 3))) (addr + (?k * 4 - (addr AND 3))) = Inr cs" "\<forall>c\<in>set cs. answers t cid c"
      "cpls_ok (32 * 2 ^ nat mps) (addr - addr mod 4 + ?k * 4) (byte_length - (n + (?k * 4 - addr mod 4)))
         (drop (nat ((m + ?k) * 4)) data) cs"
      using IH [OF True refl _ _] k p c(1,2) unfolding a sl by (auto simp: algebra_simps)
    have "cs \<noteq> [] \<longrightarrow> ?k < dw_length - m" using cs(3) k p by (cases cs) auto
    moreover have "drop (nat ((m + ?k) * 4)) data = drop (nat (?k * 4)) (drop (nat (m * 4)) data)"
      using k p by (simp add: nat_add_distrib algebra_simps)
    ultimately have "cpls_ok (32 * 2 ^ nat mps) addr (byte_length - n) (drop (nat (m * 4)) data) (c # cs)"
      using cs(3) k p c(4-8) by (simp add: algebra_simps)
    moreover have "cpl_loop t cid mps data dw_length byte_length m n addr = Inr (c # cs)"
      using True c(1,2) cs(1) by (subst cpl_loop.simps) (simp only: sl Let_def if_True try_bind.simps, simp)
    ultimately show ?thesis using c(3) cs(2) by auto
  qed
qed

section \<open>Properties\<close>

lemma length_pack_dwords: "pack_dwords ds = Inr bs \<Longrightarrow> length bs = 4 * length ds"
  by (induction ds arbitrary: bs) (auto simp: pack_dword_def split: if_splits)

lemma length_get_data:
  assumes "check t" "has_data t" "get_data t = Inr data"
  shows "int (length data) = tlp_length t * 4"
  using assms length_pack_dwords by (fastforce simp: check_def get_data_def)

lemma handle_mem_write_bytes:
  assumes "check t" and "has_data t" and "get_data t = Inr data" and "1 \<le> tlp_length t"
    and "match_bar (tlp_address t) False f = Inr [(r, addr)]" and "\<not> crosses_4k t addr"
    and "r < length (mem_regions f)" and "mem_regions f ! r = ByteArray bs"
    and "0 \<le> addr" and "addr + tlp_length t * 4 \<le> int (length bs)"
  shows "\<exists>bs'. handle_mem_write_tlp t f = Inr (f\<lparr>mem_regions := (mem_regions f)[r := ByteArray bs']\<rparr>) \<and>
     length bs' = length bs \<and>
     (\<forall>i. byte_at bs' i = (if be_enabled t (i - addr) then byte_at data (i - addr) else byte_at bs i))"
proof -
  have len: "int (length data) = tlp_length t * 4" by (rule length_get_data [OF assms(1-3)])
  have "me_with f r bs = f" using assms(8) list_update_id [of "mem_regions f" r] by (simp add: me_with_def)
  then have "me_ok f r (length bs) f" using assms(7) by (auto simp: me_ok_def intro!: exI [of _ bs])
  moreover have "tlp_length t * 4 \<le> room addr data (length bs)" using assms(9,10) len by (simp add: room_def)
  ultimately obtain f' where f': "be_dwords (\<lambda>a b. write_region r (addr + a) (py_slice a b data)) t f = Inr f'"
    "me_ok f r (length bs) f'" "\<And>i. me_view r addr f' i = (if be_enabled t i then byte_at data i else me_view r addr f i)"
    using me_write.dwords_view [of f r "length bs" f t addr data] assms(4) by blast
  from f'(2) obtain bs' where bs': "f' = me_with f r bs'" "length bs' = length bs" by (auto simp: me_ok_def)
  have "byte_at bs' i = (if be_enabled t (i - addr) then byte_at data (i - addr) else byte_at bs i)" for i
    using f'(3) [of "i - addr"] assms(7,8) by (simp add: bs' me_view_def me_with_def)
  then show ?thesis using f'(1) bs' assms(3,5,6) by (auto simp: handle_mem_write_tlp_def me_with_def)
qed

text \<open>C21. A memory write that reaches a byte array behind a base address register changes exactly the
  bytes that its byte enables select, to the bytes of the packet, when the request fits into the
  array: every other byte of this region, the other regions and the rest of the function stay as
  they were, and the array keeps its length.\<close>

theorem mem_write_enabled_bytes:
  assumes "check t" and "has_data t" and "get_data t = Inr data" and "1 \<le> tlp_length t"
    and "match_bar (tlp_address t) False f = Inr [(r, addr)]" and "\<not> crosses_4k t addr"
    and "r < length (mem_regions f)" and "mem_regions f ! r = ByteArray bs"
    and "0 \<le> addr" and "addr + tlp_length t * 4 \<le> int (length bs)"
  shows "\<exists>bs'. handle_mem_write_tlp t f = Inr (f\<lparr>mem_regions := (mem_regions f)[r := ByteArray bs']\<rparr>) \<and>
     length bs' = length bs \<and>
     (\<forall>i. byte_at bs' i = (if be_enabled t (i - addr) then byte_at data (i - addr) else byte_at bs i))"
  by (rule handle_mem_write_bytes [OF assms])

theorem mem_write_enabled_bytes_witness:
  "\<exists>(f :: memory_endpoint) t bs'. handle_mem_write_tlp t f = Inr (f\<lparr>mem_regions := (mem_regions f)[0 := ByteArray bs']\<rparr>) \<and>
     set_be_data 5 [0xaa, 0xbb] (set_fmt_type TLP_MEM_WRITE new_tlp) = Inr t \<and>
     byte_at bs' 4 = Some 0 \<and> byte_at bs' 5 = Some 0xaa \<and> byte_at bs' 6 = Some 0xbb"
proof -
  let ?run = "try_bind new_memory_endpoint (add_mem_region (\<lambda>_. 4) 16 None False)"
  have "case ?run of Inl e \<Rightarrow> False
    | Inr f \<Rightarrow> match_bar 4 False f = Inr [(0, 4)] \<and> 0 < length (mem_regions f) \<and>
        (case mem_regions f ! 0 of ByteArray bs \<Rightarrow> bs = replicate 16 0 | _ \<Rightarrow> False)" by code_simp
  then obtain f :: memory_endpoint where f: "match_bar 4 False f = Inr [(0, 4)]" "0 < length (mem_regions f)"
    "mem_regions f ! 0 = ByteArray (replicate 16 0)" by (auto split: sum.splits mem_region.splits)
  have "case set_be_data 5 [0xaa, 0xbb] (set_fmt_type TLP_MEM_WRITE new_tlp) of Inl e \<Rightarrow> False
    | Inr t \<Rightarrow> check t \<and> has_data t \<and> get_data t = Inr [0, 0xaa, 0xbb, 0] \<and> tlp_length t = 1 \<and> tlp_address t = 4 \<and>
        \<not> crosses_4k t 4 \<and> \<not> be_enabled t 0 \<and> be_enabled t 1 \<and> be_enabled t 2" by code_simp
  then obtain t where t: "set_be_data 5 [0xaa, 0xbb] (set_fmt_type TLP_MEM_WRITE new_tlp) = Inr t" "check t" "has_data t"
    "get_data t = Inr [0, 0xaa, 0xbb, 0]" "tlp_length t = 1" "tlp_address t = 4" "\<not> crosses_4k t 4"
    "\<not> be_enabled t 0" "be_enabled t 1" "be_enabled t 2" by (auto split: sum.splits)
  from mem_write_enabled_bytes [OF t(2-4), of f 0 4 "replicate 16 0"] f t obtain bs' where
    bs': "handle_mem_write_tlp t f = Inr (f\<lparr>mem_regions := (mem_regions f)[0 := ByteArray bs']\<rparr>)"
    "\<forall>i. byte_at bs' i = (if be_enabled t (i - 4) then byte_at [0, 0xaa, 0xbb, 0] (i - 4) else byte_at (replicate 16 0) i)"
    by auto
  then have "byte_at bs' 4 = Some 0 \<and> byte_at bs' 5 = Some 0xaa \<and> byte_at bs' 6 = Some 0xbb"
    using t(8-10) by (simp add: bs'(2) byte_at_def [of "_ # _"] byte_at_def [of "replicate _ _"])
  then show ?thesis using bs'(1) t(1) by blast
qed

text \<open>C22. The same for a memory write to a memory map of the root complex, as long as all its addresses
  resolve to the same region.\<close>

theorem rc_mem_write_enabled_bytes:
  assumes "check t" and "has_data t" and "get_data t = Inr data" and "1 \<le> tlp_length t" and "is_mem t"
    and "\<forall>x. tlp_address t \<le> x \<and> x < tlp_address t + tlp_length t * 4 \<longrightarrow> find_region x s = Some k"
    and "reg_body (rc_regions s ! k) = MMap bs" and "reg_addr (rc_regions s ! k) \<le> tlp_address t"
    and "tlp_address t + tlp_length t * 4 \<le> reg_addr (rc_regions s ! k) + int (length bs)"
  shows "\<exists>bs'. rc_handle_mem_write_tlp t s =
       Inr (s\<lparr>rc_regions := (rc_regions s)[k := (rc_regions s ! k)\<lparr>reg_body := MMap bs'\<rparr>]\<rparr>) \<and>
     length bs' = length bs \<and>
     (\<forall>i. byte_at bs' i = (let j = i - (tlp_address t - reg_addr (rc_regions s ! k))
        in if be_enabled t j then byte_at data j else byte_at bs i))"
proof -
  let ?r = "rc_regions s ! k" and ?a = "tlp_address t"
  let ?top = "?a + tlp_length t * 4"
  have len: "int (length data) = tlp_length t * 4" by (rule length_get_data [OF assms(1-3)])
  have fr: "find_region ?a s = Some k" using assms(4,6) by simp
  then have k: "k < length (rc_regions s)" using find_in_bound by (fastforce simp: find_region_def)
  have "?r\<lparr>reg_body := MMap bs\<rparr> = ?r" unfolding assms(7) [symmetric] by simp
  then have "rc_with s k bs = s" by (simp add: rc_with_def)
  then have "\<exists>bs'. s = rc_with s k bs' \<and> length bs' = length bs" by (intro exI [of _ bs]) simp
  then have "rc_ok s k (length bs) (reg_addr ?r) ?a ?top s" using k assms(6) by (simp add: rc_ok_def)
  moreover have "tlp_length t * 4 \<le> rc_room ?a data (length bs) (reg_addr ?r) ?top"
    using assms(8,9) len by (simp add: rc_room_def room_def)
  ultimately obtain s' where s': "be_dwords (\<lambda>a b. rc_write_region (?a + a) (py_slice a b data)) t s = Inr s'"
    "rc_ok s k (length bs) (reg_addr ?r) ?a ?top s'"
    "\<And>i. rc_view k ?a s' i = (if be_enabled t i then byte_at data i else rc_view k ?a s i)"
    using rc_write.dwords_view [of s k "length bs" "reg_addr ?r" ?a ?top s t data] assms(4) by blast
  from s'(2) obtain bs' where bs': "s' = rc_with s k bs'" "length bs' = length bs" by (auto simp: rc_ok_def)
  have "byte_at bs' i = (let j = i - (?a - reg_addr ?r) in if be_enabled t j then byte_at data j else byte_at bs i)" for i
    using s'(3) [of "i - (?a - reg_addr ?r)"] k assms(7) by (simp add: bs' rc_view_def rc_with_def Let_def)
  moreover have "\<not> crosses_4k t ?a" using assms(1,5) by (simp add: check_def crosses_4k_def)
  ultimately show ?thesis using s'(1) bs' assms(3) fr by (auto simp: rc_handle_mem_write_tlp_def rc_with_def)
qed

theorem rc_mem_write_enabled_bytes_witness:
  "\<exists>(s :: root_complex) t bs'. rc_handle_mem_write_tlp t s =
       Inr (s\<lparr>rc_regions := (rc_regions s)[0 := (rc_regions s ! 0)\<lparr>reg_body := MMap bs'\<rparr>]\<rparr>) \<and>
     alloc_region (\<lambda>_. 4) 16 None init_root_complex = Inr (s, 0) \<and>
     set_be_data 5 [0xaa, 0xbb] (set_fmt_type TLP_MEM_WRITE new_tlp) = Inr t \<and>
     byte_at bs' 4 = Some 0 \<and> byte_at bs' 5 = Some 0xaa"
proof -
  have "align 0 15 = 0" by (simp add: align_def)
  then obtain s :: root_complex where s: "alloc_region (\<lambda>_. 4) 16 None init_root_complex = Inr (s, 0)"
    "rc_regions s = [\<lparr>reg_addr = 0, reg_size = 16, reg_body = MMap (replicate 16 0)\<rparr>]"
    by (simp add: alloc_region_def init_root_complex_def new_region_def)
  have "case set_be_data 5 [0xaa, 0xbb] (set_fmt_type TLP_MEM_WRITE new_tlp) of Inl e \<Rightarrow> False
    | Inr t \<Rightarrow> check t \<and> has_data t \<and> get_data t = Inr [0, 0xaa, 0xbb, 0] \<and> tlp_length t = 1 \<and> tlp_address t = 4 \<and>
        is_mem t \<and> \<not> be_enabled t 0 \<and> be_enabled t 1" by code_simp
  then obtain t where t: "set_be_data 5 [0xaa, 0xbb] (set_fmt_type TLP_MEM_WRITE new_tlp) = Inr t" "check t" "has_data t"
    "get_data t = Inr [0, 0xaa, 0xbb, 0]" "tlp_length t = 1" "tlp_address t = 4" "is_mem t"
    "\<not> be_enabled t 0" "be_enabled t 1" by (auto split: sum.splits)
  from rc_mem_write_enabled_bytes [OF t(2-4), of s 0 "replicate 16 0"] s t obtain bs' where
    bs': "rc_handle_mem_write_tlp t s = Inr (s\<lparr>rc_regions := (rc_regions s)[0 := (rc_regions s ! 0)\<lparr>reg_body := MMap bs'\<rparr>]\<rparr>)"
    "\<forall>i. byte_at bs' i = (if be_enabled t (i - 4) then byte_at [0, 0xaa, 0xbb, 0] (i - 4) else byte_at (replicate 16 0) i)"
    by (auto simp: find_region_def)
  then have "byte_at bs' 4 = Some 0 \<and> byte_at bs' 5 = Some 0xaa"
    using t(8,9) by (simp add: bs'(2) byte_at_def [of "_ # _"] byte_at_def [of "replicate _ _"])
  then show ?thesis using bs'(1) s(1) t(1) by blast
qed

lemma mem_completions_ok:
  assumes "0 \<le> tlp_length t" and "length data = 4 * nat (tlp_length t)" and "\<forall>b\<in>set data. is_byte b"
    and "tlp_address t mod 4 = 0"
  shows "\<exists>cs. mem_completions t cid mps data = Inr cs \<and> (\<forall>c\<in>set cs. answers t cid c) \<and>
     cpls_ok (32 * 2 ^ nat mps) (tlp_address t + get_first_be_offset t) (get_be_byte_count t) data cs"
proof -
  have "0 \<le> get_first_be_offset t" "get_first_be_offset t \<le> 3" "get_last_be_offset t \<le> 3"
    by (auto simp: get_first_be_offset_def get_last_be_offset_def Let_def)
  moreover from this assms(4) have "(tlp_address t + get_first_be_offset t) mod 4 = get_first_be_offset t" by presburger
  ultimately show ?thesis
    using cpl_loop_ok [of 0 data "tlp_length t" "get_be_byte_count t" 0 "tlp_address t + get_first_be_offset t" t cid mps] assms(1-3)
    by (simp add: mem_completions_def get_be_byte_count_def)
qed

text \<open>C23. The completions of a memory read. For data of whole double words the loop that cuts it into
  completions ends and never trips the sender's check: every completion answers the request, carries the
  next double words and at most the payload limit, all but the last end on a boundary of 128 bytes,
  and byte count and lower address describe the bytes still to come.\<close>

theorem mem_completions_correct:
  assumes "0 \<le> tlp_length t" and "length data = 4 * nat (tlp_length t)" and "\<forall>b\<in>set data. is_byte b"
    and "tlp_address t mod 4 = 0"
  shows "\<exists>cs. mem_completions t cid mps data = Inr cs \<and> (\<forall>c\<in>set cs. answers t cid c) \<and>
     cpls_ok (32 * 2 ^ nat mps) (tlp_address t + get_first_be_offset t) (get_be_byte_count t) data cs"
  by (rule mem_completions_ok [OF assms])

theorem mem_completions_correct_witness:
  "\<exists>cs. mem_completions (new_tlp\<lparr>tlp_address := 0x1040, tlp_length := 40, tlp_first_be := 0xe, tlp_last_be := 0xf\<rparr>)
       (PcieId 1 0 0) 0 (replicate 160 7) = Inr cs \<and>
     cpls_ok 32 0x1041 159 (replicate 160 7) cs"
proof -
  let ?t = "new_tlp\<lparr>tlp_address := 0x1040, tlp_length := 40, tlp_first_be := 0xe, tlp_last_be := 0xf\<rparr>"
  have "get_first_be_offset ?t = 1" "get_be_byte_count ?t = 159" by code_simp+
  then show ?thesis using mem_completions_correct [of ?t "replicate 160 7" "PcieId 1 0 0" 0] by (auto simp: is_byte_def)
qed

end
