(* ===== verification/PCIE_Alloc.thy ===== *)
theory PCIE_Alloc
  imports PCIE_Memory_Correct
begin

text \<open>
  The allocation of regions by the root complex: when they are disjoint and found again, and when
  they overlap.
\<close>

section \<open>Allocation of regions\<close>

fun alloc_all ::
  "(int \<Rightarrow> nat) \<Rightarrow> (int \<times> region_body option) list \<Rightarrow> 'a root_complex_scheme \<Rightarrow> py_error + 'a root_complex_scheme" where
  "alloc_all clog2 [] s = Inr s"
| "alloc_all clog2 ((sz, body) # reqs) s =
     try_bind (alloc_region clog2 sz body s) (\<lambda>(s', addr). alloc_all clog2 reqs s')"

definition before :: "rc_region \<Rightarrow> rc_region \<Rightarrow> bool" where
  "before a b \<longleftrightarrow> reg_addr a + reg_size a \<le> reg_addr b"

definition regions_ok :: "'a root_complex_scheme \<Rightarrow> bool" where
  "regions_ok s \<longleftrightarrow> sorted_wrt before (rc_regions s) \<and> 0 \<le> region_limit s \<and>
     (\<forall>r\<in>set (rc_regions s). 0 < reg_size r \<and> reg_addr r + reg_size r \<le> region_limit s + 1) \<and>
     (rc_regions s \<noteq> [] \<longrightarrow> region_limit s mod 2 = 1)"

lemma align_ge:
  assumes "0 \<le> v"
  shows "v \<le> align v (2 ^ k - 1)" "align v (2 ^ k - 1) mod 2 ^ k = 0"
proof -
  show "align v (2 ^ k - 1) mod 2 ^ k = 0" using align_mask [OF assms, of k] by simp
  have "v + 2 ^ k - 1 = (v + 2 ^ k - 1) div 2 ^ k * 2 ^ k + (v + 2 ^ k - 1) mod 2 ^ k" by (rule div_mult_mod_eq [symmetric])
  moreover have "(v + 2 ^ k - 1) mod 2 ^ k < (2 :: int) ^ k" by simp
  ultimately show "v \<le> align v (2 ^ k - 1)" unfolding align_mask [OF assms] by linarith
qed

lemma alloc_region_ok:
  assumes "regions_ok s" "2 \<le> sz" "sz mod 2 = 0" "sz \<le> 2 ^ clog2 sz"
  shows "\<exists>s' addr. alloc_region clog2 sz body s = Inr (s', addr) \<and> regions_ok s' \<and>
     rc_regions s' = rc_regions s @ [new_region addr sz body] \<and> addr mod 2 ^ clog2 sz = 0"
proof -
  let ?a = "align (region_limit s) (2 ^ clog2 sz - 1)"
  have lim: "0 \<le> region_limit s" using assms(1) by (simp add: regions_ok_def)
  note al = align_ge [OF lim, of "clog2 sz"]
  have "clog2 sz \<noteq> 0" using assms(2,4) by (intro notI) simp
  then have even: "?a mod 2 = 0" using al(2) by (metis dvd_eq_mod_eq_0 dvd_power dvd_trans gr0I)
  have "region_limit s + 1 \<le> ?a" if "rc_regions s \<noteq> []"
    using that assms(1) al(1) even by (cases "region_limit s = ?a") (auto simp: regions_ok_def)
  moreover have "(?a + sz - 1) mod 2 = 1" using even assms(3) by presburger
  ultimately have "regions_ok (s\<lparr>region_limit := ?a + sz - 1, rc_regions := rc_regions s @ [new_region ?a sz body]\<rparr>)"
    using assms(1,2) lim al(1) by (fastforce simp: regions_ok_def sorted_wrt_append before_def new_region_def)
  then show ?thesis using assms(2) al(2) by (simp add: alloc_region_def Let_def)
qed

lemma find_in_sorted:
  "sorted_wrt before rs \<Longrightarrow> \<forall>r\<in>set rs. 0 < reg_size r \<Longrightarrow> k < length rs \<Longrightarrow>
   reg_addr (rs ! k) \<le> x \<Longrightarrow> x < reg_addr (rs ! k) + reg_size (rs ! k) \<Longrightarrow> find_in x m rs = Some (m + k)"
proof (induction rs arbitrary: k m)
  case (Cons r rs)
  show ?case
  proof (cases k)
    case (Suc j)
    then have "before r (rs ! j)" using Cons.prems by simp
    then have "\<not> x < reg_addr r + reg_size r" using Cons.prems(4) Suc by (simp add: before_def)
    then show ?thesis using Cons.IH [of j "m + 1"] Cons.prems Suc by simp
  qed (use Cons.prems in simp)
qed simp

text \<open>C24. Regions of even sizes that the root complex allocates one after the other are aligned to the next
  power of two and pairwise disjoint, in ascending order, and every address in one of
  them is found in this one. The hypothesis on the logarithm is that it is not too small.\<close>

theorem alloc_regions_disjoint:
  assumes "\<forall>(sz, body) \<in> set reqs. 2 \<le> sz \<and> sz mod 2 = 0" and "\<forall>sz. sz \<le> 2 ^ clog2 sz"
  shows "\<exists>s'. alloc_all clog2 reqs init_root_complex = Inr s' \<and> map reg_size (rc_regions s') = map fst reqs \<and>
     sorted_wrt before (rc_regions s') \<and> (\<forall>r\<in>set (rc_regions s'). reg_addr r mod 2 ^ clog2 (reg_size r) = 0) \<and>
     (\<forall>k x. k < length (rc_regions s') \<longrightarrow> reg_addr (rc_regions s' ! k) \<le> x \<longrightarrow>
        x < reg_addr (rc_regions s' ! k) + reg_size (rc_regions s' ! k) \<longrightarrow> find_region x s' = Some k)"
proof -
  have "\<exists>s'. alloc_all clog2 reqs s = Inr s' \<and> regions_ok s' \<and>
      map reg_size (rc_regions s') = map reg_size (rc_regions s) @ map fst reqs \<and>
      (\<forall>r\<in>set (rc_regions s'). reg_addr r mod 2 ^ clog2 (reg_size r) = 0)"
    if "regions_ok s" "\<forall>r\<in>set (rc_regions s). reg_addr r mod 2 ^ clog2 (reg_size r) = 0" for s :: root_complex
    using that assms(1)
  proof (induction reqs arbitrary: s)
    case (Cons q reqs)
    obtain sz body where q: "q = (sz, body)" by (cases q)
    from alloc_region_ok [OF Cons.prems(1), of sz clog2 body] Cons.prems(3) assms(2) q obtain s1 addr where s1:
      "alloc_region clog2 sz body s = Inr (s1, addr)" "regions_ok s1"
      "rc_regions s1 = rc_regions s @ [new_region addr sz body]" "addr mod 2 ^ clog2 sz = 0" by auto
    from Cons.IH [OF s1(2)] Cons.prems(2,3) s1(3,4) obtain s' where
      "alloc_all clog2 reqs s1 = Inr s'" "regions_ok s'"
      "map reg_size (rc_regions s') = map reg_size (rc_regions s1) @ map fst reqs"
      "\<forall>r\<in>set (rc_regions s'). reg_addr r mod 2 ^ clog2 (reg_size r) = 0" by (auto simp: new_region_def)
    then show ?case using s1 q by (simp add: new_region_def)
  qed simp
  moreover have "regions_ok init_root_complex" "rc_regions init_root_complex = []"
    by (simp_all add: regions_ok_def init_root_complex_def)
  ultimately obtain s' where s': "alloc_all clog2 reqs init_root_complex = Inr s'" "regions_ok s'"
    "map reg_size (rc_regions s') = map fst reqs"
    "\<forall>r\<in>set (rc_regions s'). reg_addr r mod 2 ^ clog2 (reg_size r) = 0" by force
  moreover have "find_region x s' = Some k" if "k < length (rc_regions s')" "reg_addr (rc_regions s' ! k) \<le> x"
    "x < reg_addr (rc_regions s' ! k) + reg_size (rc_regions s' ! k)" for k x
    using find_in_sorted [of "rc_regions s'" k x 0] that s'(2) by (simp add: find_region_def regions_ok_def)
  ultimately show ?thesis by (auto simp: regions_ok_def)
qed

theorem alloc_regions_disjoint_witness:
  "\<exists>s'. alloc_all (\<lambda>sz. nat sz) [(4096, None), (6, None), (1024, None)] init_root_complex = Inr s' \<and>
     sorted_wrt before (rc_regions s') \<and> map reg_size (rc_regions s') = [4096, 6, 1024]"
proof -
  have "sz \<le> 2 ^ nat sz" for sz :: int
  proof (cases "0 \<le> sz")
    case True
    then have "int (nat sz) \<le> int (2 ^ nat sz)" by (intro of_nat_mono less_imp_le less_exp)
    then show ?thesis using True by simp
  next
    case False
    then have "sz \<le> 0" by simp
    also have "0 \<le> (2 :: int) ^ nat sz" by simp
    finally show ?thesis .
  qed
  then have "\<forall>sz. sz \<le> 2 ^ nat sz" by blast
  moreover have "\<forall>(sz, body) \<in> set [(4096, None), (6, None), (1024, None :: region_body option)]. 2 \<le> sz \<and> sz mod 2 = (0 :: int)" by simp
  ultimately have "\<exists>s'. alloc_all nat [(4096, None), (6, None), (1024, None)] init_root_complex = Inr s' \<and>
      map reg_size (rc_regions s') = map fst [(4096, None), (6, None), (1024, None :: region_body option)] \<and>
      sorted_wrt before (rc_regions s')"
    using alloc_regions_disjoint [of "[(4096, None), (6, None), (1024, None)]" nat] by meson
  then show ?thesis by auto
qed

text \<open>C25. An odd size breaks this. After a region of one byte more than a power of two, a region of this
  power of two is allocated on top of its last byte: the first byte of the new region belongs to
  the old one, so reading or writing it through the bus reaches the old memory.\<close>

theorem alloc_regions_overlap:
  assumes "clog2 (2 ^ k + 1) = Suc k" and "clog2 (2 ^ k) = k"
  shows "\<exists>s1 s2. alloc_region clog2 (2 ^ k + 1) None init_root_complex = Inr (s1, 0) \<and>
     alloc_region clog2 (2 ^ k) None s1 = Inr (s2, 2 ^ k) \<and> find_region (2 ^ k) s2 = Some 0"
proof -
  have "align 0 m = 0" for m :: int by (simp add: align_def)
  moreover have "align (2 ^ k) (2 ^ k - 1) = 2 ^ k"
    by (simp add: align_def flip: mask_eq_exp_minus_1 take_bit_eq_mask)
  moreover have p: "\<not> (2 ^ k + 1 \<le> (0 :: int))" using zero_less_power [of "2 :: int" k] by linarith
  ultimately show ?thesis
    using assms by (simp add: alloc_region_def init_root_complex_def find_region_def new_region_def Let_def p)
qed

theorem alloc_regions_overlap_witness:
  "\<exists>s1 s2. alloc_region (\<lambda>sz. if sz \<le> 4 then 2 else 3) 5 None init_root_complex = Inr (s1, 0) \<and>
     alloc_region (\<lambda>sz. if sz \<le> 4 then 2 else 3) 4 None s1 = Inr (s2, 4) \<and> find_region 4 s2 = Some 0"
  using alloc_regions_overlap [of "\<lambda>sz. if sz \<le> 4 then 2 else 3" 2] by simp

end
