(* ===== verification/PCIE_Requests.thy ===== *)
theory PCIE_Requests
  imports PCIE_RootComplex
begin

text \<open>
  The requests that functions and the root complex send: reads and writes of configuration, IO and
  memory space (methods \<open>io_read\<close>, \<open>mem_write\<close>, \<open>config_read\<close> and their variants in
  \<open>Function\<close> and \<open>RootComplex\<close> of \<open>pcie.py\<close>).

  Between the sending of a request and the arrival of its completion the simulation goes on, so
  the state \<open>'s\<close> of everything a requester can see and influence is a parameter. The record
  \<open>port\<close> says how the requester acts on it: the free tag it takes, its identifier and
  limits at the moment, the sending of a packet and the wait for a completion, whose value is
  None after a timeout. A read of memory waits for completions until all bytes have
  arrived, which may be forever: it has the type of a run.
\<close>

record 's port =
  port_tag :: "'s \<Rightarrow> 's \<times> int option"
  port_id :: "'s \<Rightarrow> pcie_id"
  port_mps :: "'s \<Rightarrow> int"
  port_mrrs :: "'s \<Rightarrow> int"
  port_send :: "tlp \<Rightarrow> 's \<Rightarrow> py_error + 's"
  port_recv :: "int \<Rightarrow> int \<Rightarrow> 's \<Rightarrow> py_error + ('s \<times> tlp option)"

section \<open>Parts of a request\<close>

text \<open>Without a free tag the packet cannot be formatted for the log.\<close>

definition with_tag :: "'s port \<Rightarrow> 's \<Rightarrow> ('s \<Rightarrow> int \<Rightarrow> py_error + 'b) \<Rightarrow> py_error + 'b" where
  "with_tag p s k = (case port_tag p s of (s', None) \<Rightarrow> Inl TypeError | (s', Some tag) \<Rightarrow> k s' tag)"

definition request :: "fmt_type \<Rightarrow> pcie_id \<Rightarrow> int \<Rightarrow> tlp" where
  "request ft rid tag = (set_fmt_type ft new_tlp)\<lparr>tlp_requester_id := rid, tlp_tag := tag\<rparr>"

text \<open>The bytes of a completion of one double word.\<close>

definition cpl_dword :: "tlp \<Rightarrow> py_error + int list" where
  "cpl_dword c =
     (if tlp_length c \<noteq> 1 then Inl AssertionError
      else case tlp_data c of [] \<Rightarrow> Inl IndexError | d # _ \<Rightarrow> pack_dword d)"

text \<open>The bytes of a completion of a memory read.\<close>

definition cpl_bytes :: "tlp \<Rightarrow> py_error + int list" where
  "cpl_bytes c =
     try_bind (pack_dwords (take (nat (tlp_length c)) (tlp_data c))) (\<lambda>d.
       if tlp_length c \<le> int (length (tlp_data c)) then Inr d else Inl IndexError)"

definition expect_sc :: "tlp option \<Rightarrow> py_error + tlp" where
  "expect_sc c =
     (case c of
        None \<Rightarrow> Inl (OtherException ''Timeout'')
      | Some c \<Rightarrow> if tlp_status c \<noteq> CPL_STATUS_SC then Inl (OtherException ''Unsuccessful completion'') else Inr c)"

definition dword_chunk :: "int \<Rightarrow> int \<Rightarrow> int" where
  "dword_chunk addr left = min left (4 - addr mod 4)"

definition mem_chunk :: "int \<Rightarrow> int \<Rightarrow> int \<Rightarrow> int" where
  "mem_chunk size_code addr left =
     min (min left (push_bit (nat size_code) 128 - addr mod 4)) (0x1000 - (addr AND 0xfff))"

lemma dword_chunk_pos: "0 < left \<Longrightarrow> 0 < dword_chunk addr left"
  by (simp add: dword_chunk_def)

lemma mem_chunk_pos: "0 < left \<Longrightarrow> 0 < mem_chunk size_code addr left"
proof -
  have "addr AND 0xfff \<le> (0xfff :: int)" by (rule AND_upper2) simp
  moreover have "(128 :: int) \<le> push_bit (nat size_code) 128" by (simp add: push_bit_eq_mult)
  moreover have "addr mod 4 < 4" by simp
  ultimately show "0 < left \<Longrightarrow> 0 < mem_chunk size_code addr left" by (simp add: mem_chunk_def)
qed

section \<open>IO space\<close>

function io_read_loop ::
  "'s port \<Rightarrow> int \<Rightarrow> int \<Rightarrow> int \<Rightarrow> int \<Rightarrow> int list \<Rightarrow> 's \<Rightarrow> py_error + ('s \<times> int list)" where
  "io_read_loop p timeout len addr n data s =
     (if n < len
      then with_tag p s (\<lambda>s1 tag.
             let k = dword_chunk addr (len - n);
                 t = fst (set_be addr k (request TLP_IO_READ (port_id p s1) tag))
             in try_bind (port_send p t s1) (\<lambda>s2.
                try_bind (port_recv p tag timeout s2) (\<lambda>(s3, c).
                try_bind (expect_sc c) (\<lambda>c.
                try_bind (cpl_dword c) (\<lambda>d.
                io_read_loop p timeout len (addr + k) (n + k) (data @ drop (nat (addr mod 4)) d) s3)))))
      else Inr (s, take (nat len) data))"
  by pat_completeness auto
termination
  by (relation "measure (\<lambda>(p, timeout, len, addr, n, data, s). nat (len - n))") (use dword_chunk_pos in \<open>force+\<close>)

declare io_read_loop.simps [simp del]

function io_write_loop ::
  "'s port \<Rightarrow> int \<Rightarrow> int list \<Rightarrow> int \<Rightarrow> int \<Rightarrow> 's \<Rightarrow> py_error + 's" where
  "io_write_loop p timeout data addr n s =
     (if n < int (length data)
      then with_tag p s (\<lambda>s1 tag.
             let k = dword_chunk addr (int (length data) - n)
             in try_bind (set_be_data addr (py_slice n (n + k) data) (request TLP_IO_WRITE (port_id p s1) tag)) (\<lambda>t.
                try_bind (port_send p t s1) (\<lambda>s2.
                try_bind (port_recv p tag timeout s2) (\<lambda>(s3, c).
                try_bind (expect_sc c) (\<lambda>c.
                io_write_loop p timeout data (addr + k) (n + k) s3)))))
      else Inr s)"
  by pat_completeness auto
termination
  by (relation "measure (\<lambda>(p, timeout, data, addr, n, s). nat (int (length data) - n))") (use dword_chunk_pos in \<open>force+\<close>)

declare io_write_loop.simps [simp del]

section \<open>Memory space\<close>

definition mem_type :: "int \<Rightarrow> fmt_type \<Rightarrow> fmt_type \<Rightarrow> fmt_type" where
  "mem_type addr t32 t64 = (if addr > 0xffffffff then t64 else t32)"

function mem_write_loop ::
  "'s port \<Rightarrow> int \<Rightarrow> int \<Rightarrow> int list \<Rightarrow> int \<Rightarrow> int \<Rightarrow> 's \<Rightarrow> py_error + 's" where
  "mem_write_loop p attr tc data addr n s =
     (if n < int (length data)
      then let k = mem_chunk (port_mps p s) addr (int (length data) - n);
               t0 = (request (mem_type addr TLP_MEM_WRITE TLP_MEM_WRITE_64) (port_id p s) 0)\<lparr>tlp_attr := attr, tlp_tc := tc\<rparr>
           in try_bind (set_be_data addr (py_slice n (n + k) data) t0) (\<lambda>t.
              try_bind (port_send p t s) (\<lambda>s1.
              mem_write_loop p attr tc data (addr + k) (n + k) s1))
      else Inr s)"
  by pat_completeness auto
termination
  by (relation "measure (\<lambda>(p, attr, tc, data, addr, n, s). nat (int (length data) - n))") (use mem_chunk_pos in \<open>force+\<close>)

declare mem_write_loop.simps [simp del]

text \<open>The completions of one read request, which are to bring \<open>k\<close> bytes.\<close>

partial_function (option) collect ::
  "'s port \<Rightarrow> int \<Rightarrow> int \<Rightarrow> int \<Rightarrow> int \<Rightarrow> int list \<Rightarrow> 's \<Rightarrow> ('s \<times> int list) run" where
  "collect p timeout tag k m data s =
     (if m < k
      then run_bind (Some (port_recv p tag timeout s)) (\<lambda>(s1, c).
           run_bind (Some (expect_sc c)) (\<lambda>c.
           if \<not> tlp_byte_count c + 3 + (tlp_lower_address c AND 3) \<ge> tlp_length c * 4 then run_raise AssertionError
           else if tlp_byte_count c \<noteq> k - m then run_raise AssertionError
           else run_bind (Some (cpl_bytes c)) (\<lambda>d.
                let offset = tlp_lower_address c AND 3
                in collect p timeout tag k (m + (int (length d) - offset))
                     (data @ py_slice offset (offset + tlp_byte_count c) d) s1)))
      else run_return (s, data))"

text \<open>
  The argument \<open>whole\<close> tells the two copies of the method apart: the one of functions computes the
  byte enables of every request for the whole length of the read instead of its own.
\<close>

partial_function (option) mem_read_loop ::
  "'s port \<Rightarrow> bool \<Rightarrow> int \<Rightarrow> int \<Rightarrow> int \<Rightarrow> int \<Rightarrow> int \<Rightarrow> int \<Rightarrow> int list \<Rightarrow> 's \<Rightarrow> ('s \<times> int list) run" where
  "mem_read_loop p whole timeout attr tc len addr n data s =
     (if n < len
      then run_bind (Some (with_tag p s (\<lambda>s1 tag. Inr (s1, tag)))) (\<lambda>(s1, tag).
           let k = mem_chunk (port_mrrs p s1) addr (len - n);
               t0 = (request (mem_type addr TLP_MEM_READ TLP_MEM_READ_64) (port_id p s1) tag)\<lparr>tlp_attr := attr, tlp_tc := tc\<rparr>;
               t = fst (set_be addr (if whole then len else k) t0)
           in run_bind (Some (port_send p t s1)) (\<lambda>s2.
              run_bind (collect p timeout tag k 0 data s2) (\<lambda>(s3, data').
              mem_read_loop p whole timeout attr tc len (addr + k) (n + k) data' s3)))
      else run_return (s, data))"

section \<open>Words\<close>

definition word_size_ok :: "int \<Rightarrow> bool" where
  "word_size_ok ws \<longleftrightarrow> ws \<in> {1, 2, 4, 8}"

definition words_of :: "int \<Rightarrow> int \<Rightarrow> int list \<Rightarrow> int list" where
  "words_of ws cnt data = map (\<lambda>k. le_value (py_slice (ws * int k) (ws * (int k + 1)) data)) [0..<nat cnt]"

fun bytes_of :: "int \<Rightarrow> int list \<Rightarrow> py_error + int list" where
  "bytes_of ws [] = Inr []"
| "bytes_of ws (w # rest) =
     (if 0 \<le> w \<and> w < 256 ^ nat ws
      then try_bind (bytes_of ws rest) (\<lambda>bs. Inr (le_bytes (nat ws) w @ bs))
      else Inl OverflowError)"

definition first_word :: "'s \<times> int list \<Rightarrow> py_error + ('s \<times> int)" where
  "first_word r = (case snd r of [] \<Rightarrow> Inl IndexError | w # _ \<Rightarrow> Inr (fst r, w))"

definition first_word_run :: "'s \<times> int list \<Rightarrow> ('s \<times> int) run" where
  "first_word_run r = Some (first_word r)"

section \<open>Words of a read and of a write\<close>

text \<open>The value of a read is None when bus mastering is off or when a callable was read.\<close>

definition opt_words :: "int \<Rightarrow> int \<Rightarrow> int list option \<Rightarrow> py_error + int list" where
  "opt_words ws cnt d =
     (case d of
        None \<Rightarrow> if 0 < cnt then Inl TypeError else Inr []
      | Some bs \<Rightarrow> Inr (words_of ws cnt bs))"

definition read_words ::
  "(int \<Rightarrow> 's \<Rightarrow> ('s \<times> int list option) run) \<Rightarrow> int \<Rightarrow> int \<Rightarrow> 's \<Rightarrow> ('s \<times> int list) run" where
  "read_words rd ws cnt s =
     (if \<not> word_size_ok ws then run_raise AssertionError
      else run_bind (rd (cnt * ws) s) (\<lambda>(s', d). Some (try_bind (opt_words ws cnt d) (\<lambda>w. Inr (s', w)))))"

definition read_first :: "('s \<Rightarrow> ('s \<times> int list) run) \<Rightarrow> 's \<Rightarrow> ('s \<times> int) run" where
  "read_first rd s = run_bind (rd s) first_word_run"

definition read_byte :: "('s \<Rightarrow> ('s \<times> int list option) run) \<Rightarrow> 's \<Rightarrow> ('s \<times> int) run" where
  "read_byte rd s =
     run_bind (rd s) (\<lambda>(s', d). case d of None \<Rightarrow> run_raise TypeError | Some bs \<Rightarrow> first_word_run (s', bs))"

definition write_words ::
  "(int list \<Rightarrow> 's \<Rightarrow> py_error + 's) \<Rightarrow> int \<Rightarrow> int list \<Rightarrow> 's \<Rightarrow> py_error + 's" where
  "write_words wr ws words s =
     (if \<not> word_size_ok ws then Inl AssertionError else try_bind (bytes_of ws words) (\<lambda>data. wr data s))"

section \<open>Requests of a function\<close>

record ('s, 'a) lens =
  lens_get :: "'s \<Rightarrow> 'a"
  lens_put :: "'a \<Rightarrow> 's \<Rightarrow> 's"

text \<open>
  The port of a function that is a part of the state: \<open>deliver\<close> is its transmit handler,
  \<open>wait\<close> the progress of the simulation until the synchronisation signal of the tag changes or the
  time is up. The code waits whether or not a completion is queued already; a wait that is never over is \<open>Blocked\<close>.
\<close>

definition fn_port ::
  "('s, 'a pfunction_scheme) lens \<Rightarrow> (tlp \<Rightarrow> 's \<Rightarrow> py_error + 's) \<Rightarrow> (int \<Rightarrow> int \<Rightarrow> 's \<Rightarrow> py_error + 's) \<Rightarrow> 's port" where
  "fn_port l deliver wait =
     \<lparr>port_tag = (\<lambda>s. case get_free_tag (lens_get l s) of (f, t) \<Rightarrow> (lens_put l f s, t)),
      port_id = (\<lambda>s. get_id (lens_get l s)),
      port_mps = (\<lambda>s. max_payload_size (pr_device_ctrl (pcie (lens_get l s)))),
      port_mrrs = (\<lambda>s. max_read_request_size (pr_device_ctrl (pcie (lens_get l s)))),
      port_send = (\<lambda>t s. try_bind (upstream_send t) (\<lambda>_. deliver t s)),
      port_recv = (\<lambda>tag timeout s.
        try_bind (wait tag timeout s) (\<lambda>s1.
        try_bind (recv_cpl tag (rx_cpl_queues (lens_get l s1))) (\<lambda>(q, c).
          Inr (lens_put l ((lens_get l s1)\<lparr>rx_cpl_queues := q\<rparr>) s1, c))))\<rparr>"

definition mastering :: "('s, 'a pfunction_scheme) lens \<Rightarrow> 's \<Rightarrow> bool" where
  "mastering l s = bus_master_enable (lens_get l s)"

definition fn_io_read ::
  "('s, 'a pfunction_scheme) lens \<Rightarrow> 's port \<Rightarrow> int \<Rightarrow> int \<Rightarrow> int \<Rightarrow> 's \<Rightarrow> ('s \<times> int list option) run" where
  "fn_io_read l p addr timeout len s =
     (if \<not> mastering l s then run_return (s, None)
      else run_bind (Some (io_read_loop p timeout len addr 0 [] s)) (\<lambda>(s', d). run_return (s', Some d)))"

definition fn_io_write ::
  "('s, 'a pfunction_scheme) lens \<Rightarrow> 's port \<Rightarrow> int \<Rightarrow> int \<Rightarrow> int list \<Rightarrow> 's \<Rightarrow> py_error + 's" where
  "fn_io_write l p addr timeout data s =
     (if \<not> mastering l s then Inr s else io_write_loop p timeout data addr 0 s)"

definition fn_mem_read ::
  "('s, 'a pfunction_scheme) lens \<Rightarrow> 's port \<Rightarrow> int \<Rightarrow> int \<Rightarrow> int \<Rightarrow> int \<Rightarrow> int \<Rightarrow> 's \<Rightarrow> ('s \<times> int list option) run" where
  "fn_mem_read l p addr timeout attr tc len s =
     (if \<not> mastering l s then run_return (s, None)
      else run_bind (mem_read_loop p True timeout attr tc len addr 0 [] s) (\<lambda>(s', d). run_return (s', Some d)))"

definition fn_mem_write ::
  "('s, 'a pfunction_scheme) lens \<Rightarrow> 's port \<Rightarrow> int \<Rightarrow> int \<Rightarrow> int \<Rightarrow> int list \<Rightarrow> 's \<Rightarrow> py_error + 's" where
  "fn_mem_write l p addr attr tc data s =
     (if \<not> mastering l s then Inr s else mem_write_loop p attr tc data addr 0 s)"

text \<open>
  The word variants of the IO methods pass more arguments than \<open>io_read\<close> and \<open>io_write\<close> take:
  TypeError, once the word size and the words themselves are accepted.
\<close>

definition io_read_words :: "int \<Rightarrow> int \<Rightarrow> int \<Rightarrow> py_error + int list" where
  "io_read_words addr cnt ws = (if \<not> word_size_ok ws then Inl AssertionError else Inl TypeError)"

definition io_read_dwords :: "int \<Rightarrow> int \<Rightarrow> py_error + int list" where
  "io_read_dwords addr cnt = io_read_words addr cnt 4"

definition io_read_qwords :: "int \<Rightarrow> int \<Rightarrow> py_error + int list" where
  "io_read_qwords addr cnt = io_read_words addr cnt 8"

definition io_read_byte :: "int \<Rightarrow> py_error + int" where
  "io_read_byte addr = Inl TypeError"

definition hd_or_raise :: "int list \<Rightarrow> py_error + int" where
  "hd_or_raise ws = (case ws of [] \<Rightarrow> Inl IndexError | w # _ \<Rightarrow> Inr w)"

definition io_read_word :: "int \<Rightarrow> py_error + int" where
  "io_read_word addr = try_bind (io_read_words addr 1 2) hd_or_raise"

definition io_read_dword :: "int \<Rightarrow> py_error + int" where
  "io_read_dword addr = try_bind (io_read_dwords addr 1) hd_or_raise"

definition io_read_qword :: "int \<Rightarrow> py_error + int" where
  "io_read_qword addr = try_bind (io_read_qwords addr 1) hd_or_raise"

definition io_write_words :: "int \<Rightarrow> int list \<Rightarrow> int \<Rightarrow> py_error + unit" where
  "io_write_words addr words ws =
     (if \<not> word_size_ok ws then Inl AssertionError else try_bind (bytes_of ws words) (\<lambda>_. Inl TypeError))"

definition io_write_dwords :: "int \<Rightarrow> int list \<Rightarrow> py_error + unit" where
  "io_write_dwords addr words = io_write_words addr words 4"

definition io_write_qwords :: "int \<Rightarrow> int list \<Rightarrow> py_error + unit" where
  "io_write_qwords addr words = io_write_words addr words 8"

definition io_write_byte :: "int \<Rightarrow> int \<Rightarrow> py_error + unit" where
  "io_write_byte addr b = Inl TypeError"

definition io_write_word :: "int \<Rightarrow> int \<Rightarrow> py_error + unit" where
  "io_write_word addr w = io_write_words addr [w] 2"

definition io_write_dword :: "int \<Rightarrow> int \<Rightarrow> py_error + unit" where
  "io_write_dword addr w = io_write_dwords addr [w]"

definition io_write_qword :: "int \<Rightarrow> int \<Rightarrow> py_error + unit" where
  "io_write_qword addr w = io_write_qwords addr [w]"

definition fn_mem_read_words ::
  "('s, 'a pfunction_scheme) lens \<Rightarrow> 's port \<Rightarrow> int \<Rightarrow> int \<Rightarrow> int \<Rightarrow> int \<Rightarrow> int \<Rightarrow> int \<Rightarrow> 's \<Rightarrow> ('s \<times> int list) run" where
  "fn_mem_read_words l p addr cnt ws timeout attr tc = read_words (fn_mem_read l p addr timeout attr tc) ws cnt"

definition fn_mem_read_dwords ::
  "('s, 'a pfunction_scheme) lens \<Rightarrow> 's port \<Rightarrow> int \<Rightarrow> int \<Rightarrow> int \<Rightarrow> int \<Rightarrow> int \<Rightarrow> 's \<Rightarrow> ('s \<times> int list) run" where
  "fn_mem_read_dwords l p addr cnt timeout attr tc = fn_mem_read_words l p addr cnt 4 timeout attr tc"

definition fn_mem_read_qwords ::
  "('s, 'a pfunction_scheme) lens \<Rightarrow> 's port \<Rightarrow> int \<Rightarrow> int \<Rightarrow> int \<Rightarrow> int \<Rightarrow> int \<Rightarrow> 's \<Rightarrow> ('s \<times> int list) run" where
  "fn_mem_read_qwords l p addr cnt timeout attr tc = fn_mem_read_words l p addr cnt 8 timeout attr tc"

definition fn_mem_read_byte ::
  "('s, 'a pfunction_scheme) lens \<Rightarrow> 's port \<Rightarrow> int \<Rightarrow> int \<Rightarrow> int \<Rightarrow> int \<Rightarrow> 's \<Rightarrow> ('s \<times> int) run" where
  "fn_mem_read_byte l p addr timeout attr tc = read_byte (fn_mem_read l p addr timeout attr tc 1)"

definition fn_mem_read_word ::
  "('s, 'a pfunction_scheme) lens \<Rightarrow> 's port \<Rightarrow> int \<Rightarrow> int \<Rightarrow> int \<Rightarrow> int \<Rightarrow> 's \<Rightarrow> ('s \<times> int) run" where
  "fn_mem_read_word l p addr timeout attr tc = read_first (fn_mem_read_words l p addr 1 2 timeout attr tc)"

definition fn_mem_read_dword ::
  "('s, 'a pfunction_scheme) lens \<Rightarrow> 's port \<Rightarrow> int \<Rightarrow> int \<Rightarrow> int \<Rightarrow> int \<Rightarrow> 's \<Rightarrow> ('s \<times> int) run" where
  "fn_mem_read_dword l p addr timeout attr tc = read_first (fn_mem_read_dwords l p addr 1 timeout attr tc)"

definition fn_mem_read_qword ::
  "('s, 'a pfunction_scheme) lens \<Rightarrow> 's port \<Rightarrow> int \<Rightarrow> int \<Rightarrow> int \<Rightarrow> int \<Rightarrow> 's \<Rightarrow> ('s \<times> int) run" where
  "fn_mem_read_qword l p addr timeout attr tc = read_first (fn_mem_read_qwords l p addr 1 timeout attr tc)"

definition fn_mem_write_words ::
  "('s, 'a pfunction_scheme) lens \<Rightarrow> 's port \<Rightarrow> int \<Rightarrow> int list \<Rightarrow> int \<Rightarrow> int \<Rightarrow> int \<Rightarrow> 's \<Rightarrow> py_error + 's" where
  "fn_mem_write_words l p addr words ws attr tc = write_words (fn_mem_write l p addr attr tc) ws words"

definition fn_mem_write_dwords ::
  "('s, 'a pfunction_scheme) lens \<Rightarrow> 's port \<Rightarrow> int \<Rightarrow> int list \<Rightarrow> int \<Rightarrow> int \<Rightarrow> 's \<Rightarrow> py_error + 's" where
  "fn_mem_write_dwords l p addr words attr tc = fn_mem_write_words l p addr words 4 attr tc"

definition fn_mem_write_qwords ::
  "('s, 'a pfunction_scheme) lens \<Rightarrow> 's port \<Rightarrow> int \<Rightarrow> int list \<Rightarrow> int \<Rightarrow> int \<Rightarrow> 's \<Rightarrow> py_error + 's" where
  "fn_mem_write_qwords l p addr words attr tc = fn_mem_write_words l p addr words 8 attr tc"

definition fn_mem_write_word ::
  "('s, 'a pfunction_scheme) lens \<Rightarrow> 's port \<Rightarrow> int \<Rightarrow> int \<Rightarrow> int \<Rightarrow> int \<Rightarrow> 's \<Rightarrow> py_error + 's" where
  "fn_mem_write_word l p addr w attr tc = fn_mem_write_words l p addr [w] 2 attr tc"

definition fn_mem_write_dword ::
  "('s, 'a pfunction_scheme) lens \<Rightarrow> 's port \<Rightarrow> int \<Rightarrow> int \<Rightarrow> int \<Rightarrow> int \<Rightarrow> 's \<Rightarrow> py_error + 's" where
  "fn_mem_write_dword l p addr w attr tc = fn_mem_write_dwords l p addr [w] attr tc"

definition fn_mem_write_qword ::
  "('s, 'a pfunction_scheme) lens \<Rightarrow> 's port \<Rightarrow> int \<Rightarrow> int \<Rightarrow> int \<Rightarrow> int \<Rightarrow> 's \<Rightarrow> py_error + 's" where
  "fn_mem_write_qword l p addr w attr tc = fn_mem_write_qwords l p addr [w] attr tc"

text \<open>A list of one byte cannot be appended to the padding: TypeError, unless nothing is sent.\<close>

definition fn_mem_write_byte ::
  "('s, 'a pfunction_scheme) lens \<Rightarrow> 's port \<Rightarrow> int \<Rightarrow> int \<Rightarrow> int \<Rightarrow> int \<Rightarrow> 's \<Rightarrow> py_error + 's" where
  "fn_mem_write_byte l p addr b attr tc s = (if \<not> mastering l s then Inr s else Inl TypeError)"

section \<open>Requests of the root complex\<close>

definition rc_port ::
  "('s, 'a root_complex_scheme) lens \<Rightarrow> (tlp \<Rightarrow> 's \<Rightarrow> py_error + 's) \<Rightarrow> (int \<Rightarrow> int \<Rightarrow> 's \<Rightarrow> py_error + 's) \<Rightarrow> 's port" where
  "rc_port l deliver wait =
     \<lparr>port_tag = (\<lambda>s. case rc_get_free_tag (lens_get l s) of (r, t) \<Rightarrow> (lens_put l r s, t)),
      port_id = (\<lambda>s. PcieId 0 0 0),
      port_mps = (\<lambda>s. rc_max_payload_size (lens_get l s)),
      port_mrrs = (\<lambda>s. rc_max_read_request_size (lens_get l s)),
      port_send = (\<lambda>t s. try_bind (downstream_send t) (\<lambda>_. deliver t s)),
      port_recv = (\<lambda>tag timeout s.
        try_bind (wait tag timeout s) (\<lambda>s1.
        try_bind (rc_recv_cpl tag (lens_get l s1)) (\<lambda>(r, c). Inr (lens_put l r s1, c))))\<rparr>"

text \<open>Configuration space: an unsuccessful read gives ones, the result of a write is not examined.\<close>

function config_read_loop ::
  "'s port \<Rightarrow> pcie_id \<Rightarrow> int \<Rightarrow> int \<Rightarrow> int \<Rightarrow> int \<Rightarrow> int list \<Rightarrow> 's \<Rightarrow> py_error + ('s \<times> int list)" where
  "config_read_loop p dev timeout len addr n data s =
     (if n < len
      then with_tag p s (\<lambda>s1 tag.
             let k = dword_chunk addr (len - n);
                 t = fst (set_be addr k ((request TLP_CFG_READ_1 (PcieId 0 0 0) tag)\<lparr>tlp_dest_id := dev\<rparr>))
             in try_bind (port_send p (t\<lparr>tlp_register_number := drop_bit 2 addr\<rparr>) s1) (\<lambda>s2.
                try_bind (port_recv p tag timeout s2) (\<lambda>(s3, c).
                try_bind (case c of
                            None \<Rightarrow> Inr [0xff, 0xff, 0xff, 0xff]
                          | Some c \<Rightarrow> if tlp_status c \<noteq> CPL_STATUS_SC then Inr [0xff, 0xff, 0xff, 0xff] else cpl_dword c) (\<lambda>d.
                config_read_loop p dev timeout len (addr + k) (n + k) (data @ drop (nat (addr mod 4)) d) s3))))
      else Inr (s, take (nat len) data))"
  by pat_completeness auto
termination
  by (relation "measure (\<lambda>(p, dev, timeout, len, addr, n, data, s). nat (len - n))") (use dword_chunk_pos in \<open>force+\<close>)

declare config_read_loop.simps [simp del]

function config_write_loop ::
  "'s port \<Rightarrow> pcie_id \<Rightarrow> int \<Rightarrow> int list \<Rightarrow> int \<Rightarrow> int \<Rightarrow> 's \<Rightarrow> py_error + 's" where
  "config_write_loop p dev timeout data addr n s =
     (if n < int (length data)
      then with_tag p s (\<lambda>s1 tag.
             let k = dword_chunk addr (int (length data) - n)
             in try_bind (set_be_data addr (py_slice n (n + k) data)
                   ((request TLP_CFG_WRITE_1 (PcieId 0 0 0) tag)\<lparr>tlp_dest_id := dev\<rparr>)) (\<lambda>t.
                try_bind (port_send p (t\<lparr>tlp_register_number := drop_bit 2 addr\<rparr>) s1) (\<lambda>s2.
                try_bind (port_recv p tag timeout s2) (\<lambda>(s3, c).
                config_write_loop p dev timeout data (addr + k) (n + k) s3))))
      else Inr s)"
  by pat_completeness auto
termination
  by (relation "measure (\<lambda>(p, dev, timeout, data, addr, n, s). nat (int (length data) - n))") (use dword_chunk_pos in \<open>force+\<close>)

declare config_write_loop.simps [simp del]

definition rc_config_read :: "pcie_id \<Rightarrow> 's port \<Rightarrow> int \<Rightarrow> int \<Rightarrow> int \<Rightarrow> 's \<Rightarrow> ('s \<times> int list option) run" where
  "rc_config_read dev p addr timeout len s =
     run_bind (Some (config_read_loop p dev timeout len addr 0 [] s)) (\<lambda>(s', d). run_return (s', Some d))"

definition rc_config_write :: "pcie_id \<Rightarrow> 's port \<Rightarrow> int \<Rightarrow> int \<Rightarrow> int list \<Rightarrow> 's \<Rightarrow> py_error + 's" where
  "rc_config_write dev p addr timeout data s = config_write_loop p dev timeout data addr 0 s"

definition rc_config_read_words ::
  "pcie_id \<Rightarrow> 's port \<Rightarrow> int \<Rightarrow> int \<Rightarrow> int \<Rightarrow> int \<Rightarrow> 's \<Rightarrow> ('s \<times> int list) run" where
  "rc_config_read_words dev p addr cnt ws timeout = read_words (rc_config_read dev p addr timeout) ws cnt"

definition rc_config_read_dwords ::
  "pcie_id \<Rightarrow> 's port \<Rightarrow> int \<Rightarrow> int \<Rightarrow> int \<Rightarrow> 's \<Rightarrow> ('s \<times> int list) run" where
  "rc_config_read_dwords dev p addr cnt timeout = rc_config_read_words dev p addr cnt 4 timeout"

definition rc_config_read_qwords ::
  "pcie_id \<Rightarrow> 's port \<Rightarrow> int \<Rightarrow> int \<Rightarrow> int \<Rightarrow> 's \<Rightarrow> ('s \<times> int list) run" where
  "rc_config_read_qwords dev p addr cnt timeout = rc_config_read_words dev p addr cnt 8 timeout"

definition rc_config_read_byte ::
  "pcie_id \<Rightarrow> 's port \<Rightarrow> int \<Rightarrow> int \<Rightarrow> 's \<Rightarrow> ('s \<times> int) run" where
  "rc_config_read_byte dev p addr timeout = read_byte (rc_config_read dev p addr timeout 1)"

definition rc_config_read_word ::
  "pcie_id \<Rightarrow> 's port \<Rightarrow> int \<Rightarrow> int \<Rightarrow> 's \<Rightarrow> ('s \<times> int) run" where
  "rc_config_read_word dev p addr timeout = read_first (rc_config_read_words dev p addr 1 2 timeout)"

definition rc_config_read_dword ::
  "pcie_id \<Rightarrow> 's port \<Rightarrow> int \<Rightarrow> int \<Rightarrow> 's \<Rightarrow> ('s \<times> int) run" where
  "rc_config_read_dword dev p addr timeout = read_first (rc_config_read_dwords dev p addr 1 timeout)"

definition rc_config_read_qword ::
  "pcie_id \<Rightarrow> 's port \<Rightarrow> int \<Rightarrow> int \<Rightarrow> 's \<Rightarrow> ('s \<times> int) run" where
  "rc_config_read_qword dev p addr timeout = read_first (rc_config_read_qwords dev p addr 1 timeout)"

definition rc_config_write_words ::
  "pcie_id \<Rightarrow> 's port \<Rightarrow> int \<Rightarrow> int list \<Rightarrow> int \<Rightarrow> int \<Rightarrow> 's \<Rightarrow> py_error + 's" where
  "rc_config_write_words dev p addr words ws timeout = write_words (rc_config_write dev p addr timeout) ws words"

definition rc_config_write_dwords ::
  "pcie_id \<Rightarrow> 's port \<Rightarrow> int \<Rightarrow> int list \<Rightarrow> int \<Rightarrow> 's \<Rightarrow> py_error + 's" where
  "rc_config_write_dwords dev p addr words timeout = rc_config_write_words dev p addr words 4 timeout"

definition rc_config_write_qwords ::
  "pcie_id \<Rightarrow> 's port \<Rightarrow> int \<Rightarrow> int list \<Rightarrow> int \<Rightarrow> 's \<Rightarrow> py_error + 's" where
  "rc_config_write_qwords dev p addr words timeout = rc_config_write_words dev p addr words 8 timeout"

definition rc_config_write_word ::
  "pcie_id \<Rightarrow> 's port \<Rightarrow> int \<Rightarrow> int \<Rightarrow> int \<Rightarrow> 's \<Rightarrow> py_error + 's" where
  "rc_config_write_word dev p addr w timeout = rc_config_write_words dev p addr [w] 2 timeout"

definition rc_config_write_dword ::
  "pcie_id \<Rightarrow> 's port \<Rightarrow> int \<Rightarrow> int \<Rightarrow> int \<Rightarrow> 's \<Rightarrow> py_error + 's" where
  "rc_config_write_dword dev p addr w timeout = rc_config_write_dwords dev p addr [w] timeout"

definition rc_config_write_qword ::
  "pcie_id \<Rightarrow> 's port \<Rightarrow> int \<Rightarrow> int \<Rightarrow> int \<Rightarrow> 's \<Rightarrow> py_error + 's" where
  "rc_config_write_qword dev p addr w timeout = rc_config_write_qwords dev p addr [w] timeout"

text \<open>
  A single byte is passed as a list. The tag is taken first, then the padding and the list
  cannot be joined.
\<close>

definition rc_config_write_byte :: "pcie_id \<Rightarrow> 's port \<Rightarrow> int \<Rightarrow> int \<Rightarrow> int \<Rightarrow> 's \<Rightarrow> py_error + 's" where
  "rc_config_write_byte dev p addr b timeout s = with_tag p s (\<lambda>s1 tag. Inl TypeError)"

text \<open>
  IO and memory space. A local region is accessed directly; the test for one looks at the memory
  regions in both cases.
\<close>

definition rc_io_read ::
  "('s, 'a root_complex_scheme) lens \<Rightarrow> 's port \<Rightarrow> int \<Rightarrow> int \<Rightarrow> int \<Rightarrow> 's \<Rightarrow> ('s \<times> int list option) run" where
  "rc_io_read l p addr timeout len s =
     (if find_region addr (lens_get l s) \<noteq> None
      then run_bind (Some (read_io_region addr len (lens_get l s))) (\<lambda>d. run_return (s, Some d))
      else run_bind (Some (io_read_loop p timeout len addr 0 [] s)) (\<lambda>(s', d). run_return (s', Some d)))"

definition rc_io_write ::
  "('s, 'a root_complex_scheme) lens \<Rightarrow> 's port \<Rightarrow> int \<Rightarrow> int \<Rightarrow> int list \<Rightarrow> 's \<Rightarrow> py_error + 's" where
  "rc_io_write l p addr timeout data s =
     (if find_region addr (lens_get l s) \<noteq> None
      then try_bind (write_io_region addr data (lens_get l s)) (\<lambda>r. Inr (lens_put l r s))
      else io_write_loop p timeout data addr 0 s)"

definition rc_mem_read ::
  "('s, 'a root_complex_scheme) lens \<Rightarrow> 's port \<Rightarrow> int \<Rightarrow> int \<Rightarrow> int \<Rightarrow> int \<Rightarrow> int \<Rightarrow> 's \<Rightarrow> ('s \<times> int list option) run" where
  "rc_mem_read l p addr timeout attr tc len s =
     (if find_region addr (lens_get l s) \<noteq> None
      then run_bind (Some (rc_read_region addr len (lens_get l s))) (\<lambda>(r, d). run_return (lens_put l r s, d))
      else run_bind (mem_read_loop p False timeout attr tc len addr 0 [] s) (\<lambda>(s', d). run_return (s', Some d)))"

definition rc_mem_write ::
  "('s, 'a root_complex_scheme) lens \<Rightarrow> 's port \<Rightarrow> int \<Rightarrow> int \<Rightarrow> int \<Rightarrow> int list \<Rightarrow> 's \<Rightarrow> py_error + 's" where
  "rc_mem_write l p addr attr tc data s =
     (if find_region addr (lens_get l s) \<noteq> None
      then try_bind (rc_write_region addr data (lens_get l s)) (\<lambda>r. Inr (lens_put l r s))
      else mem_write_loop p attr tc data addr 0 s)"

definition rc_mem_read_words ::
  "('s, 'a root_complex_scheme) lens \<Rightarrow> 's port \<Rightarrow> int \<Rightarrow> int \<Rightarrow> int \<Rightarrow> int \<Rightarrow> int \<Rightarrow> int \<Rightarrow> 's \<Rightarrow> ('s \<times> int list) run" where
  "rc_mem_read_words l p addr cnt ws timeout attr tc = read_words (rc_mem_read l p addr timeout attr tc) ws cnt"

definition rc_mem_read_dwords ::
  "('s, 'a root_complex_scheme) lens \<Rightarrow> 's port \<Rightarrow> int \<Rightarrow> int \<Rightarrow> int \<Rightarrow> int \<Rightarrow> int \<Rightarrow> 's \<Rightarrow> ('s \<times> int list) run" where
  "rc_mem_read_dwords l p addr cnt timeout attr tc = rc_mem_read_words l p addr cnt 4 timeout attr tc"

definition rc_mem_read_qwords ::
  "('s, 'a root_complex_scheme) lens \<Rightarrow> 's port \<Rightarrow> int \<Rightarrow> int \<Rightarrow> int \<Rightarrow> int \<Rightarrow> int \<Rightarrow> 's \<Rightarrow> ('s \<times> int list) run" where
  "rc_mem_read_qwords l p addr cnt timeout attr tc = rc_mem_read_words l p addr cnt 8 timeout attr tc"

definition rc_mem_read_byte ::
  "('s, 'a root_complex_scheme) lens \<Rightarrow> 's port \<Rightarrow> int \<Rightarrow> int \<Rightarrow> int \<Rightarrow> int \<Rightarrow> 's \<Rightarrow> ('s \<times> int) run" where
  "rc_mem_read_byte l p addr timeout attr tc = read_byte (rc_mem_read l p addr timeout attr tc 1)"

definition rc_mem_read_word ::
  "('s, 'a root_complex_scheme) lens \<Rightarrow> 's port \<Rightarrow> int \<Rightarrow> int \<Rightarrow> int \<Rightarrow> int \<Rightarrow> 's \<Rightarrow> ('s \<times> int) run" where
  "rc_mem_read_word l p addr timeout attr tc = read_first (rc_mem_read_words l p addr 1 2 timeout attr tc)"

definition rc_mem_read_dword ::
  "('s, 'a root_complex_scheme) lens \<Rightarrow> 's port \<Rightarrow> int \<Rightarrow> int \<Rightarrow> int \<Rightarrow> int \<Rightarrow> 's \<Rightarrow> ('s \<times> int) run" where
  "rc_mem_read_dword l p addr timeout attr tc = read_first (rc_mem_read_dwords l p addr 1 timeout attr tc)"

definition rc_mem_read_qword ::
  "('s, 'a root_complex_scheme) lens \<Rightarrow> 's port \<Rightarrow> int \<Rightarrow> int \<Rightarrow> int \<Rightarrow> int \<Rightarrow> 's \<Rightarrow> ('s \<times> int) run" where
  "rc_mem_read_qword l p addr timeout attr tc = read_first (rc_mem_read_qwords l p addr 1 timeout attr tc)"

definition rc_mem_write_words ::
  "('s, 'a root_complex_scheme) lens \<Rightarrow> 's port \<Rightarrow> int \<Rightarrow> int list \<Rightarrow> int \<Rightarrow> int \<Rightarrow> int \<Rightarrow> 's \<Rightarrow> py_error + 's" where
  "rc_mem_write_words l p addr words ws attr tc = write_words (rc_mem_write l p addr attr tc) ws words"

definition rc_mem_write_dwords ::
  "('s, 'a root_complex_scheme) lens \<Rightarrow> 's port \<Rightarrow> int \<Rightarrow> int list \<Rightarrow> int \<Rightarrow> int \<Rightarrow> 's \<Rightarrow> py_error + 's" where
  "rc_mem_write_dwords l p addr words attr tc = rc_mem_write_words l p addr words 4 attr tc"

definition rc_mem_write_qwords ::
  "('s, 'a root_complex_scheme) lens \<Rightarrow> 's port \<Rightarrow> int \<Rightarrow> int list \<Rightarrow> int \<Rightarrow> int \<Rightarrow> 's \<Rightarrow> py_error + 's" where
  "rc_mem_write_qwords l p addr words attr tc = rc_mem_write_words l p addr words 8 attr tc"

definition rc_mem_write_word ::
  "('s, 'a root_complex_scheme) lens \<Rightarrow> 's port \<Rightarrow> int \<Rightarrow> int \<Rightarrow> int \<Rightarrow> int \<Rightarrow> 's \<Rightarrow> py_error + 's" where
  "rc_mem_write_word l p addr w attr tc = rc_mem_write_words l p addr [w] 2 attr tc"

definition rc_mem_write_dword ::
  "('s, 'a root_complex_scheme) lens \<Rightarrow> 's port \<Rightarrow> int \<Rightarrow> int \<Rightarrow> int \<Rightarrow> int \<Rightarrow> 's \<Rightarrow> py_error + 's" where
  "rc_mem_write_dword l p addr w attr tc = rc_mem_write_dwords l p addr [w] attr tc"

definition rc_mem_write_qword ::
  "('s, 'a root_complex_scheme) lens \<Rightarrow> 's port \<Rightarrow> int \<Rightarrow> int \<Rightarrow> int \<Rightarrow> int \<Rightarrow> 's \<Rightarrow> py_error + 's" where
  "rc_mem_write_qword l p addr w attr tc = rc_mem_write_qwords l p addr [w] attr tc"

text \<open>A list is refused by memory maps and by the padding, but passed on to a callable.\<close>

definition rc_mem_write_byte ::
  "('s, 'a root_complex_scheme) lens \<Rightarrow> 's port \<Rightarrow> int \<Rightarrow> int \<Rightarrow> int \<Rightarrow> int \<Rightarrow> 's \<Rightarrow> py_error + 's" where
  "rc_mem_write_byte l p addr b attr tc s =
     (case find_region addr (lens_get l s) of
        None \<Rightarrow> Inl TypeError
      | Some k \<Rightarrow>
          (case reg_body (rc_regions (lens_get l s) ! k) of
             MMap bs \<Rightarrow> Inl TypeError
           | _ \<Rightarrow> try_bind (rc_write_region addr [b] (lens_get l s)) (\<lambda>r. Inr (lens_put l r s))))"

definition rc_io_read_words :: "int \<Rightarrow> int \<Rightarrow> int \<Rightarrow> py_error + int list" where
  "rc_io_read_words addr cnt ws = (if \<not> word_size_ok ws then Inl AssertionError else Inl TypeError)"

definition rc_io_read_dwords :: "int \<Rightarrow> int \<Rightarrow> py_error + int list" where
  "rc_io_read_dwords addr cnt = rc_io_read_words addr cnt 4"

definition rc_io_read_qwords :: "int \<Rightarrow> int \<Rightarrow> py_error + int list" where
  "rc_io_read_qwords addr cnt = rc_io_read_words addr cnt 8"

definition rc_io_read_byte :: "int \<Rightarrow> py_error + int" where
  "rc_io_read_byte addr = Inl TypeError"

definition rc_io_read_word :: "int \<Rightarrow> py_error + int" where
  "rc_io_read_word addr = try_bind (rc_io_read_words addr 1 2) hd_or_raise"

definition rc_io_read_dword :: "int \<Rightarrow> py_error + int" where
  "rc_io_read_dword addr = try_bind (rc_io_read_dwords addr 1) hd_or_raise"

definition rc_io_read_qword :: "int \<Rightarrow> py_error + int" where
  "rc_io_read_qword addr = try_bind (rc_io_read_qwords addr 1) hd_or_raise"

definition rc_io_write_words :: "int \<Rightarrow> int list \<Rightarrow> int \<Rightarrow> py_error + unit" where
  "rc_io_write_words addr words ws = (if \<not> word_size_ok ws then Inl AssertionError else try_bind (bytes_of ws words) (\<lambda>_. Inl TypeError))"

definition rc_io_write_dwords :: "int \<Rightarrow> int list \<Rightarrow> py_error + unit" where
  "rc_io_write_dwords addr words = rc_io_write_words addr words 4"

definition rc_io_write_qwords :: "int \<Rightarrow> int list \<Rightarrow> py_error + unit" where
  "rc_io_write_qwords addr words = rc_io_write_words addr words 8"

definition rc_io_write_byte :: "int \<Rightarrow> int \<Rightarrow> py_error + unit" where
  "rc_io_write_byte addr b = Inl TypeError"

definition rc_io_write_word :: "int \<Rightarrow> int \<Rightarrow> py_error + unit" where
  "rc_io_write_word addr w = rc_io_write_words addr [w] 2"

definition rc_io_write_dword :: "int \<Rightarrow> int \<Rightarrow> py_error + unit" where
  "rc_io_write_dword addr w = rc_io_write_dwords addr [w]"

definition rc_io_write_qword :: "int \<Rightarrow> int \<Rightarrow> py_error + unit" where
  "rc_io_write_qword addr w = rc_io_write_qwords addr [w]"

end
