(* ===== verification/PCIE_Requests_Correct.thy ===== *)
theory PCIE_Requests_Correct
  imports PCIE_Requests PCIE_Alloc
begin

text \<open>
  Correctness of memory requests. The interface \<open>memory_port\<close> says what a requester relies on: a
  write packet changes the enabled bytes of its target, a read packet is answered by completions
  that carry the bytes of the target in order. Over it, a write of any length is shown to
  store its bytes and a read to come to an end with the bytes of the target. The interface is
  interpreted for the root complex in front of a memory endpoint.
\<close>

section \<open>Packets of a request\<close>

lemma bit_ones4: "bit (0xf :: int) n \<longleftrightarrow> n < 4"
proof -
  have "(0xf :: int) = mask 4" by (simp add: mask_eq_exp_minus_1)
  then show ?thesis by (simp only: bit_mask_iff) simp
qed

lemma be_enabled_span:
  assumes "0 \<le> f" "f \<le> 3" "0 \<le> l" "l \<le> 3" "1 \<le> len" "4 * tlp_length t = len + f + l"
    and first: "tlp_first_be t = (if tlp_length t = 1 then (push_bit (nat f) 0xf AND 0xf) AND drop_bit (nat l) 0xf
       else push_bit (nat f) 0xf AND 0xf)"
    and last: "tlp_last_be t = (if tlp_length t = 1 then 0 else drop_bit (nat l) 0xf)"
  shows "be_enabled t i \<longleftrightarrow> f \<le> i \<and> i < f + len"
proof -
  have F: "bit (push_bit (nat f) 0xf AND 0xf :: int) k \<longleftrightarrow> nat f \<le> k \<and> k < 4" for k
    by (auto simp: bit_and_iff bit_push_bit_iff bit_ones4)
  have L: "bit (drop_bit (nat l) 0xf :: int) k \<longleftrightarrow> k + nat l < 4" for k
    by (auto simp: bit_drop_bit_eq bit_ones4)
  show ?thesis
  proof (cases "tlp_length t = 1")
    case True
    have e: "tlp_first_be t = (push_bit (nat f) 0xf AND 0xf) AND drop_bit (nat l) 0xf" by (rule first [unfolded if_P [OF True]])
    have "bit (tlp_first_be t) k \<longleftrightarrow> nat f \<le> k \<and> k < 4 \<and> k + nat l < 4" for k
      unfolding e bit_and_iff [of "push_bit (nat f) 0xf AND 0xf"] F L by simp
    then have "be_enabled t i \<longleftrightarrow> 0 \<le> i \<and> i < 4 \<and> nat f \<le> nat i \<and> nat i < 4 \<and> nat i + nat l < 4"
      by (simp only: be_enabled_def True) auto
    also have "\<dots> \<longleftrightarrow> f \<le> i \<and> i < f + len" using True assms(1-6) by arith
    finally show ?thesis .
  next
    case False
    have "bit (tlp_first_be t) k \<longleftrightarrow> nat f \<le> k \<and> k < 4" "bit (tlp_last_be t) k \<longleftrightarrow> k + nat l < 4" for k
      by (simp_all only: first last False if_False F L)
    then have "be_enabled t i \<longleftrightarrow> 0 \<le> i \<and> i < tlp_length t * 4 \<and>
        (if i < 4 then nat f \<le> nat i \<and> nat i < 4
         else i < (tlp_length t - 1) * 4 \<or> nat (i - (tlp_length t - 1) * 4) + nat l < 4)"
      by (simp only: be_enabled_def) auto
    also have "\<dots> \<longleftrightarrow> f \<le> i \<and> i < f + len"
    proof (cases "i < 4")
      case True
      then show ?thesis using False assms(1-6) by auto
    next
      case i: False
      then show ?thesis using False assms(1-6) by (cases "i < (tlp_length t - 1) * 4") auto
    qed
    finally show ?thesis .
  qed
qed

lemma set_be_request:
  assumes "1 \<le> len" "set_be addr len t = (t', f, l)"
  shows "tlp_address t' = 4 * (addr div 4)" "tlp_address t' + get_first_be_offset t' = addr"
    "get_be_byte_count t' = len" "1 \<le> tlp_length t'" "tlp_address t' + tlp_length t' * 4 = addr + len + l" "0 \<le> l" "l \<le> 3"
    "(addr + len + l) mod 4 = 0" "be_enabled t' i \<longleftrightarrow> addr \<le> tlp_address t' + i \<and> tlp_address t' + i < addr + len"
    "fmt_type t' = fmt_type t" "tlp_tag t' = tlp_tag t"
proof -
  note s = set_be_fields [OF assms(2,1)] and o = set_be_offsets [OF assms(2,1)]
  have a: "addr = 4 * (addr div 4) + f" using s(1) by simp
  show ad: "tlp_address t' = 4 * (addr div 4)" using s(9) and_not_3 [of addr] by simp
  show "tlp_address t' + get_first_be_offset t' = addr" using ad o(1) a by simp
  show "get_be_byte_count t' = len" using s(7) o by (simp add: get_be_byte_count_def)
  show e: "tlp_address t' + tlp_length t' * 4 = addr + len + l" using ad a s(7) by simp
  show "1 \<le> tlp_length t'" "0 \<le> l" "l \<le> 3" by (fact s)+
  have "addr + len + l = 4 * (addr div 4 + tlp_length t')" using e ad by simp
  then show "(addr + len + l) mod 4 = 0" by simp
  show "be_enabled t' i \<longleftrightarrow> addr \<le> tlp_address t' + i \<and> tlp_address t' + i < addr + len"
    using be_enabled_span [OF s(3-6) assms(1) s(7,10,11), of i] ad a by auto
  show "fmt_type t' = fmt_type t" "tlp_tag t' = tlp_tag t" using assms(2) by (auto simp: set_be_def Let_def fmt_type_def)
qed

lemma set_be_data_request:
  assumes "bs \<noteq> []" "\<forall>b\<in>set bs. is_byte b"
  obtains t' l where "set_be_data addr bs t = Inr t'" "get_data t' = Inr (replicate (nat (addr mod 4)) 0 @ bs @ replicate (nat l) 0)"
    "tlp_length t' = int (length (tlp_data t'))"
    "tlp_address t' = 4 * (addr div 4)" "1 \<le> tlp_length t'" "tlp_address t' + tlp_length t' * 4 = addr + int (length bs) + l"
    "0 \<le> l" "l \<le> 3" "(addr + int (length bs) + l) mod 4 = 0" "fmt_type t' = fmt_type t"
    "\<And>i. be_enabled t' i \<longleftrightarrow> addr \<le> tlp_address t' + i \<and> tlp_address t' + i < addr + int (length bs)"
proof -
  obtain t1 f l where be: "set_be addr (int (length bs)) (t\<lparr>tlp_address := addr AND NOT 3\<rparr>) = (t1, f, l)" by (metis prod_cases3)
  have len: "1 \<le> int (length bs)" using assms(1) by (cases bs) auto
  note s = set_be_fields [OF be len] and r = set_be_request [OF len be]
  let ?bs = "replicate (nat f) 0 @ bs @ replicate (nat l) 0"
  have "4 * nat (tlp_length t1) = nat f + length bs + nat l" using s(3,5,7) by linarith
  then have "length ?bs = 4 * nat (tlp_length t1)" by simp
  moreover have "\<forall>b\<in>set ?bs. is_byte b" using assms(2) by (auto simp: is_byte_def)
  ultimately obtain ds where ds: "dwords ?bs = Inr ds" "length ds = nat (tlp_length t1)" "pack_dwords ds = Inr ?bs"
    using dwords_ok by blast
  have n: "int (length ds) = tlp_length t1" using ds(2) s(8) by simp
  let ?t' = "t1\<lparr>tlp_data := ds, tlp_length := int (length ds)\<rparr>"
  have "be_enabled ?t' i = be_enabled t1 i" for i by (simp add: be_enabled_def n)
  then have en: "be_enabled ?t' i \<longleftrightarrow> addr \<le> tlp_address ?t' + i \<and> tlp_address ?t' + i < addr + int (length bs)" for i
    using r(9) [of i] by simp
  show thesis
  proof (rule that [of ?t' l, OF _ _ _ _ _ _ _ _ _ _ en])
    show "set_be_data addr bs t = Inr ?t'" using be ds(1) by (simp add: set_be_data_def set_data_def)
    show "get_data ?t' = Inr (replicate (nat (addr mod 4)) 0 @ bs @ replicate (nat l) 0)"
      using ds(3) s(1) by (simp add: get_data_def)
    show "fmt_type ?t' = fmt_type t" using r(10) by (simp add: fmt_type_def)
  qed (use r(1,4-8) n in simp_all)
qed

lemma byte_at_append:
  "byte_at (xs @ ys) i = (if i < int (length xs) then byte_at xs i else byte_at ys (i - int (length xs)))"
  by (auto simp: byte_at_def nth_append nat_diff_distrib)

lemma chunk_4k:
  fixes addr k l :: int
  assumes "k \<le> 0x1000 - (addr AND 0xfff)" "l \<le> 3" "(addr + k + l) mod 4 = 0"
  shows "(4 * (addr div 4) AND 0xfff) + (addr + k + l - 4 * (addr div 4)) \<le> 0x1000"
proof -
  let ?r = "addr mod 4096"
  have and_mod: "x AND 0xfff = x mod 4096" for x :: int
    using take_bit_eq_mask [of 12 x] by (simp add: mask_eq_exp_minus_1 take_bit_eq_mod)
  have "?r mod 4 = addr mod 4" by (simp add: mod_mod_cancel)
  moreover have "4 * (addr div 4) = addr - addr mod 4" using mult_div_mod_eq [of 4 addr] by linarith
  ultimately have d: "4 * (addr div 4) = 4096 * (addr div 4096) + (?r - ?r mod 4)"
    using mult_div_mod_eq [of 4096 addr] by linarith
  have r: "0 \<le> ?r - ?r mod 4" "?r - ?r mod 4 < 4096"
  proof -
    have "0 \<le> ?r" "?r < 4096" by simp_all
    then show "0 \<le> ?r - ?r mod 4" "?r - ?r mod 4 < 4096"
      using zmod_le_nonneg_dividend [of ?r 4] pos_mod_sign [of 4 ?r] by linarith+
  qed
  have "4 * (addr div 4) mod 4096 = ?r - ?r mod 4" unfolding d using r by simp
  then have e: "(4 * (addr div 4) AND 0xfff) + (addr + k + l - 4 * (addr div 4)) = ?r + k + l"
    unfolding and_mod using d mult_div_mod_eq [of 4096 addr] by linarith
  have "(addr + k + l) mod 4 = (?r + k + l) mod 4"
    by (metis \<open>addr mod 4096 mod 4 = addr mod 4\<close> add.assoc mod_add_left_eq)
  then obtain q where q: "?r + k + l = 4 * q" using assms(3) by (metis mod_0_imp_dvd dvdE)
  have "?r + k + l < 4100" using assms(1,2) unfolding and_mod by linarith
  then have "q < 1025" using q by linarith
  then have "?r + k + l \<le> 4096" using q by simp
  then show ?thesis using e by simp
qed

lemma mem_chunk_le: "mem_chunk sz addr left \<le> left" "mem_chunk sz addr left \<le> 0x1000 - (addr AND 0xfff)"
  by (simp_all add: mem_chunk_def)

definition is_mem_write :: "tlp \<Rightarrow> bool" where
  "is_mem_write t \<longleftrightarrow> fmt_type t = TLP_MEM_WRITE \<or> fmt_type t = TLP_MEM_WRITE_64"

definition is_mem_read :: "tlp \<Rightarrow> bool" where
  "is_mem_read t \<longleftrightarrow> fmt_type t = TLP_MEM_READ \<or> fmt_type t = TLP_MEM_READ_64"

lemma check_mem_write:
  "is_mem_write t \<Longrightarrow> tlp_length t = int (length (tlp_data t)) \<Longrightarrow> (tlp_address t AND 0xfff) + tlp_length t * 4 \<le> 0x1000 \<Longrightarrow>
     check t \<and> has_data t \<and> is_mem t"
  by (auto simp: check_def is_mem_write_def is_mem_def is_io_def has_data_def fmt_type_def tlp_type_defs)

lemma check_mem_read:
  "is_mem_read t \<Longrightarrow> (tlp_address t AND 0xfff) + tlp_length t * 4 \<le> 0x1000 \<Longrightarrow> check t \<and> is_mem t"
  by (auto simp: check_def is_mem_read_def is_mem_def is_io_def has_data_def fmt_type_def tlp_type_defs)

lemma slice_join:
  assumes "0 \<le> off" "off \<le> len" "len \<le> int (length data)" "0 \<le> b"
  shows "py_slice off (off + b) (take (nat len) data) @ take (nat (b - (len - off))) (drop (nat len) data) =
    take (nat b) (drop (nat off) data)"
proof (cases "len \<le> off + b")
  case True
  then have "slice_pos (off + b) (take (nat len) data) = nat len" "slice_pos off (take (nat len) data) = nat off"
    using assms by (simp_all add: slice_pos_def)
  then have "py_slice off (off + b) (take (nat len) data) = take (nat (len - off)) (drop (nat off) data)"
    using assms by (simp add: py_slice_def drop_take nat_diff_distrib)
  moreover have "nat b = nat (len - off) + nat (b - (len - off))" using True assms by simp
  moreover have "drop (nat (len - off)) (drop (nat off) data) = drop (nat len) data"
    using assms by (simp add: nat_diff_distrib)
  ultimately show ?thesis by (simp only: take_add)
next
  case False
  then show ?thesis using assms by (simp add: py_slice_def slice_pos_def take_drop nat_add_distrib add.commute)
qed

section \<open>What a requester relies on\<close>

text \<open>
  \<open>view s i\<close> is the byte at the address \<open>i\<close>, if there is one; \<open>lo\<close> and \<open>hi\<close> bound
  the window the port serves. In a state with \<open>busy\<close> the completions listed for the tag have
  arrived and wait to be received.
\<close>

locale memory_port =
  fixes p :: "'s port"
    and view :: "'s \<Rightarrow> int \<Rightarrow> int option"
    and lo hi :: int
    and ok :: "'s \<Rightarrow> bool"
    and busy :: "'s \<Rightarrow> int \<Rightarrow> tlp list \<Rightarrow> bool"
  assumes window: "lo mod 4 = 0" "hi mod 4 = 0"
    and tag_law: "ok s \<Longrightarrow> \<exists>s' tag. port_tag p s = (s', Some tag) \<and> ok s' \<and> view s' = view s \<and> 0 \<le> tag \<and> tag < 32"
    and write_law: "ok s \<Longrightarrow> check t \<Longrightarrow> is_mem_write t \<Longrightarrow> get_data t = Inr data \<Longrightarrow> 1 \<le> tlp_length t \<Longrightarrow>
      tlp_address t mod 4 = 0 \<Longrightarrow> lo \<le> tlp_address t \<Longrightarrow> tlp_address t + tlp_length t * 4 \<le> hi \<Longrightarrow>
      \<exists>s'. port_send p t s = Inr s' \<and> ok s' \<and>
        (\<forall>i. view s' i = (if be_enabled t (i - tlp_address t) then byte_at data (i - tlp_address t) else view s i))"
    and read_law: "ok s \<Longrightarrow> check t \<Longrightarrow> is_mem_read t \<Longrightarrow> 1 \<le> tlp_length t \<Longrightarrow> 0 \<le> tlp_tag t \<Longrightarrow> tlp_tag t < 32 \<Longrightarrow>
      tlp_address t mod 4 = 0 \<Longrightarrow> lo \<le> tlp_address t \<Longrightarrow> tlp_address t + tlp_length t * 4 \<le> hi \<Longrightarrow>
      \<exists>s' cs data lim. port_send p t s = Inr s' \<and> busy s' (tlp_tag t) cs \<and> view s' = view s \<and>
        (\<forall>c\<in>set cs. tlp_status c = CPL_STATUS_SC \<and> fmt_type c = TLP_CPL_DATA) \<and> int (length data) = tlp_length t * 4 \<and>
        (\<forall>i. 0 \<le> i \<longrightarrow> i < tlp_length t * 4 \<longrightarrow> view s (tlp_address t + i) = byte_at data i) \<and>
        cpls_ok lim (tlp_address t + get_first_be_offset t) (get_be_byte_count t) data cs"
    and recv_law: "busy s tag (c # cs) \<Longrightarrow>
      \<exists>s'. port_recv p tag timeout s = Inr (s', Some c) \<and> busy s' tag cs \<and> view s' = view s"
    and done_law: "busy s tag [] \<Longrightarrow> ok s"
begin

lemma window_down: "lo \<le> addr \<Longrightarrow> lo \<le> 4 * (addr div 4)"
  using window(1) by (metis div_mult_mod_eq add.right_neutral mult.commute mult_left_mono zdiv_mono1 zero_le_numeral zero_less_numeral)

lemma window_up: "x \<le> hi \<Longrightarrow> l \<le> 3 \<Longrightarrow> (x + l) mod 4 = 0 \<Longrightarrow> x + l \<le> hi"
proof -
  assume a: "x \<le> hi" "l \<le> 3" "(x + l) mod 4 = 0"
  obtain q where q: "x + l = 4 * q" using a(3) by (metis mod_0_imp_dvd dvdE)
  obtain h where h: "hi = 4 * h" using window(2) by (metis mod_0_imp_dvd dvdE)
  have "q < h + 1" using a q h by linarith
  then show "x + l \<le> hi" using q h by simp
qed

lemma mem_write_view:
  assumes "ok s" "0 \<le> n" "n \<le> int (length data)" "\<forall>b\<in>set data. is_byte b" "lo \<le> addr" "addr + int (length data) - n \<le> hi"
  shows "\<exists>s'. mem_write_loop p attr tc data addr n s = Inr s' \<and> ok s' \<and>
     (\<forall>i. view s' i = (if addr \<le> i \<and> i < addr + int (length data) - n then byte_at data (i - addr + n) else view s i))"
  using assms
proof (induction "nat (int (length data) - n)" arbitrary: addr n s rule: less_induct)
  case less
  note pr = less.prems
  show ?case
  proof (cases "n < int (length data)")
    case False
    then show ?thesis using pr by (subst mem_write_loop.simps) auto
  next
    case True
    let ?k = "mem_chunk (port_mps p s) addr (int (length data) - n)"
    let ?t0 = "(request (mem_type addr TLP_MEM_WRITE TLP_MEM_WRITE_64) (port_id p s) 0)\<lparr>tlp_attr := attr, tlp_tc := tc\<rparr>"
    let ?bs = "py_slice n (n + ?k) data"
    have left: "0 < int (length data) - n" using True by simp
    note k = mem_chunk_pos [OF left, of "port_mps p s" addr] mem_chunk_le [of "port_mps p s" addr "int (length data) - n"]
    have len: "length ?bs = nat ?k" using k pr by (simp add: length_py_slice)
    have "?bs \<noteq> []" using len k(1) by auto
    moreover have "\<forall>b\<in>set ?bs. is_byte b" using pr(4) by (auto simp: py_slice_def dest!: in_set_dropD in_set_takeD)
    ultimately obtain t l where t: "set_be_data addr ?bs ?t0 = Inr t"
      "get_data t = Inr (replicate (nat (addr mod 4)) 0 @ ?bs @ replicate (nat l) 0)"
      "tlp_length t = int (length (tlp_data t))" "tlp_address t = 4 * (addr div 4)" "1 \<le> tlp_length t"
      "tlp_address t + tlp_length t * 4 = addr + int (length ?bs) + l"
      "0 \<le> l" "l \<le> 3" "(addr + int (length ?bs) + l) mod 4 = 0" "fmt_type t = fmt_type ?t0"
      "\<And>i. be_enabled t i \<longleftrightarrow> addr \<le> tlp_address t + i \<and> tlp_address t + i < addr + int (length ?bs)"
      by (rule set_be_data_request [of ?bs addr ?t0]) (rule that)
    have kk: "int (length ?bs) = ?k" using len k(1) by simp
    note t' = t(6,9,11) [unfolded kk]
    have w: "is_mem_write t" using t(10) by (simp add: is_mem_write_def mem_type_def request_def set_fmt_type_def fmt_type_def)
    have "(tlp_address t AND 0xfff) + tlp_length t * 4 \<le> 0x1000"
      using chunk_4k [OF k(3) t(8) t'(2)] t'(1) unfolding t(4) by linarith
    then have c: "check t" using check_mem_write [OF w t(3)] by blast
    have win: "tlp_address t mod 4 = 0" "lo \<le> tlp_address t" "tlp_address t + tlp_length t * 4 \<le> hi"
      using window_down [OF pr(5)] window_up [of "addr + ?k" l] pr(6) k(2) t(4,8) t' by auto
    from write_law [OF pr(1) c w t(2) t(5) win] obtain s1 where s1: "port_send p t s = Inr s1" "ok s1"
      "\<forall>i. view s1 i = (if be_enabled t (i - tlp_address t)
         then byte_at (replicate (nat (addr mod 4)) 0 @ ?bs @ replicate (nat l) 0) (i - tlp_address t) else view s i)"
      by (elim exE conjE) (rule that)
    obtain s' where s': "mem_write_loop p attr tc data (addr + ?k) (n + ?k) s1 = Inr s'" "ok s'"
      "\<And>i. view s' i = (if addr + ?k \<le> i \<and> i < addr + ?k + int (length data) - (n + ?k)
         then byte_at data (i - (addr + ?k) + (n + ?k)) else view s1 i)"
      using less.hyps [of "n + ?k" s1 "addr + ?k"] True s1(2) k pr by (auto simp: algebra_simps)
    have ad: "tlp_address t = addr - addr mod 4" using t(4) mult_div_mod_eq [of 4 addr] by linarith
    have "view s1 i = (if addr \<le> i \<and> i < addr + ?k then byte_at data (i - addr + n) else view s i)" for i
    proof -
      have "byte_at (replicate (nat (addr mod 4)) 0 @ ?bs @ replicate (nat l) 0) (i - tlp_address t) = byte_at data (i - addr + n)"
        if "addr \<le> i" "i < addr + ?k"
        using that byte_at_slice [of n "n + ?k" data "i - addr"] pr k kk unfolding ad byte_at_append
        by (simp add: algebra_simps)
      then show ?thesis unfolding s1(3) [rule_format] t'(3) by simp
    qed
    moreover have e: "i - (addr + ?k) + (n + ?k) = i - addr + n" for i by simp
    ultimately have "view s' i = (if addr \<le> i \<and> i < addr + int (length data) - n then byte_at data (i - addr + n) else view s i)" for i
      unfolding s'(3) e using k by auto
    moreover have "mem_write_loop p attr tc data addr n s = Inr s'"
      using True t(1) s1(1) s'(1) by (subst mem_write_loop.simps) (simp add: Let_def)
    ultimately show ?thesis using s'(2) by blast
  qed
qed

lemma collect_view:
  assumes "busy s tag cs" "\<forall>c\<in>set cs. tlp_status c = CPL_STATUS_SC \<and> fmt_type c = TLP_CPL_DATA"
    "cpls_ok lim addr (k - m) data cs" "k - m = int (length data) - addr mod 4 - l" "0 \<le> l" "l \<le> 3"
    "data \<noteq> [] \<Longrightarrow> m < k" "data = [] \<Longrightarrow> addr mod 4 = 0"
  shows "\<exists>s'. collect p timeout tag k m acc s = Some (Inr (s', acc @ take (nat (k - m)) (drop (nat (addr mod 4)) data))) \<and>
     ok s' \<and> view s' = view s"
  using assms
proof (induction cs arbitrary: s addr m data acc)
  case Nil
  then have "\<not> m < k" by simp
  then show ?case using Nil.prems done_law by (subst collect.simps) simp
next
  case (Cons c cs)
  let ?L = "tlp_length c * 4" and ?off = "addr mod 4"
  have c: "0 < tlp_length c" "check c" "?L \<le> int (length data)" "get_data c = Inr (take (nat ?L) data)"
    "tlp_byte_count c = k - m" "tlp_lower_address c = addr mod 128"
    "cpls_ok lim (addr - ?off + ?L) (k - m - (?L - ?off)) (drop (nat ?L) data) cs"
    using Cons.prems(3) by auto
  have fc: "tlp_status c = CPL_STATUS_SC" "fmt_type c = TLP_CPL_DATA" using Cons.prems(2) by auto
  have low: "tlp_lower_address c AND 3 = ?off" unfolding c(6) and_masks by (simp add: mod_mod_cancel)
  have chk: "tlp_length c = int (length (tlp_data c))" "tlp_byte_count c + 3 + ?off \<ge> ?L"
    using c(2) fc(2) low by (auto simp: check_def has_data_def fmt_type_def tlp_type_defs)
  have d: "cpl_bytes c = Inr (take (nat ?L) data)" using c(4) chk(1) by (simp add: cpl_bytes_def get_data_def)
  have lt: "m < k" using c(1,3) Cons.prems(7) by force
  obtain s1 where s1: "port_recv p tag timeout s = Inr (s1, Some c)" "busy s1 tag cs" "view s1 = view s"
    using recv_law [OF Cons.prems(1)] by blast
  let ?d = "take (nat ?L) data" and ?data = "drop (nat ?L) data" and ?m = "m + (?L - ?off)"
  have len: "int (length ?d) = ?L" using c(1,3) by simp
  have step: "collect p timeout tag k m acc s = collect p timeout tag k ?m (acc @ py_slice ?off (?off + (k - m)) ?d) s1"
    using lt s1(1) fc(1) chk(2) d c(5) low len
    by (subst collect.simps) (simp add: expect_sc_def Let_def)
  have a: "(addr - ?off + ?L) mod 4 = 0"
  proof -
    have "addr - ?off + ?L = 4 * (addr div 4 + tlp_length c)" using minus_mod_eq_mult_div [of addr 4] by simp
    then show ?thesis by simp
  qed
  have km: "k - ?m = k - m - (?L - ?off)" by simp
  obtain s' where s': "collect p timeout tag k ?m (acc @ py_slice ?off (?off + (k - m)) ?d) s1 =
      Some (Inr (s', (acc @ py_slice ?off (?off + (k - m)) ?d) @ take (nat (k - ?m)) (drop (nat ((addr - ?off + ?L) mod 4)) ?data)))"
    "ok s'" "view s' = view s1"
  proof -
    have b: "k - ?m = int (length ?data) - (addr - ?off + ?L) mod 4 - l" using Cons.prems(4) a len c(3) by simp
    have "?m < k" if "?data \<noteq> []"
    proof -
      have "4 \<le> int (length ?data)" using that c(7) by (cases cs) auto
      then show ?thesis using b a Cons.prems(6) by linarith
    qed
    then show thesis
      using Cons.IH [OF s1(2), of "addr - ?off + ?L" ?m ?data "acc @ py_slice ?off (?off + (k - m)) ?d"]
        Cons.prems(2,5,6) c(7) a b that unfolding km by (auto simp: km)
  qed
  have "py_slice ?off (?off + (k - m)) ?d @ take (nat (k - ?m)) ?data = take (nat (k - m)) (drop (nat ?off) data)"
    unfolding km by (rule slice_join) (use lt c(1,3) in auto)
  then show ?case using s' s1(3) step a by auto
qed

lemma mem_read_view:
  assumes "ok s" "0 \<le> n" "n \<le> len" "lo \<le> addr" "addr + len - n \<le> hi"
  shows "\<exists>s' bs. mem_read_loop p False timeout attr tc len addr n acc s = Some (Inr (s', acc @ bs)) \<and> ok s' \<and>
     view s' = view s \<and> int (length bs) = len - n \<and> (\<forall>i. 0 \<le> i \<longrightarrow> i < len - n \<longrightarrow> byte_at bs i = view s (addr + i))"
  using assms
proof (induction "nat (len - n)" arbitrary: addr n acc s rule: less_induct)
  case less
  note pr = less.prems
  show ?case
  proof (cases "n < len")
    case False
    then show ?thesis using pr by (subst mem_read_loop.simps) simp
  next
    case True
    obtain s1 tag where s1: "port_tag p s = (s1, Some tag)" "ok s1" "view s1 = view s" "0 \<le> tag" "tag < 32"
      using tag_law [OF pr(1)] by blast
    let ?k = "mem_chunk (port_mrrs p s1) addr (len - n)"
    let ?t0 = "(request (mem_type addr TLP_MEM_READ TLP_MEM_READ_64) (port_id p s1) tag)\<lparr>tlp_attr := attr, tlp_tc := tc\<rparr>"
    obtain t f l where be: "set_be addr ?k ?t0 = (t, f, l)" by (metis prod_cases3)
    have left: "0 < len - n" using True by simp
    note k = mem_chunk_pos [OF left, of "port_mrrs p s1" addr] mem_chunk_le [of "port_mrrs p s1" addr "len - n"]
    have k1: "1 \<le> ?k" using k(1) by simp
    note t = set_be_request [OF k1 be]
    have r: "is_mem_read t" using t(10) by (simp add: is_mem_read_def mem_type_def request_def set_fmt_type_def fmt_type_def)
    have "(tlp_address t AND 0xfff) + tlp_length t * 4 \<le> 0x1000"
      using chunk_4k [OF k(3) t(7,8)] t(5) unfolding t(1) by linarith
    then have c: "check t" using check_mem_read [OF r] by blast
    have tg: "0 \<le> tlp_tag t" "tlp_tag t < 32" "tlp_tag t = tag" using t(11) s1(4,5) by (simp_all add: request_def)
    have win: "tlp_address t mod 4 = 0" "lo \<le> tlp_address t" "tlp_address t + tlp_length t * 4 \<le> hi"
      using window_down [OF pr(4)] window_up [of "addr + ?k" l] pr(5) k(2) t(1,5,7,8) by auto
    from read_law [OF s1(2) c r t(4) tg(1,2) win] obtain s2 cs data lim where s2: "port_send p t s1 = Inr s2"
      "busy s2 tag cs" "view s2 = view s" "\<forall>c\<in>set cs. tlp_status c = CPL_STATUS_SC \<and> fmt_type c = TLP_CPL_DATA"
      "int (length data) = tlp_length t * 4"
      "\<forall>i. 0 \<le> i \<longrightarrow> i < tlp_length t * 4 \<longrightarrow> view s (tlp_address t + i) = byte_at data i"
      "cpls_ok lim addr ?k data cs" unfolding s1(3) tg(3) t(2,3) by (elim exE conjE) (rule that)
    have ad: "tlp_address t = addr - addr mod 4" using t(1) minus_mod_eq_mult_div [of addr 4] by simp
    have kl: "?k - 0 = int (length data) - addr mod 4 - l" using s2(5) t(5) ad by simp
    have ne: "data = [] \<Longrightarrow> addr mod 4 = 0" using s2(5) t(4) by simp
    have c0: "cpls_ok lim addr (?k - 0) data cs" using s2(7) by simp
    have lt: "0 < ?k" by (fact k(1))
    let ?bs = "take (nat ?k) (drop (nat (addr mod 4)) data)"
    obtain s3 where s3: "collect p timeout tag ?k 0 acc s2 = Some (Inr (s3, acc @ ?bs))" "ok s3" "view s3 = view s2"
      using collect_view [OF s2(2,4) c0 kl t(6,7) _ ne, of timeout acc] lt by auto
    have bs: "int (length ?bs) = ?k" using kl k(1) t(6) by simp
    obtain s' bs' where s': "mem_read_loop p False timeout attr tc len (addr + ?k) (n + ?k) (acc @ ?bs) s3 = Some (Inr (s', (acc @ ?bs) @ bs'))"
      "ok s'" "view s' = view s3" "int (length bs') = len - (n + ?k)"
      "\<forall>i. 0 \<le> i \<longrightarrow> i < len - (n + ?k) \<longrightarrow> byte_at bs' i = view s3 (addr + ?k + i)"
      using less.hyps [of "n + ?k" s3 "addr + ?k" "acc @ ?bs"] True s3(2) k pr by auto
    have "byte_at (?bs @ bs') i = view s (addr + i)" if "0 \<le> i" "i < len - n" for i
    proof (cases "i < ?k")
      case True
      have "byte_at ?bs i = byte_at data (addr mod 4 + i)"
        using that(1) True kl t(6) by (simp add: byte_at_def nat_add_distrib)
      moreover have "addr mod 4 + i < tlp_length t * 4" using True kl s2(5) t(6) by linarith
      ultimately have "byte_at ?bs i = view s (tlp_address t + (addr mod 4 + i))" using s2(6) that(1) by simp
      then show ?thesis using True unfolding byte_at_append bs by (simp add: ad)
    next
      case False
      then show ?thesis using s'(5) that s3(3) s2(3) unfolding byte_at_append bs by simp
    qed
    moreover have "mem_read_loop p False timeout attr tc len addr n acc s = Some (Inr (s', acc @ (?bs @ bs')))"
      using True s1(1) be s2(1) s3(1) s'(1) by (subst mem_read_loop.simps) (simp add: with_tag_def Let_def)
    moreover have "int (length (?bs @ bs')) = len - n" using bs s'(4) by simp
    ultimately show ?thesis using s'(2,3) s3(3) s2(3) by metis
  qed
qed

end

end
