(* ===== verification/PCIE_Link.thy ===== *)
theory PCIE_Link
  imports PCIE_Requests_Correct
begin

text \<open>
  The root complex in front of a memory endpoint, as an instance of the parameters of \<open>rc_port\<close>. The two are connected
  directly: what the bridges and devices between them do with a packet is the subject of \<open>PCIE_Routing\<close>.
  A request is handled by the endpoint when it is sent, as nothing else goes on
  there; the completions it causes then wait in the transmit queue of the endpoint's port, which
  sends one packet after the other (\<open>Port.send\<close> and \<open>Port.transmit\<close>), and arrive one at a time and in order while
  the root complex waits for them. The wait is the one of \<open>recv_cpl\<close>: it ends with the arrival
  of a completion for the tag, whatever is queued before it begins, and without an arrival it never ends. The pair
  satisfies the interface of a requester, so that writes and reads of the root
  complex reach the memory of the endpoint.
\<close>

section \<open>The pair\<close>

record link =
  lk_rc :: root_complex
  lk_me :: memory_endpoint
  lk_wire :: "tlp list"

definition link_lens :: "(link, root_complex) lens" where
  "link_lens = \<lparr>lens_get = lk_rc, lens_put = (\<lambda>r w. w\<lparr>lk_rc := r\<rparr>)\<rparr>"

definition link_deliver :: "tlp \<Rightarrow> link \<Rightarrow> py_error + link" where
  "link_deliver t w =
     try_bind (me_upstream_recv t (lk_me w)) (\<lambda>(f, out). Inr (w\<lparr>lk_me := f, lk_wire := lk_wire w @ out\<rparr>))"

text \<open>
  The wait for a change of the signal of a tag, which the arrival of a completion with this tag toggles. When
  nothing is on its way any more, a wait with a timeout ends all the same.
\<close>

fun await :: "int \<Rightarrow> int \<Rightarrow> tlp list \<Rightarrow> root_complex \<Rightarrow> py_error + (tlp list \<times> root_complex)" where
  "await tag timeout [] r = (if timeout = 0 then Inl Blocked else Inr ([], r))"
| "await tag timeout (c # cs) r =
     try_bind (rc_downstream_recv c r) (\<lambda>(r', out). if tlp_tag c = tag then Inr (cs, r') else await tag timeout cs r')"

definition link_wait :: "int \<Rightarrow> int \<Rightarrow> link \<Rightarrow> py_error + link" where
  "link_wait tag timeout w =
     try_bind (await tag timeout (lk_wire w) (lk_rc w)) (\<lambda>(cs, r). Inr (w\<lparr>lk_wire := cs, lk_rc := r\<rparr>))"

definition link_port :: "link port" where
  "link_port = rc_port link_lens link_deliver link_wait"

text \<open>
  The code looks at the queue only after the wait: a completion that is queued already does not end it.
\<close>

lemma queued_completion_blocks: "lk_wire w = [] \<Longrightarrow> port_recv link_port tag 0 w = Inl Blocked"
  by (simp add: link_port_def rc_port_def link_wait_def)

section \<open>States\<close>

definition link_me :: "memory_endpoint \<Rightarrow> nat \<Rightarrow> int \<Rightarrow> nat \<Rightarrow> memory_endpoint \<Rightarrow> bool" where
  "link_me f0 r base n f \<longleftrightarrow> r < length (mem_regions f0) \<and> (base mod 4096 = 0 \<or> n \<le> 4096) \<and>
     (\<forall>x. base \<le> x \<longrightarrow> x < base + int n \<longrightarrow> match_bar x False f0 = Inr [(r, x - base)]) \<and>
     (\<exists>bs. f = me_with f0 r bs \<and> length bs = n \<and> (\<forall>b\<in>set bs. is_byte b))"

definition link_ok :: "memory_endpoint \<Rightarrow> nat \<Rightarrow> int \<Rightarrow> nat \<Rightarrow> link \<Rightarrow> bool" where
  "link_ok f0 r base n w \<longleftrightarrow> link_me f0 r base n (lk_me w) \<and> rc_cpl_queues (lk_rc w) = replicate 256 [] \<and> lk_wire w = []"

definition link_busy :: "memory_endpoint \<Rightarrow> nat \<Rightarrow> int \<Rightarrow> nat \<Rightarrow> link \<Rightarrow> int \<Rightarrow> tlp list \<Rightarrow> bool" where
  "link_busy f0 r base n w tag cs \<longleftrightarrow> link_me f0 r base n (lk_me w) \<and> 0 \<le> tag \<and> tag < 32 \<and>
     rc_cpl_queues (lk_rc w) = replicate 256 [] \<and> lk_wire w = cs \<and>
     (\<forall>c\<in>set cs. check c \<and> fmt_type c = TLP_CPL_DATA \<and> tlp_tag c = tag)"

definition link_view :: "nat \<Rightarrow> int \<Rightarrow> link \<Rightarrow> int \<Rightarrow> int option" where
  "link_view r base w i = me_view r (- base) (lk_me w) i"

section \<open>Laws\<close>

lemma match_bar_me_with [simp]: "match_bar x io (me_with f r bs) = match_bar x io f"
  by (simp add: match_bar_def me_with_def)

lemma link_no_cross:
  assumes "check t" "is_mem t" "base mod 4096 = 0 \<or> n \<le> 4096" "base \<le> tlp_address t"
    "tlp_address t + tlp_length t * 4 \<le> base + int n"
  shows "\<not> crosses_4k t (tlp_address t - base)"
proof -
  have and_mod: "x AND 0xfff = x mod 4096" for x :: int
    using take_bit_eq_mask [of 12 x] by (simp add: mask_eq_exp_minus_1 take_bit_eq_mod)
  have c: "tlp_length t * 4 \<le> 0x1000 - tlp_address t mod 4096"
    using assms(1,2) by (simp add: check_def and_mod)
  show ?thesis
  proof (cases "base mod 4096 = 0")
    case True
    then have "(tlp_address t - base) mod 4096 = tlp_address t mod 4096" by (metis diff_zero mod_diff_right_eq)
    then show ?thesis using c by (simp add: crosses_4k_def and_mod)
  next
    case False
    then have "tlp_address t - base + tlp_length t * 4 \<le> 4096" using assms(3,5) by linarith
    moreover have "(tlp_address t - base) mod 4096 \<le> tlp_address t - base"
      using assms(4) by (intro zmod_le_nonneg_dividend) simp
    ultimately show ?thesis by (simp add: crosses_4k_def and_mod)
  qed
qed

lemma pack_dwords_bytes: "pack_dwords ds = Inr bs \<Longrightarrow> \<forall>b\<in>set bs. is_byte b"
  by (induction ds arbitrary: bs) (auto simp: pack_dword_def dest: le_bytes_byte split: if_splits)

lemma bytes_by_position: "(\<forall>i v. byte_at bs i = Some v \<longrightarrow> is_byte v) \<longleftrightarrow> (\<forall>b\<in>set bs. is_byte b)"
proof
  assume a: "\<forall>i v. byte_at bs i = Some v \<longrightarrow> is_byte v"
  show "\<forall>b\<in>set bs. is_byte b"
  proof
    fix b assume "b \<in> set bs"
    then obtain k where "k < length bs" "bs ! k = b" by (auto simp: in_set_conv_nth)
    then have "byte_at bs (int k) = Some b" by (simp add: byte_at_def)
    then show "is_byte b" using a by blast
  qed
qed (auto simp: byte_at_def split: if_splits)

lemma handle_write: "is_mem_write t \<Longrightarrow> me_handle_tlp t f = try_bind (handle_mem_write_tlp t f) (\<lambda>f'. Inr (f', []))"
  by (auto simp: is_mem_write_def me_handle_tlp_def is_completion_def fmt_type_def tlp_type_defs)

lemma handle_read: "is_mem_read t \<Longrightarrow> me_handle_tlp t f = try_bind (handle_mem_read_tlp t f) (\<lambda>out. Inr (f, out))"
  by (auto simp: is_mem_read_def me_handle_tlp_def is_completion_def fmt_type_def tlp_type_defs)

lemma cpls_ok_check: "cpls_ok lim addr bytes data cs \<Longrightarrow> c \<in> set cs \<Longrightarrow> check c"
  by (induction lim addr bytes data cs rule: cpls_ok.induct) auto

lemma recv_one:
  assumes "0 \<le> tag" "tag < 32" "check c" "fmt_type c = TLP_CPL_DATA" "tlp_tag c = tag" "rc_cpl_queues q = replicate 256 []"
  shows "rc_downstream_recv c q = Inr (q\<lparr>rc_cpl_queues := (replicate 256 [])[nat tag := [c]]\<rparr>, [])"
proof -
  have "nat tag < 256" using assms(1,2) by simp
  then have "queue_cpl c (rc_cpl_queues q) = Inr ((replicate 256 [])[nat tag := [c]])"
    using assms by (simp add: queue_cpl_def py_index_def)
  then show ?thesis using assms by (simp add: rc_downstream_recv_def rc_handle_tlp_def is_completion_def)
qed

lemma link_write:
  assumes "link_ok f0 r base n w" "check t" "is_mem_write t" "get_data t = Inr data" "1 \<le> tlp_length t"
    "base \<le> tlp_address t" "tlp_address t + tlp_length t * 4 \<le> base + int n"
  shows "\<exists>w'. port_send link_port t w = Inr w' \<and> link_ok f0 r base n w' \<and>
     (\<forall>i. link_view r base w' i =
        (if be_enabled t (i - tlp_address t) then byte_at data (i - tlp_address t) else link_view r base w i))"
proof -
  from assms(1) obtain bs where bs: "lk_me w = me_with f0 r bs" "length bs = n" "\<forall>b\<in>set bs. is_byte b" "r < length (mem_regions f0)"
    and al: "base mod 4096 = 0 \<or> n \<le> 4096"
    and bar: "\<forall>x. base \<le> x \<longrightarrow> x < base + int n \<longrightarrow> match_bar x False f0 = Inr [(r, x - base)]"
    by (auto simp: link_ok_def link_me_def)
  let ?a = "tlp_address t - base"
  have h: "has_data t" "is_mem t"
    using assms(3) by (auto simp: is_mem_write_def has_data_def is_mem_def fmt_type_def tlp_type_defs)
  have len: "int (length data) = tlp_length t * 4" by (rule length_get_data [OF assms(2) h(1) assms(4)])
  have m: "match_bar (tlp_address t) False (me_with f0 r bs) = Inr [(r, ?a)]" using bar assms(5-7) by simp
  have x: "\<not> crosses_4k t ?a" by (rule link_no_cross [OF assms(2) h(2) al assms(6,7)])
  from handle_mem_write_bytes [OF assms(2) h(1) assms(4,5) m x, of bs] bs assms(6,7) obtain bs' where
    bs': "handle_mem_write_tlp t (me_with f0 r bs) = Inr ((me_with f0 r bs)\<lparr>mem_regions := (mem_regions (me_with f0 r bs))[r := ByteArray bs']\<rparr>)"
    "length bs' = length bs"
    "\<forall>i. byte_at bs' i = (if be_enabled t (i - ?a) then byte_at data (i - ?a) else byte_at bs i)"
    by (auto simp: me_with_def)
  have e: "(me_with f0 r bs)\<lparr>mem_regions := (mem_regions (me_with f0 r bs))[r := ByteArray bs']\<rparr> = me_with f0 r bs'"
    by (simp add: me_with_def)
  let ?w = "w\<lparr>lk_me := me_with f0 r bs'\<rparr>"
  have "port_send link_port t w = Inr ?w"
    using assms(2) handle_write [OF assms(3), of "me_with f0 r bs"] bs'(1)
    by (simp add: link_port_def rc_port_def downstream_send_def link_deliver_def me_upstream_recv_def bs(1) e)
  moreover have "\<forall>b\<in>set bs'. is_byte b"
    using bs'(3) bs(3) pack_dwords_bytes [of "tlp_data t" data] assms(4)
    unfolding bytes_by_position [symmetric] by (simp add: get_data_def)
  then have "link_ok f0 r base n ?w"
    using assms(1) bs bs'(2) bar al by (auto simp: link_ok_def link_me_def intro!: exI [of _ bs'])
  moreover have "link_view r base ?w i =
      (if be_enabled t (i - tlp_address t) then byte_at data (i - tlp_address t) else link_view r base w i)" for i
    using bs'(3) [rule_format, of "i - base"] bs(1,4) by (simp add: link_view_def me_view_def me_with_def algebra_simps)
  ultimately show ?thesis by blast
qed

lemma link_read:
  assumes "link_ok f0 r base n w" "check t" "is_mem_read t" "1 \<le> tlp_length t" "0 \<le> tlp_tag t" "tlp_tag t < 32"
    "tlp_address t mod 4 = 0" "base \<le> tlp_address t" "tlp_address t + tlp_length t * 4 \<le> base + int n"
  shows "\<exists>w' cs data lim. port_send link_port t w = Inr w' \<and> link_busy f0 r base n w' (tlp_tag t) cs \<and>
     link_view r base w' = link_view r base w \<and> (\<forall>c\<in>set cs. tlp_status c = CPL_STATUS_SC \<and> fmt_type c = TLP_CPL_DATA) \<and>
     int (length data) = tlp_length t * 4 \<and>
     (\<forall>i. 0 \<le> i \<longrightarrow> i < tlp_length t * 4 \<longrightarrow> link_view r base w (tlp_address t + i) = byte_at data i) \<and>
     cpls_ok lim (tlp_address t + get_first_be_offset t) (get_be_byte_count t) data cs"
proof -
  from assms(1) obtain bs where bs: "lk_me w = me_with f0 r bs" "length bs = n" "\<forall>b\<in>set bs. is_byte b" "r < length (mem_regions f0)"
    and al: "base mod 4096 = 0 \<or> n \<le> 4096" and q: "rc_cpl_queues (lk_rc w) = replicate 256 []" "lk_wire w = []"
    and bar: "\<forall>x. base \<le> x \<longrightarrow> x < base + int n \<longrightarrow> match_bar x False f0 = Inr [(r, x - base)]"
    by (auto simp: link_ok_def link_me_def)
  let ?a = "tlp_address t - base" and ?f = "me_with f0 r bs"
  let ?data = "py_slice ?a (?a + tlp_length t * 4) bs"
  have h: "is_mem t" using assms(3) by (auto simp: is_mem_read_def is_mem_def)
  have in_: "0 \<le> ?a" "?a \<le> ?a + tlp_length t * 4" "?a + tlp_length t * 4 \<le> int (length bs)" using assms(4,8,9) bs(2) by auto
  have len: "length ?data = nat (tlp_length t * 4)" by (simp add: length_py_slice [OF in_])
  have byt: "\<forall>b\<in>set ?data. is_byte b" using bs(3) by (auto simp: py_slice_def dest!: in_set_dropD in_set_takeD)
  have m: "match_bar (tlp_address t) False ?f = Inr [(r, ?a)]" using bar assms(4,8,9) by simp
  have x: "\<not> crosses_4k t ?a" by (rule link_no_cross [OF assms(2) h al assms(8,9)])
  have "bs \<noteq> []" using in_ assms(4) by auto
  then have rr: "read_region r ?a (tlp_length t * 4) ?f = Inr ?data" using bs(4) by (simp add: read_region_def me_with_def)
  let ?mps = "max_payload_size (pr_device_ctrl (pcie ?f))"
  have "0 \<le> tlp_length t" "length ?data = 4 * nat (tlp_length t)" using len assms(4) by simp_all
  from mem_completions_ok [OF this byt assms(7), of "get_id ?f" ?mps] obtain cs where cs:
    "mem_completions t (get_id ?f) ?mps ?data = Inr cs" "\<forall>c\<in>set cs. answers t (get_id ?f) c"
    "cpls_ok (32 * 2 ^ nat ?mps) (tlp_address t + get_first_be_offset t) (get_be_byte_count t) ?data cs"
    by blast
  have tags: "\<forall>c\<in>set cs. check c \<and> fmt_type c = TLP_CPL_DATA \<and> tlp_tag c = tlp_tag t"
    using cs(2) cpls_ok_check [OF cs(3)] by (auto simp: answers_def)
  have hm: "handle_mem_read_tlp t ?f = Inr cs" using m x rr cs(1) by (simp add: handle_mem_read_tlp_def)
  let ?w = "w\<lparr>lk_me := ?f, lk_wire := cs\<rparr>"
  have "port_send link_port t w = Inr ?w"
    using assms(2) handle_read [OF assms(3), of ?f] hm q(2)
    by (simp add: link_port_def rc_port_def downstream_send_def link_deliver_def me_upstream_recv_def bs(1))
  moreover have "link_busy f0 r base n ?w (tlp_tag t) cs"
    using assms(5,6) tags q(1) bs bar al by (auto simp: link_busy_def link_me_def)
  moreover have "link_view r base ?w = link_view r base w" by (rule ext) (simp add: link_view_def bs(1))
  moreover have "link_view r base w (tlp_address t + i) = byte_at ?data i" if "0 \<le> i" "i < tlp_length t * 4" for i
    using that bs(1,4) byte_at_slice [OF in_, of i] by (simp add: link_view_def me_view_def me_with_def algebra_simps)
  moreover have "int (length ?data) = tlp_length t * 4" using len assms(4) by simp
  ultimately show ?thesis using cs(2,3) by (auto simp: answers_def)
qed

lemma link_tag:
  assumes "link_ok f0 r base n w"
  shows "\<exists>w' tag. port_tag link_port w = (w', Some tag) \<and> link_ok f0 r base n w' \<and>
    link_view r base w' = link_view r base w \<and> 0 \<le> tag \<and> tag < 32"
proof -
  let ?t = "(rc_current_tag (lk_rc w) + 1) mod 32"
  have t: "0 \<le> ?t" "?t < 32" by simp_all
  have q: "rc_cpl_queues (lk_rc w) = replicate 256 []" using assms by (simp add: link_ok_def)
  have "nat ?t < 256" using t by linarith
  then have "tag_loop 32 32 (rc_cpl_queues (lk_rc w)) (rc_current_tag (lk_rc w)) = (?t, Some ?t)"
    using tag_loop.simps(2) [of 31 32 "replicate 256 []" "rc_current_tag (lk_rc w)"] by (simp add: q Let_def)
  then have "port_tag link_port w = (w\<lparr>lk_rc := (lk_rc w)\<lparr>rc_current_tag := ?t\<rparr>\<rparr>, Some ?t)"
    by (simp add: link_port_def rc_port_def rc_get_free_tag_def link_lens_def)
  moreover have "link_ok f0 r base n (w\<lparr>lk_rc := (lk_rc w)\<lparr>rc_current_tag := ?t\<rparr>\<rparr>)"
    using assms by (simp add: link_ok_def)
  ultimately show ?thesis using t by (auto simp: link_view_def)
qed

lemma link_recv:
  assumes "link_busy f0 r base n w tag (c # cs)"
  shows "\<exists>w'. port_recv link_port tag timeout w = Inr (w', Some c) \<and> link_busy f0 r base n w' tag cs \<and>
    link_view r base w' = link_view r base w"
proof -
  have t: "0 \<le> tag" "tag < 32" and q: "rc_cpl_queues (lk_rc w) = replicate 256 []" "lk_wire w = c # cs"
    and c: "check c" "fmt_type c = TLP_CPL_DATA" "tlp_tag c = tag" using assms by (auto simp: link_busy_def)
  let ?q = "(replicate 256 [])[nat tag := [c]] :: tlp list list"
  let ?w = "w\<lparr>lk_wire := cs, lk_rc := (lk_rc w)\<lparr>rc_cpl_queues := ?q\<rparr>\<rparr>"
  have "link_wait tag timeout w = Inr ?w"
    using recv_one [OF t c q(1)] c(3) by (simp add: link_wait_def q(2))
  moreover have "nat tag < 256" using t by simp
  then have "recv_cpl tag ?q = Inr (?q[nat tag := []], Some c)" using t by (simp add: recv_cpl_def py_index_def)
  moreover have "?q[nat tag := []] = replicate 256 []"
    using \<open>nat tag < 256\<close> by (metis length_replicate list_update_id list_update_overwrite nth_replicate)
  ultimately show ?thesis using assms q
    by (simp add: link_port_def rc_port_def rc_recv_cpl_def link_lens_def link_busy_def link_view_def fun_eq_iff)
qed

interpretation link: memory_port link_port "link_view r (4 * b)" "4 * b" "4 * b + 4 * int q" "link_ok f0 r (4 * b) (4 * q)"
  "link_busy f0 r (4 * b) (4 * q)" for r b q f0
proof (unfold_locales, goal_cases)
  case (3 s)
  then show ?case by (rule link_tag)
next
  case (4 s t data)
  then show ?case using link_write [of f0 r "4 * b" "4 * q" s t data] by simp
next
  case (5 s t)
  then show ?case using link_read [of f0 r "4 * b" "4 * q" s t] by simp
next
  case (6 s tag c cs timeout)
  then show ?case by (rule link_recv)
next
  case (7 s tag)
  then show ?case by (simp add: link_busy_def link_ok_def)
qed simp_all

section \<open>Properties\<close>

text \<open>C26. A memory write of the root complex to an endpoint stores exactly its bytes. Whatever the
  length and the alignment of the data, the loop that cuts it into packets ends, every packet passes the checks
  of both sides, and afterwards the bytes of the region are the old ones
  with the data at its place.\<close>

theorem rc_mem_write_stores:
  assumes "link_ok f0 r (4 * b) (4 * q) w" and "find_region addr (lk_rc w) = None" and "\<forall>x\<in>set data. is_byte x"
    and "4 * b \<le> addr" and "addr + int (length data) \<le> 4 * b + 4 * int q"
  shows "\<exists>w'. rc_mem_write link_lens link_port addr attr tc data w = Inr w' \<and> link_ok f0 r (4 * b) (4 * q) w' \<and>
     (\<forall>i. link_view r (4 * b) w' i =
        (if addr \<le> i \<and> i < addr + int (length data) then byte_at data (i - addr) else link_view r (4 * b) w i))"
proof -
  from link.mem_write_view [OF assms(1), of 0 data addr attr tc] assms(3-5) obtain w' where
    "mem_write_loop link_port attr tc data addr 0 w = Inr w'" "link_ok f0 r (4 * b) (4 * q) w'"
    "\<forall>i. link_view r (4 * b) w' i =
        (if addr \<le> i \<and> i < addr + int (length data) then byte_at data (i - addr) else link_view r (4 * b) w i)" by auto
  then show ?thesis using assms(2) by (auto simp: rc_mem_write_def link_lens_def)
qed

text \<open>C27. A memory read of the root complex from an endpoint comes to an end and returns the bytes of the
  region, in one piece, however many requests and completions it takes. No timeout is set, so every wait goes on until a
  completion arrives, and would block for good if none did: each of the waits is met by exactly one arrival, and none comes
  after the last. The memory is unchanged and no completion is left over, in a queue or on its way.\<close>

theorem rc_mem_read_returns:
  assumes "link_ok f0 r (4 * b) (4 * q) w" and "find_region addr (lk_rc w) = None"
    and "0 \<le> len" and "4 * b \<le> addr" and "addr + len \<le> 4 * b + 4 * int q"
  shows "\<exists>w' bs. rc_mem_read link_lens link_port addr 0 attr tc len w = Some (Inr (w', Some bs)) \<and>
     link_ok f0 r (4 * b) (4 * q) w' \<and> link_view r (4 * b) w' = link_view r (4 * b) w \<and> int (length bs) = len \<and>
     (\<forall>i. 0 \<le> i \<longrightarrow> i < len \<longrightarrow> byte_at bs i = link_view r (4 * b) w (addr + i))"
proof -
  from link.mem_read_view [OF assms(1), of 0 len addr 0 attr tc "[]"] assms(3-5) obtain w' bs where
    "mem_read_loop link_port False 0 attr tc len addr 0 [] w = Some (Inr (w', bs))" "link_ok f0 r (4 * b) (4 * q) w'"
    "link_view r (4 * b) w' = link_view r (4 * b) w" "int (length bs) = len"
    "\<forall>i. 0 \<le> i \<longrightarrow> i < len \<longrightarrow> byte_at bs i = link_view r (4 * b) w (addr + i)" by auto
  then show ?thesis using assms(2) by (simp add: rc_mem_read_def link_lens_def)
qed

text \<open>An endpoint with one memory region of 512 bytes at address 0.\<close>

definition example_link :: "py_error + link" where
  "example_link = try_bind (try_bind new_memory_endpoint (add_mem_region (\<lambda>_. 9) 512 None False)) (\<lambda>f.
     Inr \<lparr>lk_rc = init_root_complex, lk_me = f, lk_wire = []\<rparr>)"

lemma example_link_ok:
  "\<exists>w. example_link = Inr w \<and> link_ok (lk_me w) 0 (4 * 0) (4 * 128) w \<and> find_region x (lk_rc w) = None \<and>
     (\<forall>i. 0 \<le> i \<longrightarrow> i < 512 \<longrightarrow> link_view 0 (4 * 0) w i = Some 0)"
proof -
  have "case example_link of Inl e \<Rightarrow> False
    | Inr w \<Rightarrow> lk_wire w = [] \<and> zip (bar (lk_me w)) (bar_mask (lk_me w)) = (0, 0xfffffe00) # replicate 5 (0, 0) \<and>
        length (mem_regions (lk_me w)) = 6 \<and> rc_cpl_queues (lk_rc w) = replicate 256 [] \<and> rc_regions (lk_rc w) = [] \<and>
        (case mem_regions (lk_me w) ! 0 of ByteArray bs \<Rightarrow> bs = replicate 512 0 | _ \<Rightarrow> False)" by code_simp
  then obtain w where w: "example_link = Inr w" "zip (bar (lk_me w)) (bar_mask (lk_me w)) = (0, 0xfffffe00) # replicate 5 (0, 0)"
    "length (mem_regions (lk_me w)) = 6" "rc_cpl_queues (lk_rc w) = replicate 256 []" "rc_regions (lk_rc w) = []"
    "mem_regions (lk_me w) ! 0 = ByteArray (replicate 512 0)" "lk_wire w = []" by (auto split: sum.splits mem_region.splits)
  have "match_bar x False (lk_me w) = Inr [(0, x)]" if "0 \<le> x" "x < 512" for x
  proof -
    have m: "(0xfffffe00 :: int) = push_bit 9 (mask 23)" by (simp add: push_bit_eq_mult mask_eq_exp_minus_1)
    have b: "n < 9" if "bit x n" for n using that \<open>0 \<le> x\<close> \<open>x < 512\<close> bit_above_exp [of x 9 n] by force
    have "x AND 0xfffffe00 = 0" "x AND NOT 0xfffffe00 = x"
      unfolding m by (rule bit_eqI; use b in \<open>force simp: bit_and_iff bit_not_iff bit_push_bit_iff\<close>)+
    then show ?thesis by (simp add: match_bar_def w(2) bar_hit_def numeral_eq_Suc)
  qed
  moreover have "me_with (lk_me w) 0 (replicate 512 0) = lk_me w"
    unfolding me_with_def w(6) [symmetric] list_update_id by simp
  then have "\<exists>bs. lk_me w = me_with (lk_me w) 0 bs \<and> length bs = 512 \<and> (\<forall>b\<in>set bs. is_byte b)"
    by (intro exI [of _ "replicate 512 0"]) (simp add: is_byte_def)
  ultimately have "link_ok (lk_me w) 0 (4 * 0) (4 * 128) w" using w(3,4,7) by (simp add: link_ok_def link_me_def)
  moreover have "link_view 0 (4 * 0) w i = Some 0" if "0 \<le> i" "i < 512" for i
  proof -
    have "nat i < 512" using that by simp
    then show ?thesis using that by (simp add: link_view_def me_view_def w(6) byte_at_def)
  qed
  ultimately show ?thesis using w(1,5) by (auto simp: find_region_def)
qed

theorem rc_mem_write_stores_witness:
  "\<exists>w w'. example_link = Inr w \<and> rc_mem_write link_lens link_port 5 0 0 [0xaa, 0xbb, 0xcc, 0xdd] w = Inr w' \<and>
     link_view 0 (4 * 0) w' 4 = Some 0 \<and> link_view 0 (4 * 0) w' 8 = Some 0xdd"
proof -
  obtain w where w: "example_link = Inr w" "link_ok (lk_me w) 0 (4 * 0) (4 * 128) w" "find_region 5 (lk_rc w) = None"
    "\<forall>i. 0 \<le> i \<longrightarrow> i < 512 \<longrightarrow> link_view 0 (4 * 0) w i = Some 0" using example_link_ok by blast
  from rc_mem_write_stores [OF w(2,3), of "[0xaa, 0xbb, 0xcc, 0xdd]" 0 0] obtain w' where
    w': "rc_mem_write link_lens link_port 5 0 0 [0xaa, 0xbb, 0xcc, 0xdd] w = Inr w'"
    "\<forall>i. link_view 0 (4 * 0) w' i =
       (if 5 \<le> i \<and> i < 5 + int (length [0xaa, 0xbb, 0xcc, 0xdd]) then byte_at [0xaa, 0xbb, 0xcc, 0xdd] (i - 5) else link_view 0 (4 * 0) w i)"
    by (auto simp: is_byte_def)
  have "link_view 0 (4 * 0) w' 4 = Some 0" unfolding w'(2) [rule_format] using w(4) by simp
  moreover have "link_view 0 (4 * 0) w' 8 = Some 0xdd" unfolding w'(2) [rule_format] by (simp add: byte_at_def)
  ultimately show ?thesis using w(1) w'(1) by blast
qed

theorem rc_mem_read_returns_witness:
  "\<exists>w w' bs. example_link = Inr w \<and> rc_mem_read link_lens link_port 5 0 0 0 300 w = Some (Inr (w', Some bs)) \<and>
     length bs = 300 \<and> byte_at bs 200 = Some 0"
proof -
  obtain w where w: "example_link = Inr w" "link_ok (lk_me w) 0 (4 * 0) (4 * 128) w" "find_region 5 (lk_rc w) = None"
    "\<forall>i. 0 \<le> i \<longrightarrow> i < 512 \<longrightarrow> link_view 0 (4 * 0) w i = Some 0" using example_link_ok by blast
  have c: "(0 :: int) \<le> 300" "4 * 0 \<le> (5 :: int)" "5 + 300 \<le> 4 * 0 + 4 * int 128" by simp_all
  from rc_mem_read_returns [OF w(2,3) c, of 0 0] obtain w' bs where
    w': "rc_mem_read link_lens link_port 5 0 0 0 300 w = Some (Inr (w', Some bs))" "int (length bs) = 300"
    "\<forall>i. 0 \<le> i \<longrightarrow> i < 300 \<longrightarrow> byte_at bs i = link_view 0 (4 * 0) w (5 + i)" by auto
  have "byte_at bs 200 = Some 0" using w'(3) w(4) by simp
  moreover have "length bs = 300" using w'(2) by simp
  ultimately show ?thesis using w(1) w'(1) by blast
qed

text \<open>C28. A memory read of a function fails with an assertion as soon as it runs over a boundary of 4096 bytes, although
  it is meant to be split there: the byte enables of the first request are computed for the
  whole length, so the packet is refused before it is sent.\<close>

theorem fn_mem_read_crossing_fails:
  assumes "mastering l s" and "get_free_tag (lens_get l s) = (f, Some tag)" and "(addr AND 0xfff) + len > 0x1000"
  shows "fn_mem_read l (fn_port l deliver wait) addr timeout attr tc len s = Some (Inl AssertionError)"
proof -
  let ?p = "fn_port l deliver wait"
  have "addr AND 0xfff \<le> (0xfff :: int)" by (rule AND_upper2) simp
  then have len: "1 \<le> len" using assms(3) by linarith
  let ?s = "lens_put l f s"
  let ?t0 = "(request (mem_type addr TLP_MEM_READ TLP_MEM_READ_64) (port_id ?p ?s) tag)\<lparr>tlp_attr := attr, tlp_tc := tc\<rparr>"
  obtain t a b where be: "set_be addr len ?t0 = (t, a, b)" by (metis prod_cases3)
  note r = set_be_request [OF len be]
  have and_mod: "x AND 0xfff = x mod 4096" for x :: int
    using take_bit_eq_mask [of 12 x] by (simp add: mask_eq_exp_minus_1 take_bit_eq_mod)
  have ad: "tlp_address t = addr - addr mod 4" using r(1) minus_mod_eq_mult_div [of addr 4] by simp
  have pg: "(addr - addr mod 4) mod 4096 = addr mod 4096 - addr mod 4"
  proof -
    let ?r = "addr mod 4096"
    have "?r mod 4 = addr mod 4" by (simp add: mod_mod_cancel)
    moreover have "0 \<le> ?r" "?r < 4096" by simp_all
    ultimately have b: "0 \<le> ?r - addr mod 4" "?r - addr mod 4 < 4096"
      using zmod_le_nonneg_dividend [of ?r 4] pos_mod_sign [of 4 addr] by linarith+
    have "addr - addr mod 4 = 4096 * (addr div 4096) + (?r - addr mod 4)" using mult_div_mod_eq [of 4096 addr] by linarith
    then show ?thesis using b by (metis mod_mult_self4 mod_pos_pos_trivial)
  qed
  have "tlp_length t * 4 > 0x1000 - (tlp_address t AND 0xfff)"
    using assms(3) r(5,6) unfolding and_mod ad pg by linarith
  moreover have "is_mem t" using r(10) by (auto simp: is_mem_def mem_type_def request_def set_fmt_type_def fmt_type_def)
  ultimately have "\<not> check t" by (simp add: check_def)
  then show ?thesis
    using assms(1,2) len be unfolding fn_mem_read_def
    by (subst mem_read_loop.simps) (simp add: with_tag_def fn_port_def Let_def upstream_send_def)
qed

theorem fn_mem_read_crossing_fails_witness:
  "\<exists>f. new_endpoint = Inr f \<and> fn_mem_read \<lparr>lens_get = (\<lambda>f. f), lens_put = (\<lambda>f _. f)\<rparr>
     (fn_port \<lparr>lens_get = (\<lambda>f. f), lens_put = (\<lambda>f _. f)\<rparr> (\<lambda>t s. Inr s) (\<lambda>tag timeout s. Inr s)) 0xffe 0 0 0 4
     (f\<lparr>bus_master_enable := True\<rparr>) = Some (Inl AssertionError)"
proof -
  have "case new_endpoint of Inl e \<Rightarrow> False
    | Inr f \<Rightarrow> snd (get_free_tag (f\<lparr>bus_master_enable := True\<rparr>)) = Some 1" by code_simp
  then obtain f where f: "new_endpoint = Inr f" "snd (get_free_tag (f\<lparr>bus_master_enable := True\<rparr>)) = Some 1"
    by (auto split: sum.splits)
  obtain f' where "get_free_tag (f\<lparr>bus_master_enable := True\<rparr>) = (f', Some 1)" using f(2) by (metis prod.collapse)
  then show ?thesis using f(1)
    fn_mem_read_crossing_fails [of "\<lparr>lens_get = (\<lambda>f. f), lens_put = (\<lambda>f _. f)\<rparr>" "f\<lparr>bus_master_enable := True\<rparr>" f' 1 "0xffe" 4]
    by (intro exI [of _ f] conjI) (simp_all add: mastering_def)
qed

end
