(* ===== verification/PCIE_Routing.thy ===== *)
theory PCIE_Routing
  imports PCIE_Memory
begin

text \<open>
  How packets find their way (classes \<open>Port\<close>, \<open>BusPort\<close>, \<open>Bridge\<close>, \<open>SwitchUpstreamPort\<close>,
  \<open>Device\<close> and \<open>Switch\<close> of \<open>pcie.py\<close>): the connection of ports, the decision a bridge takes for a packet from above or below, the choice of a port
  below a switch, the choice of a function of a device, and the numbering of functions and
  devices. The value of a decision says where the packet goes; acting on it is the business of
  the chosen component.
\<close>

section \<open>Ports\<close>

text \<open>
  Ports refer to each other by their index in a store. A plain port has one partner, a bus
  port a list of them. The transmit queue of a port and its delays belong to the simulator's
  scheduler and are left out: only who receives a transmitted packet is modelled.
\<close>

datatype partner = Single "nat option" | Many "nat list"

record port_state =
  po_other :: partner
  max_speed :: int
  max_width :: int
  port_delay :: int
  cur_speed :: int
  cur_width :: int
  link_delay :: int

definition init_port :: port_state where
  "init_port = \<lparr>po_other = Single None, max_speed = 3, max_width = 16,
     port_delay = 5, cur_speed = 1, cur_width = 1, link_delay = 0\<rparr>"

definition init_bus_port :: port_state where
  "init_bus_port = init_port\<lparr>po_other := Many []\<rparr>"

definition refuses :: "partner \<Rightarrow> nat \<Rightarrow> bool" where
  "refuses ps q = (case ps of Single p \<Rightarrow> p \<noteq> None | Many qs \<Rightarrow> q \<in> set qs)"

definition add_partner :: "partner \<Rightarrow> nat \<Rightarrow> partner" where
  "add_partner ps q = (case ps of Single p \<Rightarrow> Single (Some q) | Many qs \<Rightarrow> Many (qs @ [q]))"

definition connect_int :: "nat \<Rightarrow> nat \<Rightarrow> port_state list \<Rightarrow> py_error + port_state list" where
  "connect_int a b st =
     (if refuses (po_other (st ! a)) b then Inl (OtherException ''Already connected'')
      else Inr (st[a := (st ! a)\<lparr>po_other := add_partner (po_other (st ! a)) b,
                                cur_speed := min (max_speed (st ! a)) (max_speed (st ! b)),
                                cur_width := min (max_width (st ! a)) (max_width (st ! b)),
                                link_delay := port_delay (st ! a) + port_delay (st ! b)\<rparr>]))"

definition connect :: "nat \<Rightarrow> nat \<Rightarrow> port_state list \<Rightarrow> py_error + port_state list" where
  "connect a b st =
     (if refuses (po_other (st ! a)) b then Inl (OtherException ''Already connected'')
      else try_bind (connect_int b a st) (connect_int a b))"

text \<open>Where a transmitted packet arrives: at the partner, or as a copy at every partner of a bus port.\<close>

definition port_receivers :: "tlp \<Rightarrow> port_state \<Rightarrow> py_error + (nat \<times> tlp) list" where
  "port_receivers t p =
     (case po_other p of
        Single None \<Rightarrow> Inl (OtherException ''Port not connected'')
      | Single (Some q) \<Rightarrow> Inr [(q, t)]
      | Many [] \<Rightarrow> Inl (OtherException ''Port not connected'')
      | Many qs \<Rightarrow> Inr (map (\<lambda>q. (q, copy_tlp t)) qs))"

section \<open>Bridges\<close>

text \<open>
  The flag of \<open>RouteDown\<close> is the argument \<open>from_downstream\<close> of \<open>route_downstream_tlp\<close>.
\<close>

datatype hop =
    Handle tlp
  | RouteDown tlp bool
  | SendUp tlp
  | Discard

definition is_cfg0 :: "tlp \<Rightarrow> bool" where
  "is_cfg0 t \<longleftrightarrow> fmt_type t = TLP_CFG_READ_0 \<or> fmt_type t = TLP_CFG_WRITE_0"

definition is_cfg1 :: "tlp \<Rightarrow> bool" where
  "is_cfg1 t \<longleftrightarrow> fmt_type t = TLP_CFG_READ_1 \<or> fmt_type t = TLP_CFG_WRITE_1"

definition is_msg_id :: "tlp \<Rightarrow> bool" where
  "is_msg_id t \<longleftrightarrow> fmt_type t = TLP_MSG_ID \<or> fmt_type t = TLP_MSG_DATA_ID"

definition is_mem_rw :: "tlp \<Rightarrow> bool" where
  "is_mem_rw t \<longleftrightarrow> fmt_type t = TLP_MEM_READ \<or> fmt_type t = TLP_MEM_READ_64 \<or>
     fmt_type t = TLP_MEM_WRITE \<or> fmt_type t = TLP_MEM_WRITE_64"

definition is_msg_to_rc :: "tlp \<Rightarrow> bool" where
  "is_msg_to_rc t \<longleftrightarrow> fmt_type t = TLP_MSG_TO_RC \<or> fmt_type t = TLP_MSG_DATA_TO_RC"

definition is_msg_bcast :: "tlp \<Rightarrow> bool" where
  "is_msg_bcast t \<longleftrightarrow> fmt_type t = TLP_MSG_BCAST \<or> fmt_type t = TLP_MSG_DATA_BCAST"

definition is_msg_local :: "tlp \<Rightarrow> bool" where
  "is_msg_local t \<longleftrightarrow> fmt_type t = TLP_MSG_LOCAL \<or> fmt_type t = TLP_MSG_DATA_LOCAL"

definition is_msg_gather :: "tlp \<Rightarrow> bool" where
  "is_msg_gather t \<longleftrightarrow> fmt_type t = TLP_MSG_GATHER \<or> fmt_type t = TLP_MSG_DATA_GATHER"

definition bus_below :: "'a bridge_scheme \<Rightarrow> int \<Rightarrow> bool" where
  "bus_below b x \<longleftrightarrow> sec_bus_num b \<le> x \<and> x \<le> sub_bus_num b"

definition io_below :: "'a bridge_scheme \<Rightarrow> int \<Rightarrow> bool" where
  "io_below b x \<longleftrightarrow> io_base b \<le> x \<and> x \<le> io_limit b"

definition mem_below :: "'a bridge_scheme \<Rightarrow> int \<Rightarrow> bool" where
  "mem_below b x \<longleftrightarrow> mem_base b \<le> x \<and> x \<le> mem_limit b \<or> prefetchable_mem_base b \<le> x \<and> x \<le> prefetchable_mem_limit b"

text \<open>A configuration request of type 1 for the secondary bus becomes one of type 0.\<close>

definition to_type0 :: "'a bridge_scheme \<Rightarrow> tlp \<Rightarrow> tlp" where
  "to_type0 b t =
     (if bus (tlp_dest_id t) = sec_bus_num b
      then if fmt_type t = TLP_CFG_READ_1 then set_fmt_type TLP_CFG_READ_0 t
           else if fmt_type t = TLP_CFG_WRITE_1 then set_fmt_type TLP_CFG_WRITE_0 t
           else t
      else t)"

text \<open>A packet from above.\<close>

definition br_upstream_recv :: "tlp \<Rightarrow> 'a bridge_scheme \<Rightarrow> py_error + hop" where
  "br_upstream_recv t b =
     (if \<not> check t then Inl AssertionError
      else if is_cfg0 t then Inr (Handle t)
      else if is_cfg1 t
      then Inr (if bus_below b (bus (tlp_dest_id t)) then RouteDown (to_type0 b t) False else Discard)
      else if is_completion t
      then Inr (if \<not> is_root b \<and> tlp_requester_id t = get_id b then Handle t
                else if bus_below b (bus (tlp_requester_id t)) then RouteDown t False
                else Discard)
      else if is_msg_id t
      then Inr (if \<not> is_root b \<and> tlp_dest_id t = get_id b then Handle t
                else if bus_below b (bus (tlp_dest_id t)) then RouteDown t False
                else Discard)
      else if is_io t
      then try_bind (match_bar (tlp_address t) True b) (\<lambda>m.
             Inr (if m \<noteq> [] then Handle t else if io_below b (tlp_address t) then RouteDown t False else Discard))
      else if is_mem_rw t
      then try_bind (match_bar (tlp_address t) False b) (\<lambda>m.
             Inr (if m \<noteq> [] then Handle t else if mem_below b (tlp_address t) then RouteDown t False else Discard))
      else if is_msg_to_rc t then Inr Discard
      else if is_msg_bcast t then Inr (RouteDown t False)
      else if is_msg_local t then Inr Discard
      else if is_msg_gather t then Inr Discard
      else Inl (OtherException ''Unknown/invalid packet type''))"

text \<open>A packet from below.\<close>

definition by_id :: "'a bridge_scheme \<Rightarrow> pcie_id \<Rightarrow> tlp \<Rightarrow> hop" where
  "by_id b i t =
     (if \<not> is_root b \<and> i = get_id b then Handle t
      else if bus_below b (bus i)
      then if is_root b \<and> bus i = pri_bus_num b \<and> device i = 0 then SendUp t else RouteDown t True
      else SendUp t)"

definition br_downstream_recv :: "tlp \<Rightarrow> 'a bridge_scheme \<Rightarrow> py_error + hop" where
  "br_downstream_recv t b =
     (if \<not> check t then Inl AssertionError
      else if is_cfg0 t \<or> is_cfg1 t then Inr Discard
      else if is_completion t then Inr (by_id b (tlp_requester_id t) t)
      else if is_msg_id t then Inr (by_id b (tlp_dest_id t) t)
      else if is_io t
      then try_bind (match_bar (tlp_address t) True b) (\<lambda>m.
             Inr (if m \<noteq> [] then Handle t else if io_below b (tlp_address t) then RouteDown t True else SendUp t))
      else if is_mem_rw t
      then try_bind (match_bar (tlp_address t) False b) (\<lambda>m.
             Inr (if m \<noteq> [] then Handle t else if mem_below b (tlp_address t) then RouteDown t True else SendUp t))
      else if is_msg_to_rc t then Inr (SendUp t)
      else if is_msg_bcast t then Inr Discard
      else if is_msg_local t then Inr Discard
      else if is_msg_gather t then Inl (OtherException ''TODO'')
      else Inl (OtherException ''Unknown/invalid packet type''))"

text \<open>A plain bridge sends what it routes downwards to the port below it.\<close>

definition br_downstream_send :: "tlp \<Rightarrow> py_error + tlp list" where
  "br_downstream_send t = (if check t then Inr [t] else Inl AssertionError)"

section \<open>Switches\<close>

text \<open>What is attached to the ports below a switch.\<close>

datatype child = ChildBridge bridge | ChildFunction pfunction

definition child_fn :: "child \<Rightarrow> int \<times> int \<times> pcie_id" where
  "child_fn c =
     (case c of
        ChildBridge b \<Rightarrow> (device_num b, function_num b, get_id b)
      | ChildFunction f \<Rightarrow> (device_num f, function_num f, get_id f))"

definition child_match :: "int \<Rightarrow> bool \<Rightarrow> child \<Rightarrow> py_error + bool" where
  "child_match addr io c =
     try_bind (case c of ChildBridge b \<Rightarrow> match_bar addr io b | ChildFunction f \<Rightarrow> match_bar addr io f) (\<lambda>m. Inr (m \<noteq> []))"

definition child_below :: "(bridge \<Rightarrow> bool) \<Rightarrow> child \<Rightarrow> bool" where
  "child_below P c = (case c of ChildBridge b \<Rightarrow> P b | ChildFunction f \<Rightarrow> False)"

datatype verdict = Take | TakeAndGoOn | Pass

definition port_verdict :: "tlp \<Rightarrow> child \<Rightarrow> py_error + verdict" where
  "port_verdict t c =
     (case child_fn c of
        (dev, fun_num, cid) \<Rightarrow>
          if is_cfg0 t
          then Inr (if device (tlp_dest_id t) = dev \<and> func (tlp_dest_id t) = fun_num then Take else Pass)
          else if is_cfg1 t
          then Inr (if child_below (\<lambda>b. bus_below b (bus (tlp_dest_id t))) c then Take else Pass)
          else if is_completion t
          then Inr (if tlp_requester_id t = cid \<or> child_below (\<lambda>b. bus_below b (bus (tlp_requester_id t))) c then Take else Pass)
          else if is_msg_id t
          then Inr (if tlp_dest_id t = cid \<or> child_below (\<lambda>b. bus_below b (bus (tlp_requester_id t))) c then Take else Pass)
          else if is_io t
          then try_bind (child_match (tlp_address t) True c) (\<lambda>m.
                 Inr (if m \<or> child_below (\<lambda>b. io_below b (tlp_address t)) c then Take else Pass))
          else if is_mem_rw t
          then try_bind (child_match (tlp_address t) False c) (\<lambda>m.
                 Inr (if m \<or> child_below (\<lambda>b. mem_below b (tlp_address t)) c then Take else Pass))
          else if is_msg_to_rc t then Inr Pass
          else if is_msg_bcast t then Inr TakeAndGoOn
          else if is_msg_local t then Inr Pass
          else if is_msg_gather t then Inr Pass
          else Inl (OtherException ''Unknown/invalid packet type''))"

text \<open>The loop over the ports. Each receiver gets a copy; the flag tells whether somebody took the packet.\<close>

fun route_ports :: "tlp \<Rightarrow> nat \<Rightarrow> child list \<Rightarrow> py_error + ((nat \<times> tlp) list \<times> bool)" where
  "route_ports t k [] = Inr ([], False)"
| "route_ports t k (c # cs) =
     try_bind (port_verdict t c) (\<lambda>v.
       case v of
         Take \<Rightarrow> Inr ([(k, copy_tlp t)], True)
       | TakeAndGoOn \<Rightarrow> try_bind (route_ports t (k + 1) cs) (\<lambda>(ds, _). Inr ((k, copy_tlp t) # ds, True))
       | Pass \<Rightarrow> route_ports t (k + 1) cs)"

datatype delivery = ToPort nat tlp | ToUp tlp

definition ur_of :: "tlp \<Rightarrow> 'a pfunction_scheme \<Rightarrow> tlp" where
  "ur_of t f = set_ur_completion t (PcieId (bus_num f) (device_num f) 0) new_tlp"

text \<open>A packet nobody takes is answered, upwards or, when it came from below, through the ports.\<close>

definition route_from_above :: "tlp \<Rightarrow> child list \<Rightarrow> 'a pfunction_scheme \<Rightarrow> py_error + delivery list" where
  "route_from_above t cs f =
     (if \<not> check t then Inl AssertionError
      else try_bind (route_ports t 0 cs) (\<lambda>(ds, taken).
             if taken then Inr (map (\<lambda>(k, t'). ToPort k t') ds)
             else try_bind (upstream_send (ur_of t f)) (\<lambda>out. Inr (map ToUp out))))"

definition route_downstream_tlp ::
  "tlp \<Rightarrow> bool \<Rightarrow> child list \<Rightarrow> 'a pfunction_scheme \<Rightarrow> py_error + delivery list" where
  "route_downstream_tlp t from_downstream cs f =
     (if \<not> from_downstream then route_from_above t cs f
      else if \<not> check t then Inl AssertionError
      else try_bind (route_ports t 0 cs) (\<lambda>(ds, taken).
             if taken then Inr (map (\<lambda>(k, t'). ToPort k t') ds)
             else route_from_above (ur_of t f) cs f))"

section \<open>Devices\<close>

record pdevice =
  dev_bus_num :: int
  dev_device_num :: int
  dev_functions :: "endpoint list"

text \<open>The functions are kept sorted by their number.\<close>

definition sort_functions :: "endpoint list \<Rightarrow> endpoint list" where
  "sort_functions fs = sort_key function_num fs"

fun first_gap :: "int \<Rightarrow> endpoint list \<Rightarrow> int option" where
  "first_gap x [] = None"
| "first_gap x (f # fs) = (if function_num f \<noteq> x then Some x else first_gap (x + 1) fs)"

definition next_free_function_number :: "pdevice \<Rightarrow> pdevice \<times> int option" where
  "next_free_function_number d =
     (let fs = sort_functions (dev_functions d); d' = d\<lparr>dev_functions := fs\<rparr>
      in if fs = [] then (d', Some 0)
         else case first_gap 0 fs of
                Some x \<Rightarrow> (d', Some x)
              | None \<Rightarrow> if length fs < 8 then (d', Some (int (length fs))) else (d', None))"

definition add_function :: "endpoint \<Rightarrow> pdevice \<Rightarrow> py_error + pdevice" where
  "add_function f d =
     (if \<exists>g\<in>set (dev_functions d). function_num g = function_num f then Inl (OtherException ''Function number already in use'')
      else let fs = sort_functions (dev_functions d @ [f])
           in Inr (d\<lparr>dev_functions := (if length fs > 1 then map (\<lambda>g. g\<lparr>header_type := header_type g OR 0x80\<rparr>) fs else fs)\<rparr>))"

text \<open>Without a free number the list with the unnumbered function cannot be sorted.\<close>

definition append_function :: "endpoint \<Rightarrow> pdevice \<Rightarrow> py_error + pdevice" where
  "append_function f d =
     (case next_free_function_number d of
        (d', None) \<Rightarrow> Inl TypeError
      | (d', Some x) \<Rightarrow> add_function (f\<lparr>function_num := x\<rparr>) d')"

text \<open>
  The constructor. When the loop over the functions fails, the constructor tries the whole list as one
  function, which fails the same way.
\<close>

fun append_functions :: "endpoint list \<Rightarrow> pdevice \<Rightarrow> py_error + pdevice" where
  "append_functions [] d = Inr d"
| "append_functions (f # fs) d = try_bind (append_function f d) (append_functions fs)"

definition new_device :: "endpoint list \<Rightarrow> py_error + pdevice" where
  "new_device eps = append_functions eps \<lparr>dev_bus_num = 0, dev_device_num = 0, dev_functions = []\<rparr>"

text \<open>Where a packet for a device goes: to the function at a position, back as an answer, or nowhere.\<close>

datatype dev_hop = ToFunction nat tlp | Answer tlp | Ignored

fun find_fn :: "(endpoint \<Rightarrow> py_error + bool) \<Rightarrow> nat \<Rightarrow> endpoint list \<Rightarrow> py_error + nat option" where
  "find_fn P k [] = Inr None"
| "find_fn P k (f # fs) = try_bind (P f) (\<lambda>b. if b then Inr (Some k) else find_fn P (k + 1) fs)"

definition dev_ur :: "tlp \<Rightarrow> pdevice \<Rightarrow> tlp" where
  "dev_ur t d = set_ur_completion t (PcieId (dev_bus_num d) (dev_device_num d) 0) new_tlp"

definition bar_matches :: "int \<Rightarrow> bool \<Rightarrow> endpoint \<Rightarrow> py_error + bool" where
  "bar_matches addr io f = try_bind (match_bar addr io f) (\<lambda>m. Inr (m \<noteq> []))"

definition dev_answer :: "tlp \<Rightarrow> pdevice \<Rightarrow> py_error + (pdevice \<times> dev_hop)" where
  "dev_answer t d = try_bind (upstream_send (dev_ur t d)) (\<lambda>_. Inr (d, Answer (dev_ur t d)))"

definition dev_upstream_recv :: "tlp \<Rightarrow> pdevice \<Rightarrow> py_error + (pdevice \<times> dev_hop)" where
  "dev_upstream_recv t d =
     (if \<not> check t then Inl AssertionError
      else if is_cfg0 t
      then if device (tlp_dest_id t) = dev_device_num d
           then let b = bus (tlp_dest_id t);
                    d' = d\<lparr>dev_bus_num := b, dev_functions := map (\<lambda>f. f\<lparr>bus_num := b\<rparr>) (dev_functions d)\<rparr>
                in try_bind (find_fn (\<lambda>f. Inr (function_num f = func (tlp_dest_id t))) 0 (dev_functions d')) (\<lambda>k.
                     case k of Some k \<Rightarrow> Inr (d', ToFunction k t) | None \<Rightarrow> dev_answer t d')
           else dev_answer t d
      else if is_completion t
      then if bus (tlp_requester_id t) = dev_bus_num d \<and> device (tlp_requester_id t) = dev_device_num d
           then try_bind (find_fn (\<lambda>f. Inr (function_num f = func (tlp_requester_id t))) 0 (dev_functions d)) (\<lambda>k.
                  Inr (d, case k of Some k \<Rightarrow> ToFunction k t | None \<Rightarrow> Ignored))
           else Inr (d, Ignored)
      else if is_io t
      then try_bind (find_fn (bar_matches (tlp_address t) True) 0 (dev_functions d)) (\<lambda>k.
             case k of Some k \<Rightarrow> Inr (d, ToFunction k t) | None \<Rightarrow> dev_answer t d)
      else if is_mem_rw t
      then try_bind (find_fn (bar_matches (tlp_address t) False) 0 (dev_functions d)) (\<lambda>k.
             case k of
               Some k \<Rightarrow> Inr (d, ToFunction k t)
             | None \<Rightarrow>
                 if fmt_type t = TLP_MEM_READ \<or> fmt_type t = TLP_MEM_READ_64 then dev_answer t d else Inr (d, Ignored))
      else Inl (OtherException ''TODO''))"

section \<open>Numbers of devices behind a switch\<close>

fun device_gap :: "int \<Rightarrow> (int \<times> int) list \<Rightarrow> int option" where
  "device_gap d [] = (if d < 32 then Some d else None)"
| "device_gap d ((dev, fn) # eps) = (if dev > d then Some d else device_gap (dev + 1) eps)"

text \<open>The endpoints of a switch as pairs of device and function number, kept sorted.\<close>

definition sort_endpoints :: "(int \<times> int) list \<Rightarrow> (int \<times> int) list" where
  "sort_endpoints eps = sort_key fst (sort_key snd eps)"

definition next_free_device_number :: "int \<Rightarrow> (int \<times> int) list \<Rightarrow> int option" where
  "next_free_device_number min_dev eps =
     (if eps = [] then Some min_dev else device_gap min_dev (sort_endpoints eps))"

text \<open>A switch whose device numbers are used up cannot sort its endpoints any more.\<close>

definition add_endpoint :: "int \<Rightarrow> (int \<times> int) list \<Rightarrow> py_error + (int \<times> int) list" where
  "add_endpoint min_dev eps =
     (case next_free_device_number min_dev eps of
        None \<Rightarrow> Inl TypeError
      | Some d \<Rightarrow> Inr (sort_endpoints (sort_endpoints eps @ [(d, 0)])))"

fun add_endpoints :: "nat \<Rightarrow> int \<Rightarrow> (int \<times> int) list \<Rightarrow> py_error + (int \<times> int) list" where
  "add_endpoints 0 min_dev eps = Inr eps"
| "add_endpoints (Suc n) min_dev eps = try_bind (add_endpoint min_dev eps) (add_endpoints n min_dev)"

end
