(* ===== verification/PCIE_Routing_Correct.thy ===== *)
theory PCIE_Routing_Correct
  imports PCIE_Routing "HOL-Library.Multiset"
begin

text \<open>
  Correctness of the routing of \<open>PCIE_Routing\<close>: a packet below a switch reaches the one bridge
  whose window or bus range contains its target and passes on through it, a packet nobody claims is answered, functions and devices
  get distinct numbers, and connecting ports keeps the connections symmetric.
\<close>

section \<open>Kinds of packets\<close>

lemmas msg_type_defs = fmt_defs TLP_MSG_TO_RC_def TLP_MSG_ADDR_def TLP_MSG_ID_def TLP_MSG_BCAST_def TLP_MSG_LOCAL_def
  TLP_MSG_GATHER_def TLP_MSG_DATA_TO_RC_def TLP_MSG_DATA_ADDR_def TLP_MSG_DATA_ID_def TLP_MSG_DATA_BCAST_def
  TLP_MSG_DATA_LOCAL_def TLP_MSG_DATA_GATHER_def

lemmas kind_defs = is_cfg0_def is_cfg1_def is_completion_def is_msg_id_def is_io_def is_mem_rw_def is_msg_to_rc_def
  is_msg_bcast_def is_msg_local_def is_msg_gather_def

lemma mem_rw_only:
  "is_mem_rw t \<Longrightarrow> \<not> is_cfg0 t \<and> \<not> is_cfg1 t \<and> \<not> is_completion t \<and> \<not> is_msg_id t \<and> \<not> is_io t"
  by (auto simp: kind_defs tlp_type_defs msg_type_defs)

lemma completion_only: "is_completion t \<Longrightarrow> \<not> is_cfg0 t \<and> \<not> is_cfg1 t"
  by (auto simp: kind_defs tlp_type_defs)

lemma cfg1_only: "is_cfg1 t \<Longrightarrow> \<not> is_cfg0 t"
  by (auto simp: kind_defs tlp_type_defs)

lemma msg_id_only: "is_msg_id t \<Longrightarrow> \<not> is_cfg0 t \<and> \<not> is_cfg1 t \<and> \<not> is_completion t"
  by (auto simp: kind_defs tlp_type_defs msg_type_defs)

lemma copy_tlp_sel [simp]:
  "fmt_type (copy_tlp t) = fmt_type t" "tlp_address (copy_tlp t) = tlp_address t" "tlp_dest_id (copy_tlp t) = tlp_dest_id t"
  "tlp_requester_id (copy_tlp t) = tlp_requester_id t" "check (copy_tlp t) = check t"
  by (simp_all add: copy_tlp_def fmt_type_def check_def has_data_def is_mem_def is_io_def)

lemma copy_tlp_kind [simp]:
  "is_cfg0 (copy_tlp t) = is_cfg0 t" "is_cfg1 (copy_tlp t) = is_cfg1 t" "is_completion (copy_tlp t) = is_completion t"
  "is_msg_id (copy_tlp t) = is_msg_id t" "is_io (copy_tlp t) = is_io t" "is_mem_rw (copy_tlp t) = is_mem_rw t"
  by (simp_all add: kind_defs)

lemma ur_of_sel [simp]:
  "is_completion (ur_of t f)" "check (ur_of t f)" "tlp_requester_id (ur_of t f) = tlp_requester_id t"
  "tlp_tag (ur_of t f) = tlp_tag t" "tlp_status (ur_of t f) = CPL_STATUS_UR"
  by (simp_all add: ur_of_def set_ur_completion_def set_completion_def is_completion_def fmt_type_def set_fmt_type_def
      check_def has_data_def is_mem_def is_io_def tlp_type_defs new_tlp_def)

section \<open>The choice of a port\<close>

definition no_bars :: "'a pfunction_scheme \<Rightarrow> bool" where
  "no_bars f \<longleftrightarrow> (\<forall>x\<in>set (bar_mask f). x = 0)"

lemma match_bars_unimplemented: "\<forall>p\<in>set bs. snd p = 0 \<Longrightarrow> match_bars addr io k bs = Inr []"
  by (induction addr io k bs rule: match_bars.induct) auto

lemma no_bars_match [simp]: "no_bars f \<Longrightarrow> match_bar addr io f = Inr []"
  unfolding match_bar_def no_bars_def by (rule match_bars_unimplemented) (auto dest: set_zip_rightD)

lemma route_ports_first:
  assumes "\<forall>j<k. port_verdict t (cs ! j) = Inr Pass" and "k < length cs" and "port_verdict t (cs ! k) = Inr Take"
  shows "route_ports t i cs = Inr ([(i + k, copy_tlp t)], True)"
  using assms
proof (induction cs arbitrary: i k)
  case (Cons c cs)
  show ?case
  proof (cases k)
    case 0 then show ?thesis using Cons.prems by simp
  next
    case (Suc k')
    have "port_verdict t c = Inr Pass" using Cons.prems(1) Suc by auto
    moreover have "\<forall>j<k'. port_verdict t (cs ! j) = Inr Pass" using Cons.prems(1) Suc by auto
    ultimately show ?thesis using Cons.IH [of k' "i + 1"] Cons.prems(2,3) Suc by simp
  qed
qed simp


lemma route_unique:
  assumes "check t" and "k < length cs" and "port_verdict t (cs ! k) = Inr Take"
    and "\<forall>j<length cs. j \<noteq> k \<longrightarrow> port_verdict t (cs ! j) = Inr Pass"
  shows "route_downstream_tlp t fd cs f = Inr [ToPort k (copy_tlp t)]"
proof -
  have "route_ports t 0 cs = Inr ([(0 + k, copy_tlp t)], True)" by (rule route_ports_first) (use assms in auto)
  then show ?thesis using assms(1) by (simp add: route_downstream_tlp_def route_from_above_def)
qed


lemma verdict_mem:
  "is_mem_rw t \<Longrightarrow> no_bars b \<Longrightarrow>
     port_verdict t (ChildBridge b) = Inr (if mem_below b (tlp_address t) then Take else Pass)"
  using mem_rw_only [of t] by (simp add: port_verdict_def child_fn_def child_match_def child_below_def)

lemma verdict_cpl:
  "is_completion t \<Longrightarrow> get_id b \<noteq> tlp_requester_id t \<Longrightarrow>
     port_verdict t (ChildBridge b) = Inr (if bus_below b (bus (tlp_requester_id t)) then Take else Pass)"
  using completion_only [of t] by (auto simp: port_verdict_def child_fn_def child_below_def)

lemma verdict_cfg1:
  "is_cfg1 t \<Longrightarrow> port_verdict t (ChildBridge b) = Inr (if bus_below b (bus (tlp_dest_id t)) then Take else Pass)"
  using cfg1_only [of t] by (simp add: port_verdict_def child_fn_def child_below_def)

lemma verdict_msg_id:
  "is_msg_id t \<Longrightarrow> get_id b \<noteq> tlp_dest_id t \<Longrightarrow>
     port_verdict t (ChildBridge b) = Inr (if bus_below b (bus (tlp_requester_id t)) then Take else Pass)"
  using msg_id_only [of t] by (auto simp: port_verdict_def child_fn_def child_below_def)

lemmas verdicts = verdict_mem verdict_cpl verdict_cfg1 verdict_msg_id

section \<open>Bridges below a switch\<close>

text \<open>C29. A memory request below a switch reaches the one bridge whose memory windows contain its address, as a copy,
  and that bridge passes it on downwards. The bridges have no base address registers of their own, as all
  bridges have after construction, and no other bridge claims the address.\<close>

theorem switch_routes_memory:
  assumes "is_mem_rw t" and "check t" and "\<forall>b\<in>set bs. no_bars b" and "k < length bs"
    and "\<forall>j<length bs. mem_below (bs ! j) (tlp_address t) \<longleftrightarrow> j = k"
  shows "route_downstream_tlp t from_downstream (map ChildBridge bs) f = Inr [ToPort k (copy_tlp t)] \<and>
     br_upstream_recv (copy_tlp t) (bs ! k) = Inr (RouteDown (copy_tlp t) False)"
proof
  show "route_downstream_tlp t from_downstream (map ChildBridge bs) f = Inr [ToPort k (copy_tlp t)]"
    by (rule route_unique) (use assms in \<open>simp_all add: verdicts\<close>)
  show "br_upstream_recv (copy_tlp t) (bs ! k) = Inr (RouteDown (copy_tlp t) False)"
    using assms mem_rw_only [OF assms(1)] by (simp add: br_upstream_recv_def)
qed

text \<open>C30. Completions and type 1 configuration requests are routed by bus number: they reach the one bridge
  whose range contains the bus of the requester, or of the target, and pass on through it. The packet that is passed on is the one
  that came, except that a configuration request for the secondary bus of the bridge changes its type from 1 to
  0, a read staying a read and a write a write.\<close>

theorem switch_routes_by_bus:
  assumes "check t" and "k < length bs" and "\<forall>j<length bs. bus_below (bs ! j) n \<longleftrightarrow> j = k"
    and "is_completion t \<and> n = bus (tlp_requester_id t) \<and> (\<forall>b\<in>set bs. get_id b \<noteq> tlp_requester_id t) \<or>
         is_cfg1 t \<and> n = bus (tlp_dest_id t)"
  shows "route_downstream_tlp t from_downstream (map ChildBridge bs) f = Inr [ToPort k (copy_tlp t)] \<and>
     br_upstream_recv (copy_tlp t) (bs ! k) = Inr (RouteDown
       (if is_cfg1 t \<and> n = sec_bus_num (bs ! k)
        then (copy_tlp t)\<lparr>tlp_fmt := fst (if fmt_type t = TLP_CFG_READ_1 then TLP_CFG_READ_0 else TLP_CFG_WRITE_0),
                          tlp_type := snd (if fmt_type t = TLP_CFG_READ_1 then TLP_CFG_READ_0 else TLP_CFG_WRITE_0)\<rparr>
        else copy_tlp t) False)"
proof
  show "route_downstream_tlp t from_downstream (map ChildBridge bs) f = Inr [ToPort k (copy_tlp t)]"
    by (rule route_unique) (use assms in \<open>auto simp: verdicts\<close>)
  have below: "bus_below (bs ! k) n" using assms(2,3) by blast
  from assms(4) show "br_upstream_recv (copy_tlp t) (bs ! k) = Inr (RouteDown
       (if is_cfg1 t \<and> n = sec_bus_num (bs ! k)
        then (copy_tlp t)\<lparr>tlp_fmt := fst (if fmt_type t = TLP_CFG_READ_1 then TLP_CFG_READ_0 else TLP_CFG_WRITE_0),
                          tlp_type := snd (if fmt_type t = TLP_CFG_READ_1 then TLP_CFG_READ_0 else TLP_CFG_WRITE_0)\<rparr>
        else copy_tlp t) False)"
  proof (elim disjE conjE)
    assume c: "is_completion t" "n = bus (tlp_requester_id t)" "\<forall>b\<in>set bs. get_id b \<noteq> tlp_requester_id t"
    have "get_id (bs ! k) \<noteq> tlp_requester_id t" using c(3) assms(2) by simp
    then show ?thesis using completion_only [OF c(1)] c below assms(1) by (auto simp: br_upstream_recv_def)
  next
    assume c: "is_cfg1 t" "n = bus (tlp_dest_id t)"
    then have "fmt_type t = TLP_CFG_READ_1 \<or> fmt_type t = TLP_CFG_WRITE_1" by (simp add: is_cfg1_def)
    then show ?thesis using cfg1_only [OF c(1)] c below assms(1)
      by (auto simp: br_upstream_recv_def to_type0_def set_fmt_type_def)
  qed
qed





text \<open>C33. A message routed by identifier goes astray below a switch: the bridge is chosen by the bus of the requester
  and not of the target. The bridge that gets it, having the target outside its range, drops it.\<close>

theorem switch_misroutes_messages:
  assumes "is_msg_id t" and "check t" and "\<forall>b\<in>set bs. get_id b \<noteq> tlp_dest_id t" and "k < length bs"
    and "\<forall>j<length bs. bus_below (bs ! j) (bus (tlp_requester_id t)) \<longleftrightarrow> j = k"
    and "\<not> bus_below (bs ! k) (bus (tlp_dest_id t))"
  shows "route_downstream_tlp t from_downstream (map ChildBridge bs) f = Inr [ToPort k (copy_tlp t)] \<and>
     br_upstream_recv (copy_tlp t) (bs ! k) = Inr Discard"
proof
  show "route_downstream_tlp t from_downstream (map ChildBridge bs) f = Inr [ToPort k (copy_tlp t)]"
    by (rule route_unique) (use assms in \<open>simp_all add: verdicts\<close>)
  have "get_id (bs ! k) \<noteq> tlp_dest_id t" using assms(3,4) by simp
  then show "br_upstream_recv (copy_tlp t) (bs ! k) = Inr Discard"
    using assms msg_id_only [OF assms(1)] by (auto simp: br_upstream_recv_def)
qed

text \<open>Two bridges on bus 1 with a bus and a megabyte of memory each.\<close>

definition example_bridge :: "int \<Rightarrow> bridge" where
  "example_bridge d = (init_bridge base_bridge)\<lparr>bus_num := 1, device_num := d, sec_bus_num := d + 1, sub_bus_num := d + 1,
     mem_base := d * 0x100000, mem_limit := d * 0x100000 + 0xfffff, prefetchable_mem_base := 1, prefetchable_mem_limit := 0\<rparr>"

lemma example_bridge_sel [simp]:
  "get_id (example_bridge d) = PcieId 1 d 0" "no_bars (example_bridge d)" "sec_bus_num (example_bridge d) = d + 1"
  "bus_below (example_bridge d) n \<longleftrightarrow> n = d + 1" "is_root (example_bridge d) = False"
  "mem_below (example_bridge d) x \<longleftrightarrow> d * 0x100000 \<le> x \<and> x \<le> d * 0x100000 + 0xfffff"
  by (auto simp: example_bridge_def init_bridge_def base_bridge_def base_function_def set_device_type_def get_id_def
      no_bars_def bus_below_def mem_below_def)

lemma less_2_cases: "j < Suc (Suc 0) \<longleftrightarrow> j = 0 \<or> j = 1"
  by auto

definition example_packet :: "fmt_type \<Rightarrow> int \<Rightarrow> tlp" where
  "example_packet ft addr = (set_fmt_type ft new_tlp)\<lparr>tlp_address := addr, tlp_requester_id := PcieId 2 5 0, tlp_dest_id := PcieId 3 0 0\<rparr>"

theorem switch_routes_memory_witness:
  "route_downstream_tlp (example_packet TLP_MEM_READ 0x200010) False (map ChildBridge [example_bridge 1, example_bridge 2])
     (example_bridge 0) = Inr [ToPort 1 (copy_tlp (example_packet TLP_MEM_READ 0x200010))]"
proof -
  let ?t = "example_packet TLP_MEM_READ 0x200010"
  have "is_mem_rw ?t" "check ?t" by code_simp+
  moreover have "tlp_address ?t = 0x200010" by (simp add: example_packet_def)
  ultimately show ?thesis
    using switch_routes_memory [of ?t "[example_bridge 1, example_bridge 2]" 1 False "example_bridge 0"]
    by (auto simp: less_2_cases)
qed

theorem switch_routes_by_bus_witness:
  "route_downstream_tlp (example_packet TLP_CFG_READ_1 0) False (map ChildBridge [example_bridge 1, example_bridge 2])
     (example_bridge 0) = Inr [ToPort 1 (copy_tlp (example_packet TLP_CFG_READ_1 0))]"
proof -
  let ?t = "example_packet TLP_CFG_READ_1 0"
  have "is_cfg1 ?t" "check ?t" by code_simp+
  moreover have "bus (tlp_dest_id ?t) = 3" by (simp add: example_packet_def PcieId_def)
  ultimately show ?thesis
    using switch_routes_by_bus [of ?t 1 "[example_bridge 1, example_bridge 2]" 3 False "example_bridge 0"]
    by (auto simp: less_2_cases)
qed

lemma example_packet_sel [simp]:
  "tlp_address (example_packet ft x) = x" "tlp_requester_id (example_packet ft x) = PcieId 2 5 0" "bus (PcieId i j k) = i"
  "fmt_type (example_packet ft x) = ft"
  by (simp_all add: example_packet_def PcieId_def fmt_type_def set_fmt_type_def)



theorem switch_misroutes_messages_witness:
  "route_downstream_tlp (example_packet TLP_MSG_ID 0) False (map ChildBridge [example_bridge 1, example_bridge 2])
     (example_bridge 0) = Inr [ToPort 0 (copy_tlp (example_packet TLP_MSG_ID 0))]"
proof -
  let ?t = "example_packet TLP_MSG_ID 0"
  have "is_msg_id ?t" "check ?t" by code_simp+
  moreover have "tlp_requester_id ?t = PcieId 2 5 0" "tlp_dest_id ?t = PcieId 3 0 0" "bus (PcieId n d 0) = n"
    "PcieId 1 d 0 \<noteq> PcieId 3 0 0" for n d
    by (simp_all add: example_packet_def PcieId_def)
  ultimately show ?thesis
    using switch_misroutes_messages [of ?t "[example_bridge 1, example_bridge 2]" 0 False "example_bridge 0"]
    by (auto simp: less_2_cases)
qed

section \<open>Numbers of functions\<close>

definition fn_nums :: "pdevice \<Rightarrow> int list" where
  "fn_nums d = map function_num (dev_functions d)"

definition dev_ok :: "pdevice \<Rightarrow> bool" where
  "dev_ok d \<longleftrightarrow> sorted (fn_nums d) \<and> distinct (fn_nums d) \<and> set (fn_nums d) \<subseteq> {0..7}"

lemma sort_functions_nums:
  "sorted (map function_num (sort_functions fs))"
  "mset (map function_num (sort_functions fs)) = mset (map function_num fs)"
  by (simp_all add: sort_functions_def)

lemma first_gap_Some:
  "first_gap x fs = Some y \<Longrightarrow> sorted (map function_num fs) \<Longrightarrow> distinct (map function_num fs) \<Longrightarrow> \<forall>f\<in>set fs. x \<le> function_num f \<Longrightarrow>
     x \<le> y \<and> y < x + int (length fs) \<and> y \<notin> function_num ` set fs \<and> {x..<y} \<subseteq> function_num ` set fs"
proof (induction x fs rule: first_gap.induct)
  case (2 x f fs)
  show ?case
  proof (cases "function_num f = x")
    case True
    have rest: "\<forall>g\<in>set fs. x + 1 \<le> function_num g"
    proof
      fix g assume g: "g \<in> set fs"
      have "x \<le> function_num g" using "2.prems"(4) g by simp
      moreover have "function_num f \<notin> function_num ` set fs" using "2.prems"(3) by simp
      then have "function_num g \<noteq> x" using g True by (metis imageI)
      ultimately show "x + 1 \<le> function_num g" by linarith
    qed
    have ih: "x + 1 \<le> y \<and> y < x + 1 + int (length fs) \<and> y \<notin> function_num ` set fs \<and> {x + 1..<y} \<subseteq> function_num ` set fs"
      by (rule "2.IH") (use "2.prems" True rest in auto)
    have "{x..<y} \<subseteq> insert x {x + 1..<y}" by auto
    then show ?thesis using ih True by auto
  next
    case False
    then have y: "y = x" using "2.prems"(1) by simp
    have "function_num f \<ge> x" using "2.prems"(4) by simp
    then have "\<forall>g\<in>set (f # fs). function_num g > x" using False "2.prems"(2) by fastforce
    then show ?thesis using y by fastforce
  qed
qed simp

lemma first_gap_None: "first_gap x fs = None \<Longrightarrow> function_num ` set fs = {x..<x + int (length fs)}"
proof (induction x fs rule: first_gap.induct)
  case (2 x f fs)
  have f: "function_num f = x" "first_gap (x + 1) fs = None" using "2.prems" by (auto split: if_splits)
  have "{x..<x + int (length (f # fs))} = insert x {x + 1..<x + 1 + int (length fs)}" by auto
  then show ?case using "2.IH" f by simp
qed simp

lemma nums_card: "distinct (fn_nums d) \<Longrightarrow> card (set (fn_nums d)) = length (dev_functions d)"
  using distinct_card [of "fn_nums d"] by (simp add: fn_nums_def)

lemma next_free_spec:
  assumes "dev_ok d" and "next_free_function_number d = (d', r)"
  shows "d' = d\<lparr>dev_functions := sort_functions (dev_functions d)\<rparr>"
    and "case r of None \<Rightarrow> length (dev_functions d) = 8
         | Some x \<Rightarrow> length (dev_functions d) < 8 \<and> 0 \<le> x \<and> x < 8 \<and> x \<notin> set (fn_nums d) \<and> {0..<x} \<subseteq> set (fn_nums d)"
proof -
  let ?fs = "sort_functions (dev_functions d)"
  show "d' = d\<lparr>dev_functions := ?fs\<rparr>"
    using assms(2) by (auto simp: next_free_function_number_def Let_def split: if_splits option.splits)
  have nums: "function_num ` set ?fs = set (fn_nums d)" "length ?fs = length (dev_functions d)"
    by (simp_all add: sort_functions_def fn_nums_def)
  have card8: "card (set (fn_nums d)) = length (dev_functions d)" "set (fn_nums d) \<subseteq> {0..7}"
    using assms(1) nums_card by (auto simp: dev_ok_def)
  have le8: "length (dev_functions d) \<le> 8" using card_mono [of "{0..7::int}", OF _ card8(2)] card8(1) by simp
  have dist: "distinct (map function_num ?fs)"
    using assms(1) mset_eq_imp_distinct_iff [OF sort_functions_nums(2)] by (simp add: dev_ok_def fn_nums_def)
  show "case r of None \<Rightarrow> length (dev_functions d) = 8
         | Some x \<Rightarrow> length (dev_functions d) < 8 \<and> 0 \<le> x \<and> x < 8 \<and> x \<notin> set (fn_nums d) \<and> {0..<x} \<subseteq> set (fn_nums d)"
  proof (cases "first_gap 0 ?fs")
    case None
    have "set (fn_nums d) = {0..<int (length (dev_functions d))}" using first_gap_None [OF None] nums by simp
    then show ?thesis using None assms(2) nums le8
      by (auto simp: next_free_function_number_def Let_def split: if_splits)
  next
    case (Some x)
    have pos: "\<forall>f\<in>set ?fs. 0 \<le> function_num f"
      using card8(2) nums(1) by (metis atLeastAtMost_iff imageI subsetD)
    have g: "0 \<le> x \<and> x < 0 + int (length ?fs) \<and> x \<notin> function_num ` set ?fs \<and> {0..<x} \<subseteq> function_num ` set ?fs"
      by (rule first_gap_Some [OF Some sort_functions_nums(1) dist pos])
    have "length (dev_functions d) \<noteq> 8"
    proof
      assume l: "length (dev_functions d) = 8"
      have "set (fn_nums d) = {0..7}" by (rule card_subset_eq) (use card8 l in auto)
      then show False using g nums l by auto
    qed
    then have len: "length (dev_functions d) < 8" using le8 by simp
    have "?fs \<noteq> []" using g by auto
    then have r: "r = Some x" using Some assms(2) by (simp add: next_free_function_number_def Let_def)
    show ?thesis unfolding r using g nums len by simp
  qed
qed

lemma add_function_spec:
  assumes "dev_ok d" and "function_num f \<notin> set (fn_nums d)" and "function_num f \<in> {0..7}"
  shows "\<exists>d'. add_function f d = Inr d' \<and> dev_ok d' \<and> set (fn_nums d') = insert (function_num f) (set (fn_nums d)) \<and>
     length (dev_functions d') = length (dev_functions d) + 1 \<and> dev_bus_num d' = dev_bus_num d \<and> dev_device_num d' = dev_device_num d"
proof -
  let ?fs = "sort_functions (dev_functions d @ [f])"
  let ?d' = "d\<lparr>dev_functions := (if length ?fs > 1 then map (\<lambda>g. g\<lparr>header_type := header_type g OR 0x80\<rparr>) ?fs else ?fs)\<rparr>"
  have n: "fn_nums ?d' = map function_num ?fs" by (simp add: fn_nums_def o_def)
  have m: "mset (map function_num ?fs) = mset (fn_nums d @ [function_num f])" by (simp add: sort_functions_def fn_nums_def)
  have "\<not> (\<exists>g\<in>set (dev_functions d). function_num g = function_num f)"
    using assms(2) unfolding fn_nums_def set_map by (metis imageI)
  then have "add_function f d = Inr ?d'" unfolding add_function_def by (simp only: if_False Let_def)
  moreover have "dev_ok ?d'" "set (fn_nums ?d') = insert (function_num f) (set (fn_nums d))"
    using assms sort_functions_nums(1) [of "dev_functions d @ [f]"] mset_eq_imp_distinct_iff [OF m] mset_eq_setD [OF m]
    unfolding dev_ok_def n by auto
  moreover have "length (dev_functions ?d') = length (dev_functions d) + 1" by (simp add: sort_functions_def)
  ultimately show ?thesis by (intro exI [of _ ?d']) simp
qed

lemma sorted_dev_ok: "dev_ok d \<Longrightarrow> dev_ok (d\<lparr>dev_functions := sort_functions (dev_functions d)\<rparr>)"
  "set (fn_nums (d\<lparr>dev_functions := sort_functions (dev_functions d)\<rparr>)) = set (fn_nums d)"
  using mset_eq_imp_distinct_iff [OF sort_functions_nums(2) [of "dev_functions d"]] sort_functions_nums(1)
  by (auto simp: dev_ok_def fn_nums_def sort_functions_def)

lemma append_function_step:
  assumes "dev_ok d" and "length (dev_functions d) < 8"
  shows "\<exists>d' x. append_function f d = Inr d' \<and> dev_ok d' \<and> 0 \<le> x \<and> x < 8 \<and> x \<notin> set (fn_nums d) \<and>
     {0..<x} \<subseteq> set (fn_nums d) \<and> set (fn_nums d') = insert x (set (fn_nums d)) \<and>
     length (dev_functions d') = length (dev_functions d) + 1"
proof -
  obtain d1 r where nf: "next_free_function_number d = (d1, r)" by fastforce
  note sp = next_free_spec [OF assms(1) nf]
  obtain x where r: "r = Some x" using sp(2) assms(2) by (cases r) auto
  have x: "0 \<le> x" "x < 8" "x \<notin> set (fn_nums d)" "{0..<x} \<subseteq> set (fn_nums d)" using sp(2) r by auto
  have d1: "dev_ok d1" "set (fn_nums d1) = set (fn_nums d)" "length (dev_functions d1) = length (dev_functions d)"
    using sorted_dev_ok [of d] assms(1) sp(1) by (auto simp: sort_functions_def)
  from add_function_spec [OF d1(1), of "f\<lparr>function_num := x\<rparr>"] x d1 obtain d' where
    "add_function (f\<lparr>function_num := x\<rparr>) d1 = Inr d'" "dev_ok d'" "set (fn_nums d') = insert x (set (fn_nums d))"
    "length (dev_functions d') = length (dev_functions d) + 1" by auto
  then show ?thesis using x nf r by (intro exI [of _ d'] exI [of _ x]) (simp add: append_function_def)
qed

lemma append_function_full: "dev_ok d \<Longrightarrow> length (dev_functions d) = 8 \<Longrightarrow> append_function f d = Inl TypeError"
  using next_free_spec [of d "fst (next_free_function_number d)" "snd (next_free_function_number d)"]
  by (auto simp: append_function_def split: prod.splits option.splits)

lemma append_functions_from:
  "dev_ok d \<Longrightarrow> set (fn_nums d) = {0..<int (length (dev_functions d))} \<Longrightarrow>
     (if length (dev_functions d) + length fs \<le> 8
      then \<exists>d'. append_functions fs d = Inr d' \<and> dev_ok d' \<and> length (dev_functions d') = length (dev_functions d) + length fs \<and>
             set (fn_nums d') = {0..<int (length (dev_functions d'))}
      else append_functions fs d = Inl TypeError)"
proof (induction fs arbitrary: d)
  case Nil
  have "length (dev_functions d) \<le> 8"
    using Nil nums_card [of d] card_mono [of "{0..7::int}" "set (fn_nums d)"] by (simp add: dev_ok_def)
  then show ?case using Nil by simp
next
  case (Cons f fs)
  have le8: "length (dev_functions d) \<le> 8"
    using Cons.prems nums_card [of d] card_mono [of "{0..7::int}" "set (fn_nums d)"] by (simp add: dev_ok_def)
  show ?case
  proof (cases "length (dev_functions d) < 8")
    case True
    from append_function_step [OF Cons.prems(1) True, of f] obtain d1 x where
      d1: "append_function f d = Inr d1" "dev_ok d1" "0 \<le> x" "x \<notin> set (fn_nums d)" "{0..<x} \<subseteq> set (fn_nums d)"
      "set (fn_nums d1) = insert x (set (fn_nums d))" "length (dev_functions d1) = length (dev_functions d) + 1" by auto
    have "x = int (length (dev_functions d))"
    proof (rule ccontr)
      assume "x \<noteq> int (length (dev_functions d))"
      then have "int (length (dev_functions d)) \<in> {0..<x}" using d1(3,4) Cons.prems(2) by auto
      then show False using d1(5) Cons.prems(2) by auto
    qed
    then have "set (fn_nums d1) = {0..<int (length (dev_functions d1))}" using d1(6,7) Cons.prems(2) by auto
    from Cons.IH [OF d1(2) this] show ?thesis using d1(1,7) by (auto split: if_splits)
  next
    case False
    then show ?thesis using append_function_full [OF Cons.prems(1)] le8 by simp
  qed
qed

text \<open>C34. A device numbers its functions one after the other: with at most eight functions the constructor succeeds and the
  functions carry the numbers from 0 on in order, and with more it raises a TypeError.\<close>

theorem new_device_numbers:
  "if length eps \<le> 8
   then \<exists>d. new_device eps = Inr d \<and> dev_ok d \<and> fn_nums d = [0..int (length eps) - 1]
   else new_device eps = Inl TypeError"
proof -
  let ?d = "\<lparr>dev_bus_num = 0, dev_device_num = 0, dev_functions = []\<rparr>"
  have e: "dev_ok ?d" "set (fn_nums ?d) = {0..<int (length (dev_functions ?d))}" by (simp_all add: dev_ok_def fn_nums_def)
  show ?thesis
  proof (cases "length eps \<le> 8")
    case True
    from append_functions_from [OF e, of eps] True obtain d where
      d: "new_device eps = Inr d" "dev_ok d" "length (dev_functions d) = length eps"
      "set (fn_nums d) = {0..<int (length (dev_functions d))}" by (auto simp: new_device_def)
    have "fn_nums d = [0..int (length eps) - 1]"
      by (rule sorted_distinct_set_unique) (use d in \<open>auto simp: dev_ok_def\<close>)
    then show ?thesis using True d by simp
  next
    case False then show ?thesis using append_functions_from [OF e, of eps] by (simp add: new_device_def)
  qed
qed

section \<open>The choice of a function\<close>





section \<open>Numbers of devices\<close>

definition ports_from :: "int \<Rightarrow> nat \<Rightarrow> (int \<times> int) list" where
  "ports_from m n = map (\<lambda>k. (m + int k, 0)) [0..<n]"

lemma ports_from_Suc: "ports_from m (Suc n) = (m, 0) # ports_from (m + 1) n"
  unfolding ports_from_def by (simp add: upt_conv_Cons map_Suc_upt [symmetric] o_def algebra_simps del: upt_Suc map_Suc_upt)

lemma ports_from_snoc: "ports_from m (Suc n) = ports_from m n @ [(m + int n, 0)]"
  by (simp add: ports_from_def)

lemma sort_ports_from: "sort_endpoints (ports_from m n) = ports_from m n"
proof -
  have "sort_key snd (ports_from m n) = ports_from m n"
    by (rule sort_key_id_if_sorted) (simp add: ports_from_def o_def sorted_iff_nth_mono)
  moreover have "sort_key fst (ports_from m n) = ports_from m n"
    by (rule sort_key_id_if_sorted) (simp add: ports_from_def o_def sorted_iff_nth_mono)
  ultimately show ?thesis by (simp add: sort_endpoints_def)
qed

lemma device_gap_ports: "device_gap m (ports_from m n) = (if m + int n < 32 then Some (m + int n) else None)"
proof (induction n arbitrary: m)
  case 0 then show ?case by (simp add: ports_from_def)
next
  case (Suc n) then show ?case using Suc [of "m + 1"] by (simp add: ports_from_Suc algebra_simps)
qed

lemma add_endpoint_ports:
  assumes "m < 32"
  shows "add_endpoint m (ports_from m n) = (if m + int n < 32 then Inr (ports_from m (Suc n)) else Inl TypeError)"
proof -
  have "next_free_device_number m (ports_from m n) = (if m + int n < 32 then Some (m + int n) else None)"
    unfolding next_free_device_number_def sort_ports_from device_gap_ports using assms by (simp add: ports_from_def)
  then show ?thesis using sort_ports_from [of m "Suc n"] by (simp add: add_endpoint_def sort_ports_from ports_from_snoc)
qed

lemma add_endpoints_ports:
  "m < 32 \<Longrightarrow> m + int n \<le> 32 \<Longrightarrow>
     add_endpoints k m (ports_from m n) = (if m + int n + int k \<le> 32 then Inr (ports_from m (n + k)) else Inl TypeError)"
proof (induction k arbitrary: n)
  case (Suc k)
  show ?case
  proof (cases "m + int n < 32")
    case True then show ?thesis using Suc.IH [of "Suc n"] Suc.prems by (simp add: add_endpoint_ports algebra_simps)
  next
    case False then show ?thesis using Suc.prems by (simp add: add_endpoint_ports)
  qed
qed simp

text \<open>C36. The ports made on a switch, or on the root complex, get the device numbers from 1 on one after the other, up to 31; to make one more
  raises a TypeError.\<close>

theorem switch_ports_numbered:
  "add_endpoints n 1 [] = (if n \<le> 31 then Inr (map (\<lambda>k. (1 + int k, 0)) [0..<n]) else Inl TypeError)"
proof -
  have "ports_from 1 0 = []" by (simp add: ports_from_def)
  then show ?thesis using add_endpoints_ports [of 1 0 n] by (simp add: ports_from_def)
qed

section \<open>Connections\<close>

definition partners :: "port_state \<Rightarrow> nat set" where
  "partners p = (case po_other p of Single q \<Rightarrow> set_option q | Many qs \<Rightarrow> set qs)"

text \<open>Connections are symmetric and stay within the store.\<close>

definition net_ok :: "port_state list \<Rightarrow> bool" where
  "net_ok st \<longleftrightarrow> (\<forall>a<length st. \<forall>b\<in>partners (st ! a). b < length st \<and> b \<noteq> a \<and> a \<in> partners (st ! b))"

lemma partners_add: "\<not> refuses (po_other p) q \<Longrightarrow> partners (p\<lparr>po_other := add_partner (po_other p) q, cur_speed := s, cur_width := w, link_delay := l\<rparr>) = insert q (partners p)"
  by (auto simp: partners_def add_partner_def refuses_def split: partner.splits)

text \<open>C37. Connecting two different ports either is refused or links them in both directions, at the lower of the two
  speeds and widths and with the sum of the delays, on both sides; symmetry of all connections is kept, and no other port changes.\<close>

theorem connect_symmetric:
  assumes "net_ok st" and "a < length st" and "b < length st" and "a \<noteq> b"
  shows "if refuses (po_other (st ! a)) b \<or> refuses (po_other (st ! b)) a
     then connect a b st = Inl (OtherException ''Already connected'')
     else \<exists>st'. connect a b st = Inr st' \<and> net_ok st' \<and> b \<in> partners (st' ! a) \<and> a \<in> partners (st' ! b) \<and>
       (\<forall>c\<in>{a, b}. cur_speed (st' ! c) = min (max_speed (st ! a)) (max_speed (st ! b)) \<and>
          cur_width (st' ! c) = min (max_width (st ! a)) (max_width (st ! b)) \<and>
          link_delay (st' ! c) = port_delay (st ! a) + port_delay (st ! b)) \<and>
       (\<forall>c<length st. c \<noteq> a \<longrightarrow> c \<noteq> b \<longrightarrow> st' ! c = st ! c)"
proof (cases "refuses (po_other (st ! a)) b \<or> refuses (po_other (st ! b)) a")
  case True
  then show ?thesis using assms(4) by (auto simp: connect_def connect_int_def)
next
  case False
  let ?upd = "\<lambda>x y. (st ! x)\<lparr>po_other := add_partner (po_other (st ! x)) y, cur_speed := min (max_speed (st ! x)) (max_speed (st ! y)),
     cur_width := min (max_width (st ! x)) (max_width (st ! y)), link_delay := port_delay (st ! x) + port_delay (st ! y)\<rparr>"
  let ?st = "st[b := ?upd b a, a := ?upd a b]"
  have c: "connect a b st = Inr ?st" using False assms(2-4) by (simp add: connect_def connect_int_def)
  have p: "partners (?st ! x) = (if x = a then insert b (partners (st ! a)) else if x = b then insert a (partners (st ! b)) else partners (st ! x))"
    if "x < length st" for x
    using that assms(2-4) False by (auto simp: nth_list_update partners_add)
  have "net_ok ?st"
    unfolding net_ok_def length_list_update
  proof (intro allI impI ballI)
    fix x y assume x: "x < length st" and "y \<in> partners (?st ! x)"
    then have y: "y \<in> partners (st ! x) \<or> (x, y) = (a, b) \<or> (x, y) = (b, a)" unfolding p [OF x] by (auto split: if_splits)
    then have yl: "y < length st \<and> y \<noteq> x" using assms x unfolding net_ok_def by blast
    have "x \<in> partners (st ! y) \<or> (x, y) = (a, b) \<or> (x, y) = (b, a)" using y assms(1) x unfolding net_ok_def by blast
    then show "y < length st \<and> y \<noteq> x \<and> x \<in> partners (?st ! y)" using yl p [of y] assms(4) by auto
  qed
  moreover have "b \<in> partners (?st ! a)" "a \<in> partners (?st ! b)" using p [OF assms(2)] p [OF assms(3)] assms(4) by auto
  moreover have "\<forall>c\<in>{a, b}. cur_speed (?st ! c) = min (max_speed (st ! a)) (max_speed (st ! b)) \<and>
      cur_width (?st ! c) = min (max_width (st ! a)) (max_width (st ! b)) \<and>
      link_delay (?st ! c) = port_delay (st ! a) + port_delay (st ! b)"
    using assms(2-4) by (simp add: min.commute)
  moreover have "\<forall>c<length st. c \<noteq> a \<longrightarrow> c \<noteq> b \<longrightarrow> ?st ! c = st ! c" by simp
  ultimately have "\<exists>st'. connect a b st = Inr st' \<and> net_ok st' \<and> b \<in> partners (st' ! a) \<and> a \<in> partners (st' ! b) \<and>
       (\<forall>c\<in>{a, b}. cur_speed (st' ! c) = min (max_speed (st ! a)) (max_speed (st ! b)) \<and>
          cur_width (st' ! c) = min (max_width (st ! a)) (max_width (st ! b)) \<and>
          link_delay (st' ! c) = port_delay (st ! a) + port_delay (st ! b)) \<and>
       (\<forall>c<length st. c \<noteq> a \<longrightarrow> c \<noteq> b \<longrightarrow> st' ! c = st ! c)" using c by blast
  then show ?thesis using False by (simp only: if_False)
qed

theorem connect_symmetric_witness:
  "\<exists>st. connect 0 1 [init_bus_port, init_port, init_port] = Inr st \<and> 1 \<in> partners (st ! 0) \<and> cur_speed (st ! 1) = 3"
proof -
  let ?st = "[init_bus_port, init_port, init_port]"
  have "net_ok ?st" by code_simp
  moreover have "\<not> (refuses (po_other (?st ! 0)) 1 \<or> refuses (po_other (?st ! 1)) 0)" by code_simp
  moreover have "min (max_speed (?st ! 0)) (max_speed (?st ! 1)) = 3" by code_simp
  ultimately show ?thesis using connect_symmetric [of ?st 0 1] by (simp only: if_False) auto
qed

end
