(* ===== verification/PCIE_Enum.thy ===== *)
theory PCIE_Enum
  imports PCIE_Requests
begin

text \<open>
  Enumeration by the root complex (classes \<open>TreeItem\<close> and \<open>RootComplex\<close> of \<open>pcie.py\<close>): the device tree,
  access to capabilities through it, message signalled interrupts, the configuration of base address registers, the walk along the
  capability list and the recursion over the busses. As in \<open>PCIE_Requests\<close> the simulation between a
  configuration request and its completion is a parameter, the record \<open>port\<close>.
\<close>

section \<open>The device tree\<close>

record item =
  ti_bus_num :: int
  ti_device_num :: int
  ti_function_num :: int
  ti_vendor_id :: int
  ti_device_id :: int
  ti_sec_bus_num :: int
  ti_sub_bus_num :: int
  ti_bar :: "int option list"
  ti_bar_size :: "int option list"
  ti_io_base :: int
  ti_io_limit :: int
  ti_mem_base :: int
  ti_mem_limit :: int
  ti_prefetchable_mem_base :: int
  ti_prefetchable_mem_limit :: int
  ti_capabilities :: "(int \<times> int) list"
  ti_msi_addr :: "int option"
  ti_msi_data :: "int option"

definition new_item :: item where
  "new_item = \<lparr>ti_bus_num = 0, ti_device_num = 0, ti_function_num = 0, ti_vendor_id = 0, ti_device_id = 0,
     ti_sec_bus_num = 0, ti_sub_bus_num = 0, ti_bar = replicate 6 None, ti_bar_size = replicate 6 None,
     ti_io_base = 0, ti_io_limit = 0, ti_mem_base = 0, ti_mem_limit = 0, ti_prefetchable_mem_base = 0,
     ti_prefetchable_mem_limit = 0, ti_capabilities = [], ti_msi_addr = None, ti_msi_data = None\<rparr>"

definition ti_id :: "item \<Rightarrow> pcie_id" where
  "ti_id i = PcieId (ti_bus_num i) (ti_device_num i) (ti_function_num i)"

datatype tree_item = TreeItem item "tree_item list"

text \<open>An item of the tree is referred to by its path, the positions among the children from the root on.\<close>

fun find_dev :: "pcie_id \<Rightarrow> tree_item \<Rightarrow> nat list option"
  and find_devs :: "pcie_id \<Rightarrow> nat \<Rightarrow> tree_item list \<Rightarrow> nat list option" where
  "find_dev i (TreeItem d cs) = (if i = ti_id d then Some [] else find_devs i 0 cs)"
| "find_devs i k [] = None"
| "find_devs i k (c # cs) = (case find_dev i c of Some p \<Rightarrow> Some (k # p) | None \<Rightarrow> find_devs i (k + 1) cs)"

fun item_at :: "nat list \<Rightarrow> tree_item \<Rightarrow> item" where
  "item_at [] (TreeItem d cs) = d"
| "item_at (k # p) (TreeItem d cs) = item_at p (cs ! k)"

fun upd_item :: "nat list \<Rightarrow> (item \<Rightarrow> item) \<Rightarrow> tree_item \<Rightarrow> tree_item" where
  "upd_item [] f (TreeItem d cs) = TreeItem (f d) cs"
| "upd_item (k # p) f (TreeItem d cs) = TreeItem d (cs[k := upd_item p f (cs ! k)])"

fun add_child :: "nat list \<Rightarrow> item \<Rightarrow> tree_item \<Rightarrow> tree_item" where
  "add_child [] i (TreeItem d cs) = TreeItem d (cs @ [TreeItem i []])"
| "add_child (k # p) i (TreeItem d cs) = TreeItem d (cs[k := add_child p i (cs ! k)])"

fun child_count :: "nat list \<Rightarrow> tree_item \<Rightarrow> nat" where
  "child_count [] (TreeItem d cs) = length cs"
| "child_count (k # p) (TreeItem d cs) = child_count p (cs ! k)"

fun get_cap_offset :: "int \<Rightarrow> (int \<times> int) list \<Rightarrow> int option" where
  "get_cap_offset cid [] = None"
| "get_cap_offset cid (c # cs) = (if fst c = cid then Some (snd c) else get_cap_offset cid cs)"

section \<open>The root complex with its tree\<close>

record rc_host = root_complex +
  rc_tree :: tree_item
  rc_io_base :: int
  rc_io_limit :: int
  rc_mem_base :: int
  rc_mem_limit :: int
  rc_prefetchable_mem_base :: int
  rc_prefetchable_mem_limit :: int
  upstream_bridge :: bridge

type_synonym ('s, 'a) host_lens = "('s, 'a rc_host_scheme) lens"

definition on_host :: "('s, 'a) host_lens \<Rightarrow> ('a rc_host_scheme \<Rightarrow> 'a rc_host_scheme) \<Rightarrow> 's \<Rightarrow> 's" where
  "on_host l f s = lens_put l (f (lens_get l s)) s"

definition on_item :: "('s, 'a) host_lens \<Rightarrow> nat list \<Rightarrow> (item \<Rightarrow> item) \<Rightarrow> 's \<Rightarrow> 's" where
  "on_item l path f = on_host l (\<lambda>h. h\<lparr>rc_tree := upd_item path f (rc_tree h)\<rparr>)"

section \<open>Access to capabilities\<close>

definition capability_addr :: "('s, 'a) host_lens \<Rightarrow> pcie_id \<Rightarrow> int \<Rightarrow> 's \<Rightarrow> py_error + int" where
  "capability_addr l dev cid s =
     (let tree = rc_tree (lens_get l s)
      in case find_dev dev tree of
           None \<Rightarrow> Inl (OtherException ''Device not found'')
         | Some path \<Rightarrow>
             (case get_cap_offset cid (ti_capabilities (item_at path tree)) of
                None \<Rightarrow> Inl (OtherException ''Capability not found'')
              | Some off \<Rightarrow> if off = 0 then Inl (OtherException ''Capability not found'') else Inr off))"

definition capability_read ::
  "('s, 'a) host_lens \<Rightarrow> 's port \<Rightarrow> pcie_id \<Rightarrow> int \<Rightarrow> int \<Rightarrow> int \<Rightarrow> int \<Rightarrow> 's \<Rightarrow> ('s \<times> int list option) run" where
  "capability_read l p dev cid addr timeout len s =
     run_bind (Some (capability_addr l dev cid s)) (\<lambda>off. rc_config_read dev p (addr + off) timeout len s)"

definition capability_read_words ::
  "('s, 'a) host_lens \<Rightarrow> 's port \<Rightarrow> pcie_id \<Rightarrow> int \<Rightarrow> int \<Rightarrow> int \<Rightarrow> int \<Rightarrow> int \<Rightarrow> 's \<Rightarrow> ('s \<times> int list) run" where
  "capability_read_words l p dev cid addr cnt ws timeout = read_words (capability_read l p dev cid addr timeout) ws cnt"

definition capability_read_dwords ::
  "('s, 'a) host_lens \<Rightarrow> 's port \<Rightarrow> pcie_id \<Rightarrow> int \<Rightarrow> int \<Rightarrow> int \<Rightarrow> int \<Rightarrow> 's \<Rightarrow> ('s \<times> int list) run" where
  "capability_read_dwords l p dev cid addr cnt timeout = capability_read_words l p dev cid addr cnt 4 timeout"

definition capability_read_qwords ::
  "('s, 'a) host_lens \<Rightarrow> 's port \<Rightarrow> pcie_id \<Rightarrow> int \<Rightarrow> int \<Rightarrow> int \<Rightarrow> int \<Rightarrow> 's \<Rightarrow> ('s \<times> int list) run" where
  "capability_read_qwords l p dev cid addr cnt timeout = capability_read_words l p dev cid addr cnt 8 timeout"

definition capability_read_byte ::
  "('s, 'a) host_lens \<Rightarrow> 's port \<Rightarrow> pcie_id \<Rightarrow> int \<Rightarrow> int \<Rightarrow> int \<Rightarrow> 's \<Rightarrow> ('s \<times> int) run" where
  "capability_read_byte l p dev cid addr timeout = read_byte (capability_read l p dev cid addr timeout 1)"

definition capability_read_word ::
  "('s, 'a) host_lens \<Rightarrow> 's port \<Rightarrow> pcie_id \<Rightarrow> int \<Rightarrow> int \<Rightarrow> int \<Rightarrow> 's \<Rightarrow> ('s \<times> int) run" where
  "capability_read_word l p dev cid addr timeout = read_first (capability_read_words l p dev cid addr 1 2 timeout)"

definition capability_read_dword ::
  "('s, 'a) host_lens \<Rightarrow> 's port \<Rightarrow> pcie_id \<Rightarrow> int \<Rightarrow> int \<Rightarrow> int \<Rightarrow> 's \<Rightarrow> ('s \<times> int) run" where
  "capability_read_dword l p dev cid addr timeout = read_first (capability_read_dwords l p dev cid addr 1 timeout)"

definition capability_read_qword ::
  "('s, 'a) host_lens \<Rightarrow> 's port \<Rightarrow> pcie_id \<Rightarrow> int \<Rightarrow> int \<Rightarrow> int \<Rightarrow> 's \<Rightarrow> ('s \<times> int) run" where
  "capability_read_qword l p dev cid addr timeout = read_first (capability_read_qwords l p dev cid addr 1 timeout)"

definition capability_write ::
  "('s, 'a) host_lens \<Rightarrow> 's port \<Rightarrow> pcie_id \<Rightarrow> int \<Rightarrow> int \<Rightarrow> int \<Rightarrow> int list \<Rightarrow> 's \<Rightarrow> py_error + 's" where
  "capability_write l p dev cid addr timeout data s =
     try_bind (capability_addr l dev cid s) (\<lambda>off. rc_config_write dev p (addr + off) timeout data s)"

definition capability_write_words ::
  "('s, 'a) host_lens \<Rightarrow> 's port \<Rightarrow> pcie_id \<Rightarrow> int \<Rightarrow> int \<Rightarrow> int list \<Rightarrow> int \<Rightarrow> int \<Rightarrow> 's \<Rightarrow> py_error + 's" where
  "capability_write_words l p dev cid addr words ws timeout = write_words (capability_write l p dev cid addr timeout) ws words"

definition capability_write_dwords ::
  "('s, 'a) host_lens \<Rightarrow> 's port \<Rightarrow> pcie_id \<Rightarrow> int \<Rightarrow> int \<Rightarrow> int list \<Rightarrow> int \<Rightarrow> 's \<Rightarrow> py_error + 's" where
  "capability_write_dwords l p dev cid addr words timeout = capability_write_words l p dev cid addr words 4 timeout"

definition capability_write_qwords ::
  "('s, 'a) host_lens \<Rightarrow> 's port \<Rightarrow> pcie_id \<Rightarrow> int \<Rightarrow> int \<Rightarrow> int list \<Rightarrow> int \<Rightarrow> 's \<Rightarrow> py_error + 's" where
  "capability_write_qwords l p dev cid addr words timeout = capability_write_words l p dev cid addr words 8 timeout"

text \<open>As for \<open>config_write_byte\<close>, a single byte is passed as a list and refused.\<close>

definition capability_write_byte ::
  "('s, 'a) host_lens \<Rightarrow> 's port \<Rightarrow> pcie_id \<Rightarrow> int \<Rightarrow> int \<Rightarrow> int \<Rightarrow> int \<Rightarrow> 's \<Rightarrow> py_error + 's" where
  "capability_write_byte l p dev cid addr b timeout s =
     try_bind (capability_addr l dev cid s) (\<lambda>off. rc_config_write_byte dev p (addr + off) b timeout s)"

definition capability_write_word ::
  "('s, 'a) host_lens \<Rightarrow> 's port \<Rightarrow> pcie_id \<Rightarrow> int \<Rightarrow> int \<Rightarrow> int \<Rightarrow> int \<Rightarrow> 's \<Rightarrow> py_error + 's" where
  "capability_write_word l p dev cid addr w timeout = capability_write_words l p dev cid addr [w] 2 timeout"

definition capability_write_dword ::
  "('s, 'a) host_lens \<Rightarrow> 's port \<Rightarrow> pcie_id \<Rightarrow> int \<Rightarrow> int \<Rightarrow> int \<Rightarrow> int \<Rightarrow> 's \<Rightarrow> py_error + 's" where
  "capability_write_dword l p dev cid addr w timeout = capability_write_dwords l p dev cid addr [w] timeout"

definition capability_write_qword ::
  "('s, 'a) host_lens \<Rightarrow> 's port \<Rightarrow> pcie_id \<Rightarrow> int \<Rightarrow> int \<Rightarrow> int \<Rightarrow> int \<Rightarrow> 's \<Rightarrow> py_error + 's" where
  "capability_write_qword l p dev cid addr w timeout = capability_write_qwords l p dev cid addr [w] timeout"

section \<open>Message signalled interrupts\<close>

text \<open>A new signal gets the next free number and is low. A device gets thirty-two messages.\<close>

definition new_message :: "'a root_complex_scheme \<Rightarrow> 'a root_complex_scheme" where
  "new_message h =
     h\<lparr>msi_signals := (msi_signals h)(msi_msg_limit h \<mapsto> [sig_count h]),
       sig_val := (sig_val h)(sig_count h := False), sig_count := sig_count h + 1,
       msi_callbacks := (msi_callbacks h)(msi_msg_limit h \<mapsto> []),
       msi_msg_limit := msi_msg_limit h + 1\<rparr>"

definition new_messages :: "nat \<Rightarrow> 'a root_complex_scheme \<Rightarrow> 'a root_complex_scheme" where
  "new_messages n h = (new_message ^^ n) h"

definition msi_alloc :: "(int \<Rightarrow> nat) \<Rightarrow> 'a root_complex_scheme \<Rightarrow> py_error + 'a root_complex_scheme" where
  "msi_alloc clog2 h =
     (case rc_msi_addr h of
        Some a \<Rightarrow> Inr h
      | None \<Rightarrow> try_bind (alloc_region clog2 4 (Some MSIRegion) h) (\<lambda>(h', a). Inr (h'\<lparr>rc_msi_addr := Some a\<rparr>)))"

text \<open>The writes to the capability and the entry of the messages, once the control register is read.\<close>

definition msi_setup ::
  "('s, 'a) host_lens \<Rightarrow> 's port \<Rightarrow> pcie_id \<Rightarrow> nat list \<Rightarrow> int \<Rightarrow> 's \<Rightarrow> py_error + 's" where
  "msi_setup l p dev path msg_ctrl s =
     (case rc_msi_addr (lens_get l s) of None \<Rightarrow> Inl TypeError | Some addr \<Rightarrow>
      let msi_64bit = drop_bit 23 msg_ctrl AND 1; msi_mmcap = drop_bit 17 msg_ctrl AND 7
      in try_bind (capability_write_dword l p dev MSI_CAP_ID 4 (addr AND 0xfffffffc) 0 s) (\<lambda>s.
         try_bind (if msi_64bit \<noteq> 0
                   then try_bind (capability_write_dword l p dev MSI_CAP_ID 8 (drop_bit 32 addr AND 0xffffffff) 0 s) (\<lambda>s.
                          capability_write_dword l p dev MSI_CAP_ID 12 (msi_msg_limit (lens_get l s)) 0 s)
                   else capability_write_dword l p dev MSI_CAP_ID 8 (msi_msg_limit (lens_get l s)) 0 s) (\<lambda>s.
         try_bind (capability_write_dword l p dev MSI_CAP_ID 0
                     ((msg_ctrl AND NOT (push_bit 20 7)) OR push_bit 16 1 OR push_bit 20 msi_mmcap) 0 s) (\<lambda>s.
         let h = lens_get l s
         in Inr (on_host l (new_messages 32)
              (on_item l path (\<lambda>i. i\<lparr>ti_msi_addr := rc_msi_addr h, ti_msi_data := Some (msi_msg_limit h)\<rparr>) s))))))"

definition configure_msi ::
  "(int \<Rightarrow> nat) \<Rightarrow> ('s, 'a) host_lens \<Rightarrow> 's port \<Rightarrow> pcie_id \<Rightarrow> 's \<Rightarrow> ('s \<times> bool) run" where
  "configure_msi clog2 l p dev s =
     run_bind (Some (msi_alloc clog2 (lens_get l s))) (\<lambda>h.
     let s = lens_put l h s
     in case find_dev dev (rc_tree h) of
          None \<Rightarrow> run_return (s, False)
        | Some path \<Rightarrow>
            let ti = item_at path (rc_tree h)
            in if get_cap_offset MSI_CAP_ID (ti_capabilities ti) = None then run_return (s, False)
               else if ti_msi_addr ti \<noteq> None \<and> ti_msi_data ti \<noteq> None then run_return (s, True)
               else run_bind (capability_read_dword l p dev MSI_CAP_ID 0 0 s) (\<lambda>(s, msg_ctrl).
                    run_bind (Some (msi_setup l p dev path msg_ctrl s)) (\<lambda>s. run_return (s, True))))"

definition msi_number :: "pcie_id \<Rightarrow> int \<Rightarrow> 'a rc_host_scheme \<Rightarrow> int option" where
  "msi_number dev number h =
     (case find_dev dev (rc_tree h) of
        None \<Rightarrow> None
      | Some path \<Rightarrow> map_option (\<lambda>d. d + number) (ti_msi_data (item_at path (rc_tree h))))"

text \<open>The first signal of a message. Every list of signals that is entered has one.\<close>

definition msi_get_signal :: "pcie_id \<Rightarrow> int \<Rightarrow> 'a rc_host_scheme \<Rightarrow> py_error + nat option" where
  "msi_get_signal dev number h =
     (case msi_number dev number h of
        None \<Rightarrow> Inr None
      | Some n \<Rightarrow>
          (case msi_signals h n of
             None \<Rightarrow> Inr None
           | Some [] \<Rightarrow> Inl IndexError
           | Some (x # _) \<Rightarrow> Inr (Some x)))"

definition msi_register_signal :: "pcie_id \<Rightarrow> nat \<Rightarrow> int \<Rightarrow> 'a rc_host_scheme \<Rightarrow> 'a rc_host_scheme" where
  "msi_register_signal dev sig number h =
     (case msi_number dev number h of
        None \<Rightarrow> h
      | Some n \<Rightarrow>
          (case msi_signals h n of
             None \<Rightarrow> h
           | Some xs \<Rightarrow> h\<lparr>msi_signals := (msi_signals h)(n \<mapsto> xs @ [sig])\<rparr>))"

definition msi_register_callback :: "pcie_id \<Rightarrow> nat \<Rightarrow> int \<Rightarrow> 'a rc_host_scheme \<Rightarrow> 'a rc_host_scheme" where
  "msi_register_callback dev cb number h =
     (case msi_number dev number h of
        None \<Rightarrow> h
      | Some n \<Rightarrow>
          (case msi_callbacks h n of
             None \<Rightarrow> h
           | Some xs \<Rightarrow> h\<lparr>msi_callbacks := (msi_callbacks h)(n \<mapsto> xs @ [cb])\<rparr>))"

section \<open>Base address registers\<close>

definition item_bar :: "int \<Rightarrow> int \<Rightarrow> int \<Rightarrow> item \<Rightarrow> item" where
  "item_bar b v sz i = i\<lparr>ti_bar := (ti_bar i)[nat b := Some v], ti_bar_size := (ti_bar_size i)[nat b := Some sz]\<rparr>"

definition alloc_io :: "('s, 'a) host_lens \<Rightarrow> int \<Rightarrow> 's \<Rightarrow> 's \<times> int" where
  "alloc_io l msk s =
     (let base = align (rc_io_limit (lens_get l s)) msk in (on_host l (\<lambda>h. h\<lparr>rc_io_limit := base + (msk + 1)\<rparr>) s, base))"

definition alloc_mem :: "('s, 'a) host_lens \<Rightarrow> int \<Rightarrow> 's \<Rightarrow> 's \<times> int" where
  "alloc_mem l msk s =
     (let base = align (rc_mem_limit (lens_get l s)) msk in (on_host l (\<lambda>h. h\<lparr>rc_mem_limit := base + (msk + 1)\<rparr>) s, base))"

definition alloc_prefetchable :: "('s, 'a) host_lens \<Rightarrow> int \<Rightarrow> 's \<Rightarrow> 's \<times> int" where
  "alloc_prefetchable l msk s =
     (let base = align (rc_prefetchable_mem_limit (lens_get l s)) msk
      in (on_host l (\<lambda>h. h\<lparr>rc_prefetchable_mem_limit := base + (msk + 1)\<rparr>) s, base))"

text \<open>
  The register with ones written to it is read back as \<open>val\<close>; \<open>bar_io\<close>, \<open>bar_64\<close> and
  \<open>bar_32\<close> are the three branches. The flag of the result tells whether the next register was used, too.
\<close>

definition bar_addr :: "int \<Rightarrow> int" where
  "bar_addr b = 0x10 + b * 4"

definition bar_io ::
  "('s, 'a) host_lens \<Rightarrow> 's port \<Rightarrow> pcie_id \<Rightarrow> nat list \<Rightarrow> int \<Rightarrow> int \<Rightarrow> 's \<Rightarrow> ('s \<times> bool) run" where
  "bar_io l p dev path b val s =
     (let msk = (NOT val AND 0xffffffff) OR 3; (s, base) = alloc_io l msk s; v = (val AND 3) OR base
      in run_bind (Some (rc_config_write_dword dev p (bar_addr b) v 0 (on_item l path (item_bar b v (msk + 1)) s))) (\<lambda>s.
         run_return (s, False)))"

definition bar_64 ::
  "('s, 'a) host_lens \<Rightarrow> 's port \<Rightarrow> pcie_id \<Rightarrow> nat list \<Rightarrow> int \<Rightarrow> int \<Rightarrow> 's \<Rightarrow> ('s \<times> bool) run" where
  "bar_64 l p dev path b val s =
     run_bind (Some (rc_config_write_dword dev p (bar_addr (b + 1)) 0xffffffff 0 s)) (\<lambda>s.
     run_bind (rc_config_read_dword dev p (bar_addr (b + 1)) 0 s) (\<lambda>(s, val2).
     let val = val OR push_bit 32 val2; msk = (NOT val AND 0xffffffffffffffff) OR 15;
         (s, base) = (if val AND 8 \<noteq> 0 then alloc_prefetchable l msk s else alloc_mem l msk s);
         v = (val AND 15) OR base
     in run_bind (Some (rc_config_write_dword dev p (bar_addr b) (v AND 0xffffffff) 0 (on_item l path (item_bar b v (msk + 1)) s))) (\<lambda>s.
        run_bind (Some (rc_config_write_dword dev p (bar_addr (b + 1)) (drop_bit 32 v AND 0xffffffff) 0 s)) (\<lambda>s.
        run_return (s, True)))))"

definition bar_32 ::
  "('s, 'a) host_lens \<Rightarrow> 's port \<Rightarrow> pcie_id \<Rightarrow> nat list \<Rightarrow> int \<Rightarrow> int \<Rightarrow> 's \<Rightarrow> ('s \<times> bool) run" where
  "bar_32 l p dev path b val s =
     (let msk = (NOT val AND 0xffffffff) OR 15; (s, base) = alloc_mem l msk s; v = (val AND 15) OR base
      in run_bind (Some (rc_config_write_dword dev p (bar_addr b) v 0 (on_item l path (item_bar b v (msk + 1)) s))) (\<lambda>s.
         run_return (s, False)))"

definition enum_bar ::
  "('s, 'a) host_lens \<Rightarrow> 's port \<Rightarrow> pcie_id \<Rightarrow> nat list \<Rightarrow> int \<Rightarrow> int \<Rightarrow> 's \<Rightarrow> ('s \<times> bool) run" where
  "enum_bar l p dev path bar_cnt b s =
     run_bind (Some (rc_config_write_dword dev p (bar_addr b) 0xffffffff 0 s)) (\<lambda>s.
     run_bind (rc_config_read_dword dev p (bar_addr b) 0 s) (\<lambda>(s, val).
     if val = 0 then run_return (s, False)
     else if val AND 1 \<noteq> 0 then bar_io l p dev path b val s
     else if val AND 4 \<noteq> 0
     then if b \<ge> bar_cnt - 1 then run_raise (OtherException ''Invalid BAR configuration'') else bar_64 l p dev path b val s
     else bar_32 l p dev path b val s))"

function enum_bars ::
  "('s, 'a) host_lens \<Rightarrow> 's port \<Rightarrow> pcie_id \<Rightarrow> nat list \<Rightarrow> int \<Rightarrow> int \<Rightarrow> 's \<Rightarrow> 's run" where
  "enum_bars l p dev path bar_cnt b s =
     (if b < bar_cnt
      then run_bind (enum_bar l p dev path bar_cnt b s) (\<lambda>(s, wide). enum_bars l p dev path bar_cnt (if wide then b + 2 else b + 1) s)
      else run_return s)"
  by pat_completeness auto
termination
  by (relation "measure (\<lambda>(l, p, dev, path, bar_cnt, b, s). nat (bar_cnt - b))") auto

declare enum_bars.simps [simp del]

section \<open>Capabilities\<close>

partial_function (option) walk_capabilities ::
  "('s, 'a) host_lens \<Rightarrow> 's port \<Rightarrow> pcie_id \<Rightarrow> nat list \<Rightarrow> int \<Rightarrow> 's \<Rightarrow> 's run" where
  "walk_capabilities l p dev path ptr s =
     (if ptr > 0
      then run_bind (rc_config_read dev p ptr 0 2 s) (\<lambda>(s, val).
           case val of
             None \<Rightarrow> run_raise TypeError
           | Some bs \<Rightarrow>
               if length bs < 2 then run_raise IndexError
               else walk_capabilities l p dev path ((bs ! 1) AND 0xfc)
                      (on_item l path (\<lambda>i. i\<lparr>ti_capabilities := ti_capabilities i @ [(bs ! 0, ptr)]\<rparr>) s))
      else run_return s)"

definition set_device_control :: "('s, 'a) host_lens \<Rightarrow> 's port \<Rightarrow> pcie_id \<Rightarrow> 's \<Rightarrow> 's run" where
  "set_device_control l p dev s =
     run_bind (capability_read_dword l p dev PCIE_CAP_ID 4 0 s) (\<lambda>(s, dev_cap).
     run_bind (capability_read_dword l p dev PCIE_CAP_ID 8 0 s) (\<lambda>(s, dev_ctrl_sta).
     let h = lens_get l s;
         max_payload = min 5 (min (rc_max_payload_size h) (dev_cap AND 7));
         ext_tag = (if rc_extended_tag_field_enable h \<and> dev_cap AND push_bit 5 1 \<noteq> 0 then 1 else 0);
         max_read_req = min 5 (rc_max_read_request_size h)
     in Some (capability_write_dword l p dev PCIE_CAP_ID 8
          ((dev_ctrl_sta AND 0x00008e1f) OR push_bit 5 max_payload OR push_bit 8 ext_tag OR push_bit 12 max_read_req) 0 s)))"

definition enable_mastering :: "'s port \<Rightarrow> pcie_id \<Rightarrow> 's \<Rightarrow> 's run" where
  "enable_mastering p dev s =
     run_bind (rc_config_read_word dev p 0x04 0 s) (\<lambda>(s, val). Some (rc_config_write_word dev p 0x04 (val OR 4) 0 s))"

section \<open>One function\<close>

text \<open>The options of an enumeration.\<close>

record enum_options =
  eo_timeout :: int
  eo_bus_mastering :: bool
  eo_msi :: bool

text \<open>
  The value is None when there is no such function, and otherwise the path of the new item and whether the function is a bridge.
\<close>

definition enum_function ::
  "(int \<Rightarrow> nat) \<Rightarrow> ('s, 'a) host_lens \<Rightarrow> 's port \<Rightarrow> enum_options \<Rightarrow> nat list \<Rightarrow> int \<Rightarrow> int \<Rightarrow> int \<Rightarrow> 's \<Rightarrow>
   ('s \<times> (nat list \<times> bool) option) run" where
  "enum_function clog2 l p eo path bn d f s =
     (let dev = PcieId bn d f
      in run_bind (rc_config_read dev p 0x000 (eo_timeout eo) 4 s) (\<lambda>(s, val).
         case val of
           None \<Rightarrow> run_return (s, None)
         | Some bs \<Rightarrow>
             if bs = [0xff, 0xff, 0xff, 0xff] then run_return (s, None)
             else if length bs \<noteq> 4 then run_raise StructError
             else
               let path' = path @ [child_count path (rc_tree (lens_get l s))];
                   ti = new_item\<lparr>ti_bus_num := bn, ti_device_num := d, ti_function_num := f,
                          ti_vendor_id := le_value (take 2 bs), ti_device_id := le_value (drop 2 bs)\<rparr>;
                   s = on_host l (\<lambda>h. h\<lparr>rc_tree := add_child path ti (rc_tree h)\<rparr>) s
               in run_bind (rc_config_read_byte dev p 0x00e (eo_timeout eo) s) (\<lambda>(s, val).
                  let is_bridge = (val AND 0x7f = 0x01)
                  in run_bind (enum_bars l p dev path' (if is_bridge then 2 else 6) 0 s) (\<lambda>s.
                     run_bind (rc_config_read_byte dev p 0x34 0 s) (\<lambda>(s, ptr).
                     run_bind (walk_capabilities l p dev path' (ptr AND 0xfc) s) (\<lambda>s.
                     run_bind (set_device_control l p dev s) (\<lambda>s.
                     run_bind (if eo_bus_mastering eo then enable_mastering p dev s else run_return s) (\<lambda>s.
                     run_bind (if eo_msi eo then run_bind (configure_msi clog2 l p dev s) (\<lambda>(s, _). run_return s) else run_return s) (\<lambda>s.
                     run_return (s, Some (path', is_bridge)))))))))))"

section \<open>Segments\<close>

definition align_limits :: "('s, 'a) host_lens \<Rightarrow> 's \<Rightarrow> 's" where
  "align_limits l = on_host l (\<lambda>h.
     h\<lparr>rc_io_limit := align (rc_io_limit h) 0xfff, rc_mem_limit := align (rc_mem_limit h) 0xfffff,
       rc_prefetchable_mem_limit := align (rc_prefetchable_mem_limit h) 0xfffff\<rparr>)"

definition open_segment :: "('s, 'a) host_lens \<Rightarrow> nat list \<Rightarrow> int \<Rightarrow> 's \<Rightarrow> 's" where
  "open_segment l path bn s =
     (let s = align_limits l s; h = lens_get l s
      in on_item l path (\<lambda>i. i\<lparr>ti_sec_bus_num := bn,
           ti_io_base := rc_io_limit h, ti_io_limit := rc_io_limit h, ti_mem_base := rc_mem_limit h, ti_mem_limit := rc_mem_limit h,
           ti_prefetchable_mem_base := rc_prefetchable_mem_limit h, ti_prefetchable_mem_limit := rc_prefetchable_mem_limit h\<rparr>) s)"

definition close_segment :: "('s, 'a) host_lens \<Rightarrow> nat list \<Rightarrow> int \<Rightarrow> 's \<Rightarrow> 's" where
  "close_segment l path sub_bus s =
     (let s = align_limits l s; h = lens_get l s
      in on_item l path (\<lambda>i. i\<lparr>ti_sub_bus_num := sub_bus, ti_io_limit := rc_io_limit h - 1,
           ti_mem_limit := rc_mem_limit h - 1, ti_prefetchable_mem_limit := rc_prefetchable_mem_limit h - 1\<rparr>) s)"

text \<open>\<open>bytearray\<close> refuses what is no byte; \<open>struct.pack\<close> what does not fit.\<close>

definition as_bytes :: "int list \<Rightarrow> py_error + int list" where
  "as_bytes xs = (if \<forall>x\<in>set xs. 0 \<le> x \<and> x < 256 then Inr xs else Inl ValueError)"

fun pack_words :: "nat \<Rightarrow> int list \<Rightarrow> py_error + int list" where
  "pack_words n [] = Inr []"
| "pack_words n (x # xs) =
     (if 0 \<le> x \<and> x < 256 ^ n then try_bind (pack_words n xs) (\<lambda>bs. Inr (le_bytes n x @ bs)) else Inl StructError)"

definition write_packed :: "'s port \<Rightarrow> pcie_id \<Rightarrow> int \<Rightarrow> py_error + int list \<Rightarrow> 's \<Rightarrow> py_error + 's" where
  "write_packed p dev addr data s = try_bind data (\<lambda>bs. rc_config_write dev p addr 0 bs s)"

definition set_busses :: "'s port \<Rightarrow> pcie_id \<Rightarrow> int \<Rightarrow> int \<Rightarrow> int \<Rightarrow> 's \<Rightarrow> py_error + 's" where
  "set_busses p dev pri sec sub = write_packed p dev 0x018 (as_bytes [pri, sec, sub])"

definition set_windows :: "('s, 'a) host_lens \<Rightarrow> 's port \<Rightarrow> pcie_id \<Rightarrow> nat list \<Rightarrow> 's \<Rightarrow> py_error + 's" where
  "set_windows l p dev path s =
     (let i = item_at path (rc_tree (lens_get l s))
      in try_bind (write_packed p dev 0x01c
             (pack_words 1 [drop_bit 8 (ti_io_base i) AND 0xf0, drop_bit 8 (ti_io_limit i) AND 0xf0]) s) (\<lambda>s.
         try_bind (write_packed p dev 0x030 (pack_words 2 [drop_bit 16 (ti_io_base i), drop_bit 16 (ti_io_limit i)]) s) (\<lambda>s.
         try_bind (write_packed p dev 0x020
             (pack_words 2 [drop_bit 16 (ti_mem_base i) AND 0xfff0, drop_bit 16 (ti_mem_limit i) AND 0xfff0]) s) (\<lambda>s.
         try_bind (write_packed p dev 0x024
             (pack_words 2 [drop_bit 16 (ti_prefetchable_mem_base i) AND 0xfff0, drop_bit 16 (ti_prefetchable_mem_limit i) AND 0xfff0]) s) (\<lambda>s.
         try_bind (write_packed p dev 0x028 (pack_words 4 [drop_bit 32 (ti_prefetchable_mem_base i)]) s) (\<lambda>s.
         write_packed p dev 0x02c (pack_words 4 [drop_bit 32 (ti_prefetchable_mem_limit i)]) s))))))"

definition finish_bridge ::
  "('s, 'a) host_lens \<Rightarrow> 's port \<Rightarrow> pcie_id \<Rightarrow> nat list \<Rightarrow> int \<Rightarrow> int \<Rightarrow> int \<Rightarrow> 's \<Rightarrow> py_error + ('s \<times> int)" where
  "finish_bridge l p dev path pri sec sub s =
     try_bind (set_busses p dev pri sec sub s) (\<lambda>s. try_bind (set_windows l p dev path s) (\<lambda>s. Inr (s, sub)))"

text \<open>
  The two nested loops of a segment are one recursion over the work that is left: a device number to try, or a
  function of a device that was found.
\<close>

datatype work = Probe int | Examine int int

definition all_devices :: "work list" where
  "all_devices = map (\<lambda>d. Probe (int d)) [0..<32]"

definition probe :: "'s port \<Rightarrow> enum_options \<Rightarrow> int \<Rightarrow> int \<Rightarrow> 's \<Rightarrow> ('s \<times> work list) run" where
  "probe p eo bn d s =
     (if bn = 0 \<and> d = 0 then run_return (s, [])
      else run_bind (rc_config_read_dword (PcieId bn d 0) p 0x000 (eo_timeout eo) s) (\<lambda>(s, val).
           if val = 0xffffffff then run_return (s, [])
           else run_bind (rc_config_read_byte (PcieId bn d 0) p 0x00e (eo_timeout eo) s) (\<lambda>(s, val).
                run_return (s, map (\<lambda>f. Examine d (int f)) [0..<(if val AND 0x80 \<noteq> 0 then 8 else 1)]))))"

text \<open>The value is the path of a bridge whose secondary bus is to be enumerated now.\<close>

definition examine ::
  "(int \<Rightarrow> nat) \<Rightarrow> ('s, 'a) host_lens \<Rightarrow> 's port \<Rightarrow> enum_options \<Rightarrow> nat list \<Rightarrow> int \<Rightarrow> int \<Rightarrow> int \<Rightarrow> int \<Rightarrow> 's \<Rightarrow>
   ('s \<times> nat list option) run" where
  "examine clog2 l p eo path bn sec_bus d f s =
     run_bind (enum_function clog2 l p eo path bn d f s) (\<lambda>(s, found).
     case found of
       None \<Rightarrow> run_return (s, None)
     | Some (path', is_bridge) \<Rightarrow>
         if \<not> is_bridge then run_return (s, None)
         else run_bind (Some (set_busses p (PcieId bn d f) bn sec_bus 255 s)) (\<lambda>s.
              run_return (open_segment l path' sec_bus s, Some path')))"

partial_function (option) enum_loop ::
  "(int \<Rightarrow> nat) \<Rightarrow> ('s, 'a) host_lens \<Rightarrow> 's port \<Rightarrow> enum_options \<Rightarrow> nat list \<Rightarrow> int \<Rightarrow> int \<Rightarrow> int \<Rightarrow> work list \<Rightarrow> 's \<Rightarrow>
   ('s \<times> int) run" where
  "enum_loop clog2 l p eo path bn sec_bus sub_bus todo s =
     (case todo of
        [] \<Rightarrow> run_return (close_segment l path sub_bus s, sub_bus)
      | Probe d # rest \<Rightarrow>
          run_bind (probe p eo bn d s) (\<lambda>(s, more). enum_loop clog2 l p eo path bn sec_bus sub_bus (more @ rest) s)
      | Examine d f # rest \<Rightarrow>
          run_bind (examine clog2 l p eo path bn sec_bus d f s) (\<lambda>(s, found).
          case found of
            None \<Rightarrow> enum_loop clog2 l p eo path bn sec_bus sub_bus rest s
          | Some path' \<Rightarrow>
              run_bind (enum_loop clog2 l p eo path' sec_bus (sec_bus + 1) sec_bus all_devices s) (\<lambda>(s, sub).
              run_bind (Some (finish_bridge l p (PcieId bn d f) path' bn sec_bus sub s)) (\<lambda>(s, sub).
              enum_loop clog2 l p eo path bn (sub + 1) sub rest s))))"

definition enumerate_segment ::
  "(int \<Rightarrow> nat) \<Rightarrow> ('s, 'a) host_lens \<Rightarrow> 's port \<Rightarrow> enum_options \<Rightarrow> nat list \<Rightarrow> int \<Rightarrow> 's \<Rightarrow> ('s \<times> int) run" where
  "enumerate_segment clog2 l p eo path bn s =
     enum_loop clog2 l p eo path bn (bn + 1) bn all_devices (open_segment l path bn s)"

definition rc_enumerate ::
  "(int \<Rightarrow> nat) \<Rightarrow> ('s, 'a) host_lens \<Rightarrow> 's port \<Rightarrow> enum_options \<Rightarrow> 's \<Rightarrow> 's run" where
  "rc_enumerate clog2 l p eo s =
     (let s = on_host l (\<lambda>h. h\<lparr>rc_io_limit := rc_io_base h, rc_mem_limit := rc_mem_base h,
                rc_prefetchable_mem_limit := rc_prefetchable_mem_base h, rc_tree := TreeItem new_item []\<rparr>) s
      in run_bind (enumerate_segment clog2 l p eo [] 0 s) (\<lambda>(s, _).
         run_return (on_host l (\<lambda>h. h\<lparr>upstream_bridge := (upstream_bridge h)
            \<lparr>io_base := rc_io_base h, io_limit := rc_io_limit h, mem_base := rc_mem_base h, mem_limit := rc_mem_limit h,
             prefetchable_mem_base := rc_prefetchable_mem_base h, prefetchable_mem_limit := rc_prefetchable_mem_limit h\<rparr>\<rparr>) s)))"

end
