(* ===== verification/PCIE_Enum_Correct.thy ===== *)
theory PCIE_Enum_Correct
  imports PCIE_Enum
begin

text \<open>
  Correctness of the enumeration of \<open>PCIE_Enum\<close>: an item entered into the device tree is found there, messages of different
  devices drive different signals, and the enumeration ends on every topology of busses as long as the capability lists do.
\<close>

section \<open>The device tree\<close>

fun tree_ids :: "tree_item \<Rightarrow> pcie_id set" where
  "tree_ids (TreeItem d cs) = insert (ti_id d) (\<Union>c\<in>set cs. tree_ids c)"

fun valid_path :: "nat list \<Rightarrow> tree_item \<Rightarrow> bool" where
  "valid_path [] t = True"
| "valid_path (k # p) (TreeItem d cs) = (k < length cs \<and> valid_path p (cs ! k))"

lemma find_dev_sound:
  "find_dev i t = Some p \<Longrightarrow> valid_path p t \<and> ti_id (item_at p t) = i"
  "find_devs i k cs = Some p \<Longrightarrow>
     \<exists>j q. p = (k + j) # q \<and> j < length cs \<and> valid_path q (cs ! j) \<and> ti_id (item_at q (cs ! j)) = i"
proof (induction i t and i k cs arbitrary: p and p rule: find_dev_find_devs.induct)
  case (1 i d cs)
  then show ?case by (fastforce split: if_splits)
next
  case (3 i k c cs)
  show ?case
  proof (cases "find_dev i c")
    case None
    then have "find_devs i (k + 1) cs = Some p" using "3.prems" by simp
    from "3.IH"(2) [OF None this] obtain j q where
      "p = (k + 1 + j) # q" "j < length cs" "valid_path q (cs ! j)" "ti_id (item_at q (cs ! j)) = i" by auto
    then show ?thesis by (intro exI [of _ "Suc j"] exI [of _ q]) simp
  next
    case (Some q)
    then have "p = k # q" using "3.prems" by simp
    then show ?thesis using "3.IH"(1) [OF Some] by (intro exI [of _ 0] exI [of _ q]) simp
  qed
qed simp

lemma find_dev_None: "i \<notin> tree_ids t \<Longrightarrow> find_dev i t = None" "\<forall>c\<in>set cs. i \<notin> tree_ids c \<Longrightarrow> find_devs i k cs = None"
  by (induction i t and i k cs rule: find_dev_find_devs.induct) auto

lemma find_devs_at:
  assumes "\<forall>j<m. find_dev i (cs ! j) = None" and "m < length cs" and "find_dev i (cs ! m) = Some q"
  shows "find_devs i k cs = Some ((k + m) # q)"
  using assms
proof (induction cs arbitrary: k m)
  case (Cons c cs)
  show ?case
  proof (cases m)
    case 0 then show ?thesis using Cons.prems by simp
  next
    case (Suc m')
    have "find_dev i c = None" "\<forall>j<m'. find_dev i (cs ! j) = None" using Cons.prems(1) Suc by auto
    then show ?thesis using Cons.IH [of m' "k + 1"] Cons.prems(2,3) Suc by simp
  qed
qed simp

lemma find_added:
  "valid_path p t \<Longrightarrow> ti_id i \<notin> tree_ids t \<Longrightarrow> find_dev (ti_id i) (add_child p i t) = Some (p @ [child_count p t])"
proof (induction p i t rule: add_child.induct)
  case (1 i d cs)
  have "find_devs (ti_id i) 0 (cs @ [TreeItem i []]) = Some ((0 + length cs) # [])"
    using 1 by (intro find_devs_at) (auto simp: nth_append find_dev_None)
  then show ?case using 1 by auto
next
  case (2 k p i d cs)
  have k: "k < length cs" "valid_path p (cs ! k)" using "2.prems"(1) by auto
  have fresh: "\<forall>c\<in>set cs. ti_id i \<notin> tree_ids c" "ti_id i \<noteq> ti_id d" using "2.prems"(2) by auto
  have "find_devs (ti_id i) 0 (cs[k := add_child p i (cs ! k)]) = Some ((0 + k) # (p @ [child_count p (cs ! k)]))"
    using k fresh "2.IH" by (intro find_devs_at) (auto simp: find_dev_None)
  then show ?case using fresh(2) by simp
qed

lemma item_added: "valid_path p t \<Longrightarrow> item_at (p @ [child_count p t]) (add_child p i t) = i"
  by (induction p i t rule: add_child.induct) (auto simp: nth_append)

lemma item_kept: "valid_path p t \<Longrightarrow> valid_path q t \<Longrightarrow> item_at q (add_child p i t) = item_at q t"
proof (induction q arbitrary: p t)
  case Nil
  obtain d cs where "t = TreeItem d cs" by (cases t)
  then show ?case by (cases p) auto
next
  case (Cons j q)
  obtain d cs where t: "t = TreeItem d cs" by (cases t)
  show ?case using Cons.prems Cons.IH [of "tl p" "cs ! j"] unfolding t by (cases p) (auto simp: nth_append nth_list_update)
qed

lemma find_kept: "i \<in> tree_ids t \<Longrightarrow> find_dev i t \<noteq> None" "\<exists>c\<in>set cs. i \<in> tree_ids c \<Longrightarrow> find_devs i k cs \<noteq> None"
  by (induction i t and i k cs rule: find_dev_find_devs.induct) (auto split: option.splits)

text \<open>C38. The device tree finds what was entered: a function with a new identifier, entered as the last child of
  any item, is found at its place; the items entered before stay as they are; and the path \<open>find_dev\<close> returns
  always leads to an item with the identifier asked for, which it finds whenever there is one.\<close>

theorem tree_lookup:
  assumes "valid_path p t" and "ti_id i \<notin> tree_ids t"
  shows "find_dev (ti_id i) (add_child p i t) = Some (p @ [child_count p t]) \<and>
     item_at (p @ [child_count p t]) (add_child p i t) = i \<and>
     (\<forall>q. valid_path q t \<longrightarrow> item_at q (add_child p i t) = item_at q t) \<and>
     (\<forall>j\<in>tree_ids t. \<exists>q. find_dev j t = Some q \<and> valid_path q t \<and> ti_id (item_at q t) = j)"
proof (intro conjI allI impI ballI)
  show "find_dev (ti_id i) (add_child p i t) = Some (p @ [child_count p t])" by (rule find_added [OF assms])
  show "item_at (p @ [child_count p t]) (add_child p i t) = i" by (rule item_added [OF assms(1)])
  show "item_at q (add_child p i t) = item_at q t" if "valid_path q t" for q by (rule item_kept [OF assms(1) that])
  fix j assume "j \<in> tree_ids t"
  then obtain q where "find_dev j t = Some q" using find_kept(1) by blast
  then show "\<exists>q. find_dev j t = Some q \<and> valid_path q t \<and> ti_id (item_at q t) = j" using find_dev_sound(1) by blast
qed

theorem tree_lookup_witness:
  "find_dev (PcieId 1 2 3) (add_child [] (new_item\<lparr>ti_bus_num := 1, ti_device_num := 2, ti_function_num := 3\<rparr>) (TreeItem new_item [])) = Some [0]"
  using tree_lookup [of "[]" "TreeItem new_item []" "new_item\<lparr>ti_bus_num := 1, ti_device_num := 2, ti_function_num := 3\<rparr>"]
  by (simp add: ti_id_def new_item_def PcieId_def)

section \<open>Messages\<close>

definition msi_ok :: "'a root_complex_scheme \<Rightarrow> bool" where
  "msi_ok h \<longleftrightarrow> 0 \<le> msi_msg_limit h \<and> (\<forall>n xs. msi_signals h n = Some xs \<longrightarrow> n < msi_msg_limit h \<and> (\<forall>x\<in>set xs. x < sig_count h))"

lemma new_messages_Suc: "new_messages (Suc n) h = new_message (new_messages n h)"
  by (simp add: new_messages_def)

lemma new_messages_tables:
  "msi_msg_limit (new_messages n h) = msi_msg_limit h + int n \<and> sig_count (new_messages n h) = sig_count h + n \<and>
   msi_signals (new_messages n h) = (\<lambda>m. if msi_msg_limit h \<le> m \<and> m < msi_msg_limit h + int n
      then Some [sig_count h + nat (m - msi_msg_limit h)] else msi_signals h m) \<and>
   msi_callbacks (new_messages n h) = (\<lambda>m. if msi_msg_limit h \<le> m \<and> m < msi_msg_limit h + int n then Some [] else msi_callbacks h m)"
proof (induction n)
  case 0 then show ?case by (auto simp: new_messages_def fun_eq_iff)
next
  case (Suc n) then show ?case by (auto simp: new_messages_Suc new_message_def fun_eq_iff Let_def)
qed

lemma msi_ok_new: "msi_ok h \<Longrightarrow> msi_ok (new_messages n h)"
  using new_messages_tables [of n h] unfolding msi_ok_def by (fastforce split: if_splits)

text \<open>C39. The messages a device gets are its own and stay so. However many messages are given out to other devices after it
  was configured, writing one of its messages to the interrupt region still succeeds and toggles the one
  signal that was made for this message, and nothing else; no other message, given out before or after, toggles
  this signal, and the tables stay well-formed.\<close>

theorem messages_separate:
  fixes h :: "'a root_complex_scheme"
  assumes "msi_ok h" and "k < 32" and "msi_msg_limit h + int k < 2 ^ 32" and "h1 = new_messages m (new_messages 32 h)"
  shows "\<exists>h2. msi_region_write 0 (le_bytes 4 (msi_msg_limit h + int k)) h1 = Inr h2 \<and>
     (\<forall>x. sig_val h2 x = (if x = sig_count h + k then \<not> sig_val h1 x else sig_val h1 x)) \<and>
     rc_calls h2 = rc_calls h1 \<and> msi_signals h2 = msi_signals h1 \<and>
     (\<forall>n xs. msi_signals h1 n = Some xs \<longrightarrow> n \<noteq> msi_msg_limit h + int k \<longrightarrow> sig_count h + k \<notin> set xs) \<and>
     (\<forall>n. n < msi_msg_limit h \<longrightarrow> msi_signals h1 n = msi_signals h n) \<and> msi_ok h1"
proof -
  let ?h = "new_messages 32 h" and ?n = "msi_msg_limit h + int k"
  note tab = new_messages_tables [of 32 h] and tab1 = new_messages_tables [of m ?h]
  have pos: "0 \<le> ?n" using assms(1) by (simp add: msi_ok_def)
  have v: "le_value (le_bytes 4 ?n) = ?n" by (rule le_value_bytes) (use pos assms(3) in simp_all)
  have s: "msi_signals h1 ?n = Some [sig_count h + k]" "msi_callbacks h1 ?n = Some []" using tab tab1 assms(2,4) by auto
  let ?h2 = "h1\<lparr>sig_val := (\<lambda>i. if i \<in> set [sig_count h + k] then \<not> sig_val h1 i else sig_val h1 i)\<rparr>"
  have w: "msi_region_write 0 (le_bytes 4 ?n) h1 = Inr ?h2"
    unfolding msi_region_write_def v by (simp add: s)
  have own: "sig_count h + k \<notin> set xs" if "msi_signals h1 n = Some xs" "n \<noteq> ?n" for n xs
  proof -
    have "sig_count h + k \<notin> set xs" if "msi_signals ?h n = Some xs"
      using that \<open>n \<noteq> ?n\<close> tab assms(1,2) unfolding msi_ok_def by (fastforce split: if_splits)
    then show ?thesis using that(1) tab1 tab assms(2,4) by (auto split: if_splits)
  qed
  have "\<forall>n. n < msi_msg_limit h \<longrightarrow> msi_signals h1 n = msi_signals h n" using tab tab1 assms(4) by auto
  moreover have "msi_ok h1" unfolding assms(4) by (intro msi_ok_new assms(1))
  ultimately show ?thesis using w own by (intro exI [of _ ?h2]) auto
qed

theorem messages_separate_witness:
  "\<exists>h2. msi_region_write 0 (le_bytes 4 5) (new_messages 64 (new_messages 32 init_root_complex)) = Inr h2 \<and>
     sig_val h2 5 \<noteq> sig_val (new_messages 64 (new_messages 32 init_root_complex)) 5 \<and>
     sig_val h2 40 = sig_val (new_messages 64 (new_messages 32 init_root_complex)) 40"
proof -
  have "msi_ok init_root_complex" by (simp add: msi_ok_def init_root_complex_def)
  from messages_separate [OF this, of 5 _ 64, OF _ _ refl] show ?thesis by (auto simp: init_root_complex_def)
qed

section \<open>The enumeration ends\<close>

definition ends :: "'a run \<Rightarrow> bool" where
  "ends r \<longleftrightarrow> r \<noteq> None"

lemma ends_simps [simp]: "ends (Some r)" "\<not> ends None"
  by (simp_all add: ends_def)

lemma ends_obtain: "ends r \<Longrightarrow> \<exists>x. r = Some x"
  by (simp add: ends_def)

lemma run_bind_total: "ends r \<Longrightarrow> (\<And>a. ends (f a)) \<Longrightarrow> ends (run_bind r f)"
  by (auto simp: ends_def run_bind_def split: option.splits sum.splits)

lemma read_words_total: "(\<And>n s. ends (rd n s)) \<Longrightarrow> ends (read_words rd ws cnt s)"
  unfolding read_words_def by (auto intro!: run_bind_total)

lemma read_first_total: "(\<And>s. ends (rd s)) \<Longrightarrow> ends (read_first rd s)"
  unfolding read_first_def by (rule run_bind_total) (auto simp: first_word_run_def)

lemma read_byte_total: "(\<And>s. ends (rd s)) \<Longrightarrow> ends (read_byte rd s)"
  unfolding read_byte_def by (rule run_bind_total) (auto simp: first_word_run_def split: option.splits)

lemma config_read_total: "ends (rc_config_read dev p addr timeout len s)"
  unfolding rc_config_read_def by (rule run_bind_total) auto

lemma config_words_total:
  "ends (rc_config_read_dword dev p addr timeout s)" "ends (rc_config_read_word dev p addr timeout s)"
  "ends (rc_config_read_byte dev p addr timeout s)"
  unfolding rc_config_read_dword_def rc_config_read_word_def rc_config_read_byte_def rc_config_read_dwords_def rc_config_read_words_def
  by (intro read_first_total read_words_total read_byte_total config_read_total)+

lemma capability_read_dword_total: "ends (capability_read_dword l p dev cid addr timeout s)"
  unfolding capability_read_dword_def capability_read_dwords_def capability_read_words_def
  by (intro read_first_total read_words_total) (auto simp: capability_read_def intro!: run_bind_total config_read_total)

lemmas reads_total = config_read_total config_words_total capability_read_dword_total

lemma enum_bar_total: "ends (enum_bar l p dev path cnt b s)"
  unfolding enum_bar_def bar_io_def bar_32_def bar_64_def Let_def
  by (auto intro!: run_bind_total reads_total split: prod.splits)

lemma enum_bars_total: "ends (enum_bars l p dev path cnt b s)"
proof (induction l p dev path cnt b s rule: enum_bars.induct)
  case (1 l p dev path cnt b s)
  show ?case
  proof (cases "b < cnt")
    case True
    then show ?thesis
      by (subst enum_bars.simps) (auto intro!: run_bind_total enum_bar_total "1.IH" split: prod.splits)
  next
    case False then show ?thesis by (subst enum_bars.simps) simp
  qed
qed

lemma set_device_control_total: "ends (set_device_control l p dev s)"
  unfolding set_device_control_def Let_def by (auto intro!: run_bind_total reads_total split: prod.splits)

lemma enable_mastering_total: "ends (enable_mastering p dev s)"
  unfolding enable_mastering_def by (auto intro!: run_bind_total reads_total split: prod.splits)

lemma configure_msi_total: "ends (configure_msi clog2 l p dev s)"
  unfolding configure_msi_def Let_def by (auto intro!: run_bind_total reads_total split: prod.splits option.splits)

lemma probe_total: "ends (probe p eo bn d s)"
  unfolding probe_def by (auto intro!: run_bind_total reads_total split: prod.splits)

text \<open>
  The one part that may go on forever is the walk along the capability list of a function that was found.
\<close>

lemma enum_function_total:
  assumes "\<And>dev path ptr s. ends (walk_capabilities l p dev path ptr s)"
  shows "ends (enum_function clog2 l p eo path bn d f s)"
  unfolding enum_function_def Let_def
  by (auto intro!: run_bind_total reads_total enum_bars_total set_device_control_total enable_mastering_total configure_msi_total assms
      split: prod.splits option.splits)

lemma examine_total: "ends (enum_function clog2 l p eo path bn d f s) \<Longrightarrow> ends (examine clog2 l p eo path bn sec d f s)"
  unfolding examine_def by (auto intro!: run_bind_total split: prod.splits option.splits)

text \<open>
  A set of states that the steps of an enumeration do not leave, and in which the examination of a function ends.
\<close>

definition enum_stable ::
  "(int \<Rightarrow> nat) \<Rightarrow> ('s, 'a) host_lens \<Rightarrow> 's port \<Rightarrow> enum_options \<Rightarrow> ('s \<Rightarrow> bool) \<Rightarrow> bool" where
  "enum_stable clog2 l p eo I \<longleftrightarrow>
     (\<forall>path bn d f s. I s \<longrightarrow> ends (enum_function clog2 l p eo path bn d f s)) \<and>
     (\<forall>path bn sec d f s s' r. I s \<longrightarrow> examine clog2 l p eo path bn sec d f s = Some (Inr (s', r)) \<longrightarrow> I s') \<and>
     (\<forall>bn d s s' r. I s \<longrightarrow> probe p eo bn d s = Some (Inr (s', r)) \<longrightarrow> I s') \<and>
     (\<forall>dev path pri sec sub s s' r. I s \<longrightarrow> finish_bridge l p dev path pri sec sub s = Inr (s', r) \<longrightarrow> I s') \<and>
     (\<forall>path sub s. I s \<longrightarrow> I (close_segment l path sub s))"

lemma enum_stableD:
  assumes "enum_stable clog2 l p eo I" and "I s"
  shows "ends (examine clog2 l p eo path bn sec d f s)"
    and "examine clog2 l p eo path bn sec d f s = Some (Inr (s', r)) \<Longrightarrow> I s'"
    and "probe p eo bn d s = Some (Inr (s', w)) \<Longrightarrow> I s'"
    and "finish_bridge l p dev path bn sec sub s = Inr (s', x) \<Longrightarrow> I s'"
    and "I (close_segment l path sub s)"
proof -
  note st = assms(1) [unfolded enum_stable_def]
  show "ends (examine clog2 l p eo path bn sec d f s)"
    using st [THEN conjunct1, rule_format, OF assms(2)] by (rule examine_total)
  show "I s'" if "examine clog2 l p eo path bn sec d f s = Some (Inr (s', r))"
    by (rule st [THEN conjunct2, THEN conjunct1, rule_format, OF assms(2) that])
  show "I s'" if "probe p eo bn d s = Some (Inr (s', w))"
    by (rule st [THEN conjunct2, THEN conjunct2, THEN conjunct1, rule_format, OF assms(2) that])
  show "I s'" if "finish_bridge l p dev path bn sec sub s = Inr (s', x)"
    by (rule st [THEN conjunct2, THEN conjunct2, THEN conjunct2, THEN conjunct1, rule_format, OF assms(2) that])
  show "I (close_segment l path sub s)"
    by (rule st [THEN conjunct2, THEN conjunct2, THEN conjunct2, THEN conjunct2, rule_format, OF assms(2)])
qed

lemma examine_bridge:
  "examine clog2 l p eo path bn sec d f s = Some (Inr (s', Some path')) \<Longrightarrow> sec < 256"
  unfolding examine_def set_busses_def write_packed_def as_bytes_def
  by (auto simp: run_bind_return_iff split: prod.splits option.splits if_splits)

fun work_weight :: "work \<Rightarrow> nat" where
  "work_weight (Probe d) = 9"
| "work_weight (Examine d f) = 1"

lemma probe_weight:
  "probe p eo bn d s = Some (Inr (s', new)) \<Longrightarrow> sum_list (map work_weight new) < 9"
  unfolding probe_def
  by (auto simp: run_bind_return_iff o_def sum_list_triv split: prod.splits if_splits)

text \<open>A segment ends with a last bus number that is not below its own.\<close>

definition lands :: "('s \<Rightarrow> bool) \<Rightarrow> int \<Rightarrow> ('s \<times> int) run \<Rightarrow> bool" where
  "lands I bn r \<longleftrightarrow> ends r \<and> (\<forall>s sub. r = Some (Inr (s, sub)) \<longrightarrow> I s \<and> bn \<le> sub)"

lemma lands_bind: "ends r \<Longrightarrow> (\<And>a. r = Some (Inr a) \<Longrightarrow> lands I bn (f a)) \<Longrightarrow> lands I bn (run_bind r f)"
  by (auto simp: lands_def ends_def run_bind_def split: option.splits sum.splits)

lemma enum_loop_lands:
  assumes "enum_stable clog2 l p eo I" and "I s" and "bn < sec" and "bn \<le> sub"
  shows "lands I bn (enum_loop clog2 l p eo path bn sec sub todo s)"
  using assms(2-4)
proof (induction "(nat (256 - bn), sum_list (map work_weight todo))" arbitrary: path bn sec sub todo s
    rule: wf_induct_rule [OF wf_lex_prod [OF wf_less_than wf_less_than]])
  case (1 bn todo path sec sub s)
  note stable = enum_stableD [OF assms(1)]
  consider (none) "todo = []" | (probe) d rest where "todo = Probe d # rest" | (examine) d f rest where "todo = Examine d f # rest"
    by (metis list.exhaust work.exhaust)
  then show ?case
  proof cases
    case none then show ?thesis using "1.prems" stable(5) by (subst enum_loop.simps) (simp add: lands_def)
  next
    case probe
    have "lands I bn (enum_loop clog2 l p eo path bn sec sub (new @ rest) s1)" if "probe p eo bn d s = Some (Inr (s1, new))" for s1 new
      using probe_weight [OF that] stable(3) [OF "1.prems"(1) that] "1.prems" probe by (intro "1.hyps") auto
    then show ?thesis unfolding probe by (subst enum_loop.simps) (auto intro!: lands_bind probe_total)
  next
    case examine
    have step: "lands I bn (enum_loop clog2 l p eo path bn sec1 sub1 rest s1)" if "I s1" "bn < sec1" "bn \<le> sub1" for sec1 sub1 s1
      using that examine by (intro "1.hyps") auto
    let ?then = "\<lambda>path1 (s, sub). run_bind (Some (finish_bridge l p (PcieId bn d f) path1 bn sec sub s))
        (\<lambda>(s, sub). enum_loop clog2 l p eo path bn (sub + 1) sub rest s)"
    have after: "lands I bn (?then path1 (s1, sub1))" if "I s1" "sec \<le> sub1" for path1 sub1 s1
      unfolding prod.case
    proof (rule lands_bind)
      fix a assume a: "Some (finish_bridge l p (PcieId bn d f) path1 bn sec sub1 s1) = Some (Inr a)"
      then have "snd a = sub1" by (auto simp: finish_bridge_def)
      moreover have "I (fst a)" using a stable(4) [OF that(1), of "PcieId bn d f" path1 bn sec sub1 "fst a" "snd a"] by simp
      ultimately show "lands I bn (case a of (s, sub) \<Rightarrow> enum_loop clog2 l p eo path bn (sub + 1) sub rest s)"
        using step [of "fst a" "sub1 + 1" sub1] that(2) "1.prems"(2) by (simp add: case_prod_beta)
    qed simp
    have bridge: "lands I bn (run_bind (enum_loop clog2 l p eo path1 sec (sec + 1) sec all_devices s1) (?then path1))"
      if ex: "examine clog2 l p eo path bn sec d f s = Some (Inr (s1, Some path1))" for s1 path1
    proof -
      have "lands I sec (enum_loop clog2 l p eo path1 sec (sec + 1) sec all_devices s1)"
        using examine_bridge [OF ex] stable(2) [OF "1.prems"(1) ex] "1.prems" by (intro "1.hyps") auto
      then show ?thesis using after by (intro lands_bind) (auto simp: lands_def [of I sec])
    qed
    show ?thesis unfolding examine
    proof (subst enum_loop.simps, simp only: list.case work.case, rule lands_bind)
      fix a assume a: "examine clog2 l p eo path bn sec d f s = Some (Inr a)"
      have "I (fst a)" using stable(2) [OF "1.prems"(1), of path bn sec d f "fst a" "snd a"] a by simp
      then show "lands I bn (case a of (s, found) \<Rightarrow> (case found of None \<Rightarrow> enum_loop clog2 l p eo path bn sec sub rest s
        | Some path1 \<Rightarrow> run_bind (enum_loop clog2 l p eo path1 sec (sec + 1) sec all_devices s) (?then path1)))"
        using step [OF _ "1.prems"(2,3)] bridge a by (cases a) (simp split: option.splits)
    qed (rule stable(1) [OF "1.prems"(1)])
  qed
qed

definition enum_start :: "('s, 'a) host_lens \<Rightarrow> 's \<Rightarrow> 's" where
  "enum_start l s = open_segment l [] 0 (on_host l (\<lambda>h. h\<lparr>rc_io_limit := rc_io_base h, rc_mem_limit := rc_mem_base h,
     rc_prefetchable_mem_limit := rc_prefetchable_mem_base h, rc_tree := TreeItem new_item []\<rparr>) s)"

text \<open>C40. The enumeration ends, whatever answers on the busses: as bus numbers above 255 are refused, devices cannot make
  the root complex descend through bridges forever. All that has to be known is that in the states the enumeration goes through
  the examination of a single function ends, and with it the walk along its capability list. To end means not to
  loop: the result may be an exception, or \<open>Blocked\<close> when an answer is awaited that never comes.\<close>

theorem enumeration_ends:
  assumes "enum_stable clog2 l p eo I" and "I (enum_start l s)"
  shows "\<exists>r. rc_enumerate clog2 l p eo s = Some r"
proof -
  have "ends (enum_loop clog2 l p eo [] 0 1 0 all_devices (enum_start l s))"
    using enum_loop_lands [OF assms, of 0 1 0] by (simp add: lands_def)
  then have "ends (rc_enumerate clog2 l p eo s)"
    unfolding rc_enumerate_def enumerate_segment_def Let_def enum_start_def by (intro run_bind_total) (auto split: prod.splits)
  then show ?thesis by (rule ends_obtain)
qed

text \<open>Registers that read as zero: the walk ends at once.\<close>

definition zero_port :: "'s port" where
  "zero_port = \<lparr>port_tag = (\<lambda>s. (s, Some 0)), port_id = (\<lambda>s. PcieId 0 0 0), port_mps = (\<lambda>s. 0), port_mrrs = (\<lambda>s. 0),
     port_send = (\<lambda>t s. Inr s),
     port_recv = (\<lambda>tag timeout s. Inr (s, Some (new_tlp\<lparr>tlp_length := 1, tlp_data := [0]\<rparr>)))\<rparr>"

lemma zero_reads: "config_read_loop zero_port dev timeout len addr n data s = Inr (s', d) \<Longrightarrow> set data \<subseteq> {0} \<Longrightarrow> set d \<subseteq> {0}"
proof (induction "zero_port :: 'a port" dev timeout len addr n data s rule: config_read_loop.induct)
  case (1 dev timeout len addr n data s)
  have z: "cpl_dword (new_tlp\<lparr>tlp_length := 1, tlp_data := [0]\<rparr>) = Inr [0, 0, 0, 0]" by code_simp
  show ?case
  proof (cases "n < len")
    case True
    let ?k = "dword_chunk addr (len - n)"
    have "set (data @ drop (nat (addr mod 4)) [0, 0, 0, 0]) \<subseteq> {0 :: int}"
      using "1.prems"(2) set_drop_subset [of "nat (addr mod 4)" "[0, 0, 0, 0 :: int]"] by auto
    moreover have "config_read_loop zero_port dev timeout len (addr + ?k) (n + ?k) (data @ drop (nat (addr mod 4)) [0, 0, 0, 0]) s = Inr (s', d)"
      using "1.prems"(1) True z by (subst (asm) config_read_loop.simps) (simp add: zero_port_def with_tag_def Let_def new_tlp_def CPL_STATUS_SC_def)
    ultimately show ?thesis using "1.hyps" True by blast
  next
    case False
    then show ?thesis using "1.prems" set_take_subset [of "nat len" data] by (subst (asm) config_read_loop.simps) auto
  qed
qed

lemma zero_walk: "ends (walk_capabilities l zero_port dev path ptr s)"
proof -
  have stop: "walk_capabilities l zero_port dev path 0 s = Some (Inr s)" for s by (subst walk_capabilities.simps) simp
  have "(bs ! 1) AND 0xfc = 0" if "rc_config_read dev zero_port ptr 0 2 s = Some (Inr (s1, Some bs))" "\<not> length bs < 2" for s1 bs
  proof -
    have "config_read_loop zero_port dev 0 2 ptr 0 [] s = Inr (s1, bs)"
      using that(1) by (auto simp: rc_config_read_def run_bind_return_iff)
    then have "set bs \<subseteq> {0}" using zero_reads by fastforce
    moreover have "bs ! 1 \<in> set bs" using that(2) by simp
    ultimately have "bs ! 1 = 0" by blast
    then show ?thesis by simp
  qed
  then have "ends (case a of (s, val) \<Rightarrow> (case val of None \<Rightarrow> run_raise TypeError
      | Some bs \<Rightarrow> if length bs < 2 then run_raise IndexError
          else walk_capabilities l zero_port dev path ((bs ! 1) AND 0xfc)
                 (on_item l path (\<lambda>i. i\<lparr>ti_capabilities := ti_capabilities i @ [(bs ! 0, ptr)]\<rparr>) s)))"
    if "rc_config_read dev zero_port ptr 0 2 s = Some (Inr a)" for a
    using that stop by (auto split: prod.splits option.splits)
  moreover obtain r where "rc_config_read dev zero_port ptr 0 2 s = Some r" using ends_obtain [OF config_read_total [of dev zero_port ptr 0 2 s]] by blast
  ultimately show ?thesis by (subst walk_capabilities.simps) (cases r; simp)
qed

theorem enumeration_ends_witness:
  "\<forall>s :: rc_host. \<exists>r. rc_enumerate (\<lambda>_. 2) \<lparr>lens_get = (\<lambda>h. h), lens_put = (\<lambda>h _. h)\<rparr> zero_port
     \<lparr>eo_timeout = 1000, eo_bus_mastering = True, eo_msi = True\<rparr> s = Some r"
proof
  fix s :: rc_host
  let ?l = "\<lparr>lens_get = (\<lambda>h. h), lens_put = (\<lambda>h _. h)\<rparr> :: (rc_host, unit) host_lens"
  have "enum_stable (\<lambda>_. 2) ?l zero_port \<lparr>eo_timeout = 1000, eo_bus_mastering = True, eo_msi = True\<rparr> (\<lambda>_. True)"
    unfolding enum_stable_def by (simp add: enum_function_total zero_walk)
  from enumeration_ends [OF this, of s]
  show "\<exists>r. rc_enumerate (\<lambda>_. 2) ?l zero_port \<lparr>eo_timeout = 1000, eo_bus_mastering = True, eo_msi = True\<rparr> s = Some r" by simp
qed

text \<open>
  The condition is needed: when nothing answers, every byte reads as 255 and a walk that has begun stays at offset 252 forever.
\<close>

definition mute_port :: "'s port" where
  "mute_port = \<lparr>port_tag = (\<lambda>s. (s, Some 0)), port_id = (\<lambda>s. PcieId 0 0 0), port_mps = (\<lambda>s. 0), port_mrrs = (\<lambda>s. 0),
     port_send = (\<lambda>t s. Inr s), port_recv = (\<lambda>tag timeout s. Inr (s, None))\<rparr>"

lemma mute_read: "rc_config_read dev mute_port 0xfc 0 2 s = Some (Inr (s, Some [0xff, 0xff]))"
proof -
  have k: "dword_chunk 252 2 = 2" by code_simp
  have "config_read_loop mute_port dev 0 2 254 2 [0xff, 0xff, 0xff, 0xff] s = Inr (s, [0xff, 0xff])"
    by (subst config_read_loop.simps) simp
  then have "config_read_loop mute_port dev 0 2 252 0 [] s = Inr (s, [0xff, 0xff])"
    by (subst config_read_loop.simps) (simp add: mute_port_def with_tag_def Let_def k)
  then show ?thesis by (simp add: rc_config_read_def)
qed

lemma walk_mute_diverges: "walk_capabilities l mute_port dev path 0xfc s = None"
proof -
  have "p \<noteq> mute_port \<or> ptr \<noteq> 0xfc" if w: "walk_capabilities l p dev path ptr s = Some y" for l p dev path ptr s y
  proof (rule walk_capabilities.raw_induct [of "\<lambda>l p dev path ptr s y. p \<noteq> mute_port \<or> ptr \<noteq> 0xfc", OF _ w], goal_cases)
    case (1 walk l p dev path ptr s y)
    have "(0xff :: int) AND 0xfc = 0xfc" by code_simp
    then have "walk l mute_port dev path 0xfc (on_item l path (\<lambda>i. i\<lparr>ti_capabilities := ti_capabilities i @ [(0xff, 0xfc)]\<rparr>) s) = Some y"
      if "p = mute_port" "ptr = 0xfc" using 1(2) that by (simp add: mute_read)
    then show ?case using 1(1) by blast
  qed
  then show ?thesis by (metis not_None_eq)
qed

end
