(* ===== verification/Spec2Isabelle.thy ===== *)
theory Spec2Isabelle
  imports SME_Group_Query PCIE_TLP_Correct PCIE_CapList_Correct PCIE_ConfigSpace PCIE_Alloc PCIE_Link PCIE_Routing_Correct PCIE_Enum_Correct
begin

text \<open>
  Verification of the Python code of the Rosebud repository: the compiler of string matchers and the
  simulation model of PCI Express. Paths are relative to \<open>src/fpga_src\<close>.

  \<^bold>\<open>The program.\<close> \<open>accel/archive/sme/python/sme_rulecompiler.py\<close> turns lists of words into string matching hardware. An
  Aho-Corasick machine (\<open>AhoCorasickStateMachine\<close>) is built from words. A bit-split machine
  (\<open>BitSplitStateMachine\<close>) runs several of them, each on some bits of every character, and reports
  what all of them report. A group (\<open>BitSplitStateMachineGroup\<close>) distributes
  the words over bit-split machines such that none has too many states or matches.

  \<open>lib/pcie/tb/pcie.py\<close> simulates a PCI Express hierarchy. Packets (\<open>TLP\<close>) are exchanged between functions
  (\<open>Function\<close>, \<open>Endpoint\<close>, \<open>MemoryEndpoint\<close>, \<open>Bridge\<close>), which have a configuration space made of a header and
  a linked list of capabilities (\<open>PcieCapList\<close>, \<open>PMCapability\<close>, \<open>PCIECapability\<close>, \<open>MSICapability\<close>, \<open>MSIXCapability\<close>).
  Ports connect them, switches and devices route the packets, and the root complex (\<open>RootComplex\<close>)
  owns memory, sends requests and enumerates the hierarchy. \<open>lib/pcie/tb/pcie_us.py\<close> and \<open>pcie_usp.py\<close> derive the
  functions of the UltraScale devices.

  \<^bold>\<open>Conventions.\<close> Objects are records; objects that refer to each other, as the states of the Aho-Corasick machine do,
  are indices into a store. Python integers are \<^typ>\<open>int\<close>, and widths appear as the masks of the source. A method
  returns the changed object. A raise is the left value of \<open>py_error + 'a\<close>. A computation that may not
  end is \<open>(py_error + 'a) option\<close>, with None for one that loops, defined by \<open>partial_function (option)\<close>; no
  definition has a bound on its steps that the source does not have. The error \<open>Blocked\<close> stands for a process
  that waits for a signal nobody changes. Code that is not in the repository is a parameter: the
  rounded logarithms of \<open>math\<close> (\<open>clog2\<close>), the functions users register (tokens whose calls are recorded), and the progress of the MyHDL
  simulation between a request and its completion (\<open>deliver\<close> and \<open>wait\<close> of \<open>fn_port\<close> and \<open>rc_port\<close>).

  \<^bold>\<open>Foundations.\<close> \<open>Rosebud_Prelude\<close> has the error values, the option and run monads, Python's slices and the shared list
  lemmas. \<open>Bit_Fields\<close> has fields, masks and little-endian bytes.

  \<^bold>\<open>String matching.\<close>
  \<^item> \<open>SME_AhoCorasick\<close> models the states, \<open>add_word\<close>, the loops of \<open>finalize\<close>, \<open>query_char\<close> and \<open>query\<close>.
    \<open>SME_AhoCorasick_Correct\<close> relates the store to the prefixes of the words (locale \<open>prefix_closed\<close>),
    \<open>SME_AC_Finalize\<close> and \<open>SME_AC_Table\<close> treat the two loops of \<open>finalize\<close>. \<open>SME_AC_Query\<close> shows that a query yields what a naive search
    yields, in the same order; that the tabulated transitions lead to the state of the longest suffix; and that
    \<open>finalize\<close> ends with failure links to longest strict suffixes.
  \<^item> \<open>SME_BitSplit\<close> and \<open>SME_BitSplit_Correct\<close>: splitting of characters and words, and the words reported at each character.
  \<^item> \<open>SME_Group\<close>, \<open>SME_Group_Correct\<close>, \<open>SME_Group_Query\<close>: the partition search, when it returns, fails and loops, what the
    partitions are, and the words a partitioned group reports.

  \<^bold>\<open>Packets and configuration space.\<close>
  \<^item> \<open>PCIE_Base\<close>: \<open>align\<close>, \<open>byte_mask_update\<close>, \<open>PcieId\<close>. \<open>PCIE_TLP\<close> and \<open>PCIE_TLP_Correct\<close>: packets, byte enables, data, packing and unpacking.
  \<^item> \<open>PCIE_CapList\<close> and \<open>PCIE_CapList_Correct\<close>: registration and lookup of capabilities, their layout and the
    placement that overlaps.
  \<^item> \<open>PCIE_CapRegs\<close>: the registers of the four capabilities. \<open>PCIE_CapRegs_Correct\<close> has the locale \<open>register_file\<close>, the contract of
    registers with writable bits and bits cleared by writing 1, and its interpretations.
  \<^item> \<open>PCIE_Function\<close>: state, configuration accesses, base address registers, tags and completion queues of functions, endpoints
    and bridges. \<open>PCIE_Function_Correct\<close>: the order in which tags are handed out, the decoding of addresses, and what
    configuration writes keep. \<open>PCIE_ConfigSpace\<close>: the whole configuration space of an UltraScale function is a
    register file.

  \<^bold>\<open>Memory and requests.\<close>
  \<^item> \<open>PCIE_Memory\<close> and \<open>PCIE_RootComplex\<close>: regions of endpoints and of the root complex and the handlers of requests.
    \<open>PCIE_Memory_Correct\<close>: writes change exactly the enabled bytes, proved once over the locale \<open>byte_mover\<close>, and
    the completions of a read. \<open>PCIE_Alloc\<close>: when allocated regions are disjoint.
  \<^item> \<open>PCIE_Requests\<close>: the requests of functions and of the root complex, with all their word variants.
    \<open>PCIE_Requests_Correct\<close>: the loops over the locale \<open>memory_port\<close>. \<open>PCIE_Link\<close> interprets it with a root complex in front of a memory
    endpoint, where the completions arrive one after the other while the root complex waits: writes store and reads return
    exactly the bytes, and no wait blocks.

  \<^bold>\<open>Routing and enumeration.\<close>
  \<^item> \<open>PCIE_Routing\<close> and \<open>PCIE_Routing_Correct\<close>: connection of ports, the decisions of \<open>Bridge\<close>, \<open>SwitchUpstreamPort\<close> and \<open>Device\<close>,
    the numbering of functions and switch ports.
  \<^item> \<open>PCIE_Enum\<close> and \<open>PCIE_Enum_Correct\<close>: the device tree, message signalled interrupts, the assignment of addresses and bus numbers,
    and that the enumeration does not loop.

  \<^bold>\<open>Defects.\<close> Where the code does something else than it means to, the model follows the code, and a theorem states what happens:
  the partition search with a limit of one state, unpacking of memory requests, the
  lower address of completions, overlapping capabilities and regions, the boundary bit of the link control register, base address
  registers of four gigabytes or more and addresses above them, function reads over a page boundary,
  completions for posted writes and messages routed by identifier.

  \<^bold>\<open>Not modelled.\<close> Rule parsing and the Verilog text of the rule compiler; log output; the delays and transmit queues of \<open>Port\<close> and the
  order in which the simulator runs processes; the cycle-by-cycle models of the UltraScale cores and of the buses; the test benches and
  the scripts around them, which drive simulated hardware or only convert files.
\<close>

end
